theory Spec2Isabelle
  imports Complex_Main "HOL-Library.Sublist" "HOL-Library.Multiset"
begin

section \<open>Common Go notions\<close>

text \<open>
  A Go \<^verbatim>\<open>error\<close> value is a message, possibly wrapping another error
  (\<^verbatim>\<open>fmt.Errorf("...: %w", err)\<close>).  The service's messages are Chinese in the
  source; they are given here by an English rendering of the same text.
\<close>

datatype error = Err string | Wrap string error

text \<open>\<^verbatim>\<open>sql.NullString\<close>: a string and the flag that it is not NULL.\<close>

record NullString =
  String :: string
  Valid :: bool

text \<open>\<^verbatim>\<open>strings.Join\<close> and \<^verbatim>\<open>strings.Contains\<close>.\<close>

fun join :: "string list \<Rightarrow> string \<Rightarrow> string" where
  "join [] sep = []"
| "join [x] sep = x"
| "join (x # y # ys) sep = x @ sep @ join (y # ys) sep"

definition contains :: "string \<Rightarrow> string \<Rightarrow> bool" where
  "contains s substr = sublist substr s"

text \<open>
  A Go map is a partial function.  \<^verbatim>\<open>for k, v := range m\<close> visits every key of the map
  once, in an order the language leaves open; each such loop of the source takes the
  order it happens to use as an argument, a list of keys.  The list is a possible
  order of the loop when it holds every key of the map once.
\<close>

definition rangeOrder :: "('k \<rightharpoonup> 'v) \<Rightarrow> 'k list \<Rightarrow> bool" where
  "rangeOrder m ks \<longleftrightarrow> distinct ks \<and> set ks = dom m"

section \<open>Structure comparison: \<^verbatim>\<open>mysql-structure-sync/internal/sync\<close>\<close>

subsection \<open>Table models (\<^verbatim>\<open>comparer.go\<close>)\<close>

record ColumnModel =
  Name :: string
  DataType :: string
  IsNullable :: string
  ColumnKey :: string
  DefaultValue :: NullString
  Extra :: string
  OnUpdate :: NullString

record IndexModel =
  Name :: string
  Columns :: "string list"
  NonUnique :: int
  IndexType :: string

record PrimaryKeyModel =
  Name :: string
  Columns :: "string list"

record TableModel =
  Name :: string
  Columns :: "ColumnModel list"
  Indexes :: "IndexModel list"
  PrimaryKey :: "PrimaryKeyModel option"

subsection \<open>Differences and plans\<close>

datatype DifferenceType =
  AddColumn | ModifyColumn | DropColumn
| AddIndex | ModifyIndex | DropIndex
| AddPrimaryKey | DropPrimaryKey

record Difference =
  Type :: DifferenceType
  Name :: string
  Description :: string
  SQL :: string

record SyncPlan =
  TableName :: string
  Differences :: "Difference list"
  Status :: string

subsection \<open>Rendering of DDL\<close>

definition squote :: "string \<Rightarrow> string" where
  "squote s = [CHR 0x27] @ s @ [CHR 0x27]"

definition bquote :: "string \<Rightarrow> string" where
  "bquote s = [CHR 0x60] @ s @ [CHR 0x60]"

text \<open>The clauses that follow the column type, the same in both generators.\<close>

definition columnClauses :: "ColumnModel \<Rightarrow> string list" where
  "columnClauses column =
     (if IsNullable column = ''NO'' then [''NOT NULL''] else [])
     @ (if Valid (DefaultValue column)
        then (if String (DefaultValue column) = ''CURRENT_TIMESTAMP''
              then [''DEFAULT CURRENT_TIMESTAMP'']
              else [''DEFAULT '' @ squote (String (DefaultValue column))])
        else [])
     @ (if Valid (OnUpdate column) \<and> String (OnUpdate column) = ''CURRENT_TIMESTAMP''
        then [''ON UPDATE CURRENT_TIMESTAMP''] else [])
     @ (if contains (Extra column) ''auto_increment'' then [''AUTO_INCREMENT''] else [])"

definition generateAddColumnSQL :: "string \<Rightarrow> ColumnModel \<Rightarrow> string" where
  "generateAddColumnSQL tableName column =
     join ((''ALTER TABLE '' @ bquote tableName @ '' ADD COLUMN ''
              @ bquote (ColumnModel.Name column) @ '' '' @ DataType column)
           # columnClauses column) '' ''"

definition generateModifyColumnSQL :: "string \<Rightarrow> ColumnModel \<Rightarrow> string" where
  "generateModifyColumnSQL tableName column =
     join ((''ALTER TABLE '' @ bquote tableName @ '' MODIFY COLUMN ''
              @ bquote (ColumnModel.Name column) @ '' '' @ DataType column)
           # columnClauses column) '' ''"

definition generateAddIndexSQL :: "string \<Rightarrow> IndexModel \<Rightarrow> string" where
  "generateAddIndexSQL tableName index =
     ''CREATE '' @ (if NonUnique index = 0 then ''UNIQUE'' else ''INDEX'')
     @ '' INDEX '' @ bquote (IndexModel.Name index) @ '' ON '' @ bquote tableName
     @ '' ('' @ join (map bquote (IndexModel.Columns index)) '', '' @ '') USING ''
     @ IndexType index"

definition generateAddPrimaryKeySQL :: "string \<Rightarrow> PrimaryKeyModel \<Rightarrow> string" where
  "generateAddPrimaryKeySQL tableName pk =
     ''ALTER TABLE '' @ bquote tableName @ '' ADD PRIMARY KEY (''
     @ join (map bquote (PrimaryKeyModel.Columns pk)) '', '' @ '')''"

subsection \<open>Equality tests of the differ\<close>

definition columnsAreDifferent :: "ColumnModel \<Rightarrow> ColumnModel \<Rightarrow> bool" where
  "columnsAreDifferent source target =
     (if DataType source \<noteq> DataType target
         \<or> IsNullable source \<noteq> IsNullable target
         \<or> Extra source \<noteq> Extra target then True
      else if Valid (DefaultValue source) \<noteq> Valid (DefaultValue target) then True
      else if Valid (DefaultValue source) \<and> Valid (DefaultValue target)
              \<and> String (DefaultValue source) \<noteq> String (DefaultValue target) then True
      else if Valid (OnUpdate source) \<noteq> Valid (OnUpdate target) then True
      else if Valid (OnUpdate source) \<and> Valid (OnUpdate target)
              \<and> String (OnUpdate source) \<noteq> String (OnUpdate target) then True
      else False)"

text \<open>
  The loop \<^verbatim>\<open>for i, col := range source.Columns { if col != target.Columns[i] ... }\<close>.
  It runs only after the lengths were found equal, so every index it reads is in range
  and the positions it visits are those of \<open>zip\<close>.
\<close>

definition columnListsDiffer :: "string list \<Rightarrow> string list \<Rightarrow> bool" where
  "columnListsDiffer source target =
     (if length source \<noteq> length target then True
      else list_ex (\<lambda>(col, tcol). col \<noteq> tcol) (zip source target))"

definition indexesAreDifferent :: "IndexModel \<Rightarrow> IndexModel \<Rightarrow> bool" where
  "indexesAreDifferent source target =
     (if NonUnique source \<noteq> NonUnique target \<or> IndexType source \<noteq> IndexType target
      then True
      else columnListsDiffer (IndexModel.Columns source) (IndexModel.Columns target))"

definition primaryKeysAreDifferent :: "PrimaryKeyModel \<Rightarrow> PrimaryKeyModel \<Rightarrow> bool" where
  "primaryKeysAreDifferent source target =
     columnListsDiffer (PrimaryKeyModel.Columns source) (PrimaryKeyModel.Columns target)"

subsection \<open>The three comparison passes\<close>

text \<open>The lookup maps the passes build: a later entry of the same name replaces an earlier one.\<close>

definition columnsByName :: "ColumnModel list \<Rightarrow> (string \<rightharpoonup> ColumnModel)" where
  "columnsByName cols = fold (\<lambda>col m. m(ColumnModel.Name col \<mapsto> col)) cols Map.empty"

definition indexesByName :: "IndexModel list \<Rightarrow> (string \<rightharpoonup> IndexModel)" where
  "indexesByName idxs = fold (\<lambda>idx m. m(IndexModel.Name idx \<mapsto> idx)) idxs Map.empty"

definition appendDiffs :: "SyncPlan \<Rightarrow> Difference list \<Rightarrow> SyncPlan" where
  "appendDiffs plan ds = plan\<lparr>Differences := Differences plan @ ds\<rparr>"

text \<open>First loop of \<^verbatim>\<open>compareColumns\<close>, at one key of \<^verbatim>\<open>sourceColumns\<close>.\<close>

definition addColumnAt ::
  "TableModel \<Rightarrow> (string \<rightharpoonup> ColumnModel) \<Rightarrow> (string \<rightharpoonup> ColumnModel) \<Rightarrow> string \<Rightarrow> Difference list" where
  "addColumnAt source sourceColumns targetColumns name =
     (case sourceColumns name of
        None \<Rightarrow> []
      | Some sourceCol \<Rightarrow>
          (case targetColumns name of
             None \<Rightarrow> [\<lparr>Type = AddColumn, Name = name,
                       Description = ''Add column '' @ squote name,
                       SQL = generateAddColumnSQL (TableModel.Name source) sourceCol\<rparr>]
           | Some _ \<Rightarrow> []))"

text \<open>Second loop of \<^verbatim>\<open>compareColumns\<close>, at one key of \<^verbatim>\<open>targetColumns\<close>.\<close>

definition modifyOrDropColumnAt ::
  "TableModel \<Rightarrow> (string \<rightharpoonup> ColumnModel) \<Rightarrow> (string \<rightharpoonup> ColumnModel) \<Rightarrow> string \<Rightarrow> Difference list" where
  "modifyOrDropColumnAt source sourceColumns targetColumns name =
     (case targetColumns name of
        None \<Rightarrow> []
      | Some targetCol \<Rightarrow>
          (case sourceColumns name of
             Some sourceCol \<Rightarrow>
               (if columnsAreDifferent sourceCol targetCol
                then [\<lparr>Type = ModifyColumn, Name = name,
                       Description = ''Modify column '' @ squote name,
                       SQL = generateModifyColumnSQL (TableModel.Name source) sourceCol\<rparr>]
                else [])
           | None \<Rightarrow> [\<lparr>Type = DropColumn, Name = name,
                       Description = ''Drop column '' @ squote name,
                       SQL = ''ALTER TABLE '' @ bquote (TableModel.Name source)
                             @ '' DROP COLUMN '' @ bquote name\<rparr>]))"

text \<open>
  \<^verbatim>\<open>compareColumns\<close>; \<open>srcOrder\<close> and \<open>tgtOrder\<close> are the orders in which the two
  \<^verbatim>\<open>range\<close> loops visit \<^verbatim>\<open>sourceColumns\<close> and \<^verbatim>\<open>targetColumns\<close>.
\<close>

definition compareColumns ::
  "string list \<Rightarrow> string list \<Rightarrow> TableModel \<Rightarrow> TableModel \<Rightarrow> SyncPlan \<Rightarrow> SyncPlan" where
  "compareColumns srcOrder tgtOrder source target plan =
     (let sourceColumns = columnsByName (TableModel.Columns source);
          targetColumns = columnsByName (TableModel.Columns target);
          plan1 = appendDiffs plan
                    (concat (map (addColumnAt source sourceColumns targetColumns) srcOrder))
      in appendDiffs plan1
           (concat (map (modifyOrDropColumnAt source sourceColumns targetColumns) tgtOrder)))"

definition dropIndexDiff :: "TableModel \<Rightarrow> string \<Rightarrow> Difference" where
  "dropIndexDiff source name =
     \<lparr>Type = DropIndex, Name = name,
      Description = ''Drop index '' @ squote name,
      SQL = ''DROP INDEX '' @ bquote name @ '' ON '' @ bquote (TableModel.Name source)\<rparr>"

text \<open>First loop of \<^verbatim>\<open>compareIndexes\<close>, at one key of \<^verbatim>\<open>sourceIndexes\<close>.\<close>

definition addOrRecreateIndexAt ::
  "TableModel \<Rightarrow> (string \<rightharpoonup> IndexModel) \<Rightarrow> (string \<rightharpoonup> IndexModel) \<Rightarrow> string \<Rightarrow> Difference list" where
  "addOrRecreateIndexAt source sourceIndexes targetIndexes name =
     (case sourceIndexes name of
        None \<Rightarrow> []
      | Some sourceIdx \<Rightarrow>
          (case targetIndexes name of
             None \<Rightarrow> [\<lparr>Type = AddIndex, Name = name,
                       Description = ''Add index '' @ squote name,
                       SQL = generateAddIndexSQL (TableModel.Name source) sourceIdx\<rparr>]
           | Some targetIdx \<Rightarrow>
               (if indexesAreDifferent sourceIdx targetIdx
                then [dropIndexDiff source name,
                      \<lparr>Type = AddIndex, Name = name,
                       Description = ''Recreate index '' @ squote name,
                       SQL = generateAddIndexSQL (TableModel.Name source) sourceIdx\<rparr>]
                else [])))"

text \<open>Second loop of \<^verbatim>\<open>compareIndexes\<close>, at one key of \<^verbatim>\<open>targetIndexes\<close>.\<close>

definition dropIndexAt ::
  "TableModel \<Rightarrow> (string \<rightharpoonup> IndexModel) \<Rightarrow> (string \<rightharpoonup> IndexModel) \<Rightarrow> string \<Rightarrow> Difference list" where
  "dropIndexAt source sourceIndexes targetIndexes name =
     (case targetIndexes name of
        None \<Rightarrow> []
      | Some _ \<Rightarrow>
          (case sourceIndexes name of
             None \<Rightarrow> [dropIndexDiff source name]
           | Some _ \<Rightarrow> []))"

definition compareIndexes ::
  "string list \<Rightarrow> string list \<Rightarrow> TableModel \<Rightarrow> TableModel \<Rightarrow> SyncPlan \<Rightarrow> SyncPlan" where
  "compareIndexes srcOrder tgtOrder source target plan =
     (let sourceIndexes = indexesByName (TableModel.Indexes source);
          targetIndexes = indexesByName (TableModel.Indexes target);
          plan1 = appendDiffs plan
                    (concat (map (addOrRecreateIndexAt source sourceIndexes targetIndexes) srcOrder))
      in appendDiffs plan1
           (concat (map (dropIndexAt source sourceIndexes targetIndexes) tgtOrder)))"

definition dropPrimaryKeyDiff :: "TableModel \<Rightarrow> string \<Rightarrow> Difference" where
  "dropPrimaryKeyDiff source descr =
     \<lparr>Type = DropPrimaryKey, Name = ''PRIMARY'', Description = descr,
      SQL = ''ALTER TABLE '' @ bquote (TableModel.Name source) @ '' DROP PRIMARY KEY''\<rparr>"

definition addPrimaryKeyDiff :: "TableModel \<Rightarrow> PrimaryKeyModel \<Rightarrow> string \<Rightarrow> Difference" where
  "addPrimaryKeyDiff source pk descr =
     \<lparr>Type = AddPrimaryKey, Name = ''PRIMARY'', Description = descr,
      SQL = generateAddPrimaryKeySQL (TableModel.Name source) pk\<rparr>"

definition comparePrimaryKeys :: "TableModel \<Rightarrow> TableModel \<Rightarrow> SyncPlan \<Rightarrow> SyncPlan" where
  "comparePrimaryKeys source target plan =
     (case (PrimaryKey source, PrimaryKey target) of
        (None, None) \<Rightarrow> plan
      | (None, Some _) \<Rightarrow> appendDiffs plan [dropPrimaryKeyDiff source ''Drop primary key'']
      | (Some spk, None) \<Rightarrow> appendDiffs plan [addPrimaryKeyDiff source spk ''Add primary key'']
      | (Some spk, Some tpk) \<Rightarrow>
          (if primaryKeysAreDifferent spk tpk
           then appendDiffs (appendDiffs plan
                               [dropPrimaryKeyDiff source ''Drop existing primary key''])
                  [addPrimaryKeyDiff source spk ''Add new primary key'']
           else plan))"

subsection \<open>Reading a table's structure from the catalog\<close>

text \<open>
  What a database handle answers to the three queries of \<^verbatim>\<open>getTableStructure\<close>.
  A query fails as a whole, or yields rows; each row scans into its values or fails to
  scan, and the iteration ends with \<^verbatim>\<open>rows.Err()\<close>.  The rows come in the order the
  database returns them for the query's \<^verbatim>\<open>ORDER BY\<close> (ordinal position; index name,
  then sequence in index).
\<close>

type_synonym 'a sqlrows = "(error + 'a) list \<times> error option"

type_synonym columnRow = "string \<times> string \<times> string \<times> string \<times> NullString \<times> string"

type_synonym indexRow = "string \<times> string \<times> int \<times> string"

record sqlDB =
  selectDatabase :: "error + string"
  queryColumns :: "string \<Rightarrow> string \<Rightarrow> error + columnRow sqlrows"
  queryStatistics :: "string \<Rightarrow> string \<Rightarrow> error + indexRow sqlrows"

text \<open>The column scanned from one row, with \<^verbatim>\<open>OnUpdate\<close> derived from \<^verbatim>\<open>EXTRA\<close>.\<close>

definition columnOfRow :: "columnRow \<Rightarrow> ColumnModel" where
  "columnOfRow r =
     (case r of (name, dataType, isNullable, columnKey, defaultValue, extra) \<Rightarrow>
        \<lparr>ColumnModel.Name = name, DataType = dataType, IsNullable = isNullable, ColumnKey = columnKey,
         DefaultValue = defaultValue, Extra = extra,
         OnUpdate = (if contains extra ''on update CURRENT_TIMESTAMP''
                     then \<lparr>String = ''CURRENT_TIMESTAMP'', Valid = True\<rparr>
                     else \<lparr>String = [], Valid = False\<rparr>)\<rparr>)"

text \<open>The first \<^verbatim>\<open>rows.Next()\<close> loop.\<close>

fun scanColumns :: "(error + columnRow) list \<Rightarrow> TableModel \<Rightarrow> error + TableModel" where
  "scanColumns [] table = Inr table"
| "scanColumns (Inl e # rest) table = Inl (Wrap ''failed to scan column row'' e)"
| "scanColumns (Inr r # rest) table =
     (let col = columnOfRow r;
          table1 = table\<lparr>TableModel.Columns := TableModel.Columns table @ [col]\<rparr>;
          table2 =
            (if ColumnKey col = ''PRI''
             then (case PrimaryKey table1 of
                     None \<Rightarrow>
                       table1\<lparr>PrimaryKey :=
                         Some \<lparr>PrimaryKeyModel.Name = ''PRIMARY'',
                               PrimaryKeyModel.Columns = [ColumnModel.Name col]\<rparr>\<rparr>
                   | Some pk \<Rightarrow>
                       table1\<lparr>PrimaryKey :=
                         Some (pk\<lparr>PrimaryKeyModel.Columns :=
                                 PrimaryKeyModel.Columns pk @ [ColumnModel.Name col]\<rparr>)\<rparr>)
             else table1)
      in scanColumns rest table2)"

text \<open>The second \<^verbatim>\<open>rows.Next()\<close> loop, filling \<^verbatim>\<open>indexMap\<close>.\<close>

fun scanIndexes ::
  "(error + indexRow) list \<Rightarrow> (string \<rightharpoonup> IndexModel) \<Rightarrow> error + (string \<rightharpoonup> IndexModel)" where
  "scanIndexes [] indexMap = Inr indexMap"
| "scanIndexes (Inl e # rest) indexMap = Inl (Wrap ''failed to scan index row'' e)"
| "scanIndexes (Inr (idxName, colName, nonUnique, idxType) # rest) indexMap =
     (if idxName = ''PRIMARY'' then scanIndexes rest indexMap
      else (case indexMap idxName of
              Some idx \<Rightarrow>
                scanIndexes rest
                  (indexMap(idxName \<mapsto>
                     idx\<lparr>IndexModel.Columns := IndexModel.Columns idx @ [colName]\<rparr>))
            | None \<Rightarrow>
                scanIndexes rest
                  (indexMap(idxName \<mapsto>
                     \<lparr>IndexModel.Name = idxName, IndexModel.Columns = [colName],
                      NonUnique = nonUnique, IndexType = idxType\<rparr>))))"

text \<open>
  \<^verbatim>\<open>getTableStructure\<close>; \<open>mapOrder\<close> is the order in which the closing loop
  \<^verbatim>\<open>for _, idx := range indexMap\<close> visits the map.
\<close>

definition getTableStructure :: "sqlDB \<Rightarrow> string list \<Rightarrow> string \<Rightarrow> error + TableModel" where
  "getTableStructure db mapOrder tableName =
     (let table = \<lparr>TableModel.Name = tableName, TableModel.Columns = [],
                   Indexes = [], PrimaryKey = None\<rparr> in
      case selectDatabase db of
        Inl e \<Rightarrow> Inl (Wrap ''failed to get database name'' e)
      | Inr dbName \<Rightarrow>
      (case queryColumns db dbName tableName of
        Inl e \<Rightarrow> Inl (Wrap ''failed to query columns'' e)
      | Inr (colRows, colErr) \<Rightarrow>
      (case scanColumns colRows table of
        Inl e \<Rightarrow> Inl e
      | Inr table1 \<Rightarrow>
      (case colErr of
        Some e \<Rightarrow> Inl (Wrap ''error iterating column rows'' e)
      | None \<Rightarrow>
      (case queryStatistics db dbName tableName of
        Inl e \<Rightarrow> Inl (Wrap ''failed to query indexes'' e)
      | Inr (idxRows, idxErr) \<Rightarrow>
      (case scanIndexes idxRows Map.empty of
        Inl e \<Rightarrow> Inl e
      | Inr indexMap \<Rightarrow>
      (case idxErr of
        Some e \<Rightarrow> Inl (Wrap ''error iterating index rows'' e)
      | None \<Rightarrow>
          Inr (table1\<lparr>Indexes := Indexes table1 @ List.map_filter indexMap mapOrder\<rparr>))))))))"

subsection \<open>\<^verbatim>\<open>Compare\<close>\<close>

text \<open>The orders taken by the six \<^verbatim>\<open>range\<close> loops over maps that one comparison runs.\<close>

record rangeOrders =
  sourceIndexMap :: "string list"
  targetIndexMap :: "string list"
  sourceColumns :: "string list"
  targetColumns :: "string list"
  sourceIndexes :: "string list"
  targetIndexes :: "string list"

text \<open>The part of \<^verbatim>\<open>Compare\<close> that follows the reading of the two structures.\<close>

definition comparePlan :: "rangeOrders \<Rightarrow> string \<Rightarrow> TableModel \<Rightarrow> TableModel \<Rightarrow> SyncPlan" where
  "comparePlan ro tableName sourceTable targetTable =
     (let plan = \<lparr>TableName = tableName, Differences = [], Status = ''pending''\<rparr>;
          plan1 = compareColumns (sourceColumns ro) (targetColumns ro) sourceTable targetTable plan;
          plan2 = compareIndexes (sourceIndexes ro) (targetIndexes ro) sourceTable targetTable plan1
      in comparePrimaryKeys sourceTable targetTable plan2)"

definition Compare :: "sqlDB \<Rightarrow> sqlDB \<Rightarrow> rangeOrders \<Rightarrow> string \<Rightarrow> error + SyncPlan" where
  "Compare SourceDB TargetDB ro tableName =
     (case getTableStructure SourceDB (sourceIndexMap ro) tableName of
        Inl e \<Rightarrow> Inl (Wrap ''failed to get source table structure'' e)
      | Inr sourceTable \<Rightarrow>
      (case getTableStructure TargetDB (targetIndexMap ro) tableName of
        Inl e \<Rightarrow> Inl (Wrap ''failed to get target table structure'' e)
      | Inr targetTable \<Rightarrow> Inr (comparePlan ro tableName sourceTable targetTable)))"

subsection \<open>Notions used to state the properties of the differ\<close>

text \<open>The differences \<^verbatim>\<open>comparePrimaryKeys\<close> appends to the plan, in its four cases.\<close>

definition primaryKeyDiffs :: "TableModel \<Rightarrow> TableModel \<Rightarrow> Difference list" where
  "primaryKeyDiffs source target =
     (case (PrimaryKey source, PrimaryKey target) of
        (None, None) \<Rightarrow> []
      | (None, Some _) \<Rightarrow> [dropPrimaryKeyDiff source ''Drop primary key'']
      | (Some spk, None) \<Rightarrow> [addPrimaryKeyDiff source spk ''Add primary key'']
      | (Some spk, Some tpk) \<Rightarrow>
          (if primaryKeysAreDifferent spk tpk
           then [dropPrimaryKeyDiff source ''Drop existing primary key'',
                 addPrimaryKeyDiff source spk ''Add new primary key'']
           else []))"

definition indexKinds :: "DifferenceType set" where
  "indexKinds = {AddIndex, ModifyIndex, DropIndex}"

definition primaryKeyKinds :: "DifferenceType set" where
  "primaryKeyKinds = {AddPrimaryKey, DropPrimaryKey}"

text \<open>The values of the rows that scanned.\<close>

definition rowsOf :: "(error + 'a) list \<Rightarrow> 'a list" where
  "rowsOf rs = concat (map (\<lambda>r. case r of Inl _ \<Rightarrow> [] | Inr v \<Rightarrow> [v]) rs)"

text \<open>The primary key read off a column list: the columns of key role \<^verbatim>\<open>PRI\<close>, in order.\<close>

definition primaryKeyOfColumns :: "ColumnModel list \<Rightarrow> PrimaryKeyModel option" where
  "primaryKeyOfColumns cols =
     (case filter (\<lambda>c. ColumnKey c = ''PRI'') cols of
        [] \<Rightarrow> None
      | c # cs \<Rightarrow> Some \<lparr>PrimaryKeyModel.Name = ''PRIMARY'',
                        PrimaryKeyModel.Columns = map ColumnModel.Name (c # cs)\<rparr>)"

text \<open>
  The index of one name read off the statistics rows: its columns are those of the rows
  of that name, in row order; uniqueness and method are those of the first such row.
\<close>

definition indexOfRows :: "string \<Rightarrow> indexRow list \<Rightarrow> IndexModel option" where
  "indexOfRows name rows =
     (case filter (\<lambda>r. fst r = name) rows of
        [] \<Rightarrow> None
      | r # rs \<Rightarrow> Some \<lparr>IndexModel.Name = name,
                        IndexModel.Columns = map (\<lambda>r. fst (snd r)) (r # rs),
                        NonUnique = fst (snd (snd r)), IndexType = snd (snd (snd r))\<rparr>)"

text \<open>The primary key and an index entry as the two scanning loops extend them.\<close>

definition pkExtend :: "PrimaryKeyModel option \<Rightarrow> string list \<Rightarrow> PrimaryKeyModel option" where
  "pkExtend pk names =
     (case names of [] \<Rightarrow> pk
      | n # ns \<Rightarrow> (case pk of
           None \<Rightarrow> Some \<lparr>PrimaryKeyModel.Name = ''PRIMARY'', PrimaryKeyModel.Columns = n # ns\<rparr>
         | Some p \<Rightarrow> Some (p\<lparr>PrimaryKeyModel.Columns := PrimaryKeyModel.Columns p @ n # ns\<rparr>)))"

definition indexExtend :: "IndexModel option \<Rightarrow> string \<Rightarrow> indexRow list \<Rightarrow> IndexModel option" where
  "indexExtend old name rows =
     (case old of
        None \<Rightarrow> indexOfRows name rows
      | Some idx \<Rightarrow> Some (idx\<lparr>IndexModel.Columns := IndexModel.Columns idx
           @ map (\<lambda>r. fst (snd r)) (filter (\<lambda>r. fst r = name) rows)\<rparr>))"

text \<open>The index names of the statistics rows in catalog order: each at its first row.\<close>

definition catalogIndexNames :: "indexRow list \<Rightarrow> string list" where
  "catalogIndexNames rows = rev (remdups (rev (filter (\<lambda>n. n \<noteq> ''PRIMARY'') (map fst rows))))"

text \<open>Two columns agree in everything \<^verbatim>\<open>columnsAreDifferent\<close> looks at.\<close>

definition nullStringsAgree :: "NullString \<Rightarrow> NullString \<Rightarrow> bool" where
  "nullStringsAgree a b \<longleftrightarrow> Valid a = Valid b \<and> (Valid a \<longrightarrow> String a = String b)"

definition sameDefinition :: "ColumnModel \<Rightarrow> ColumnModel \<Rightarrow> bool" where
  "sameDefinition a b \<longleftrightarrow>
     DataType a = DataType b \<and> IsNullable a = IsNullable b \<and> Extra a = Extra b
     \<and> nullStringsAgree (DefaultValue a) (DefaultValue b)
     \<and> nullStringsAgree (OnUpdate a) (OnUpdate b)"

definition sameIndex :: "IndexModel \<Rightarrow> IndexModel \<Rightarrow> bool" where
  "sameIndex a b \<longleftrightarrow>
     IndexModel.Columns a = IndexModel.Columns b \<and> NonUnique a = NonUnique b
     \<and> IndexType a = IndexType b"

text \<open>
  Two snapshots agree up to the order of their columns and of their indexes: the same
  column names, each with the same definition on both sides; the same index names, each
  with the same columns, uniqueness and method; and primary keys absent on both sides or
  present on both with the same column sequence.  Key-role tags are not looked at.
\<close>

definition sameUpToOrder :: "TableModel \<Rightarrow> TableModel \<Rightarrow> bool" where
  "sameUpToOrder A B \<longleftrightarrow>
     set (map ColumnModel.Name (TableModel.Columns A))
       = set (map ColumnModel.Name (TableModel.Columns B))
     \<and> (\<forall>n \<in> set (map ColumnModel.Name (TableModel.Columns A)).
           sameDefinition (the (columnsByName (TableModel.Columns A) n))
                          (the (columnsByName (TableModel.Columns B) n)))
     \<and> set (map IndexModel.Name (Indexes A)) = set (map IndexModel.Name (Indexes B))
     \<and> (\<forall>n \<in> set (map IndexModel.Name (Indexes A)).
           sameIndex (the (indexesByName (Indexes A) n)) (the (indexesByName (Indexes B) n)))
     \<and> map_option PrimaryKeyModel.Columns (PrimaryKey A)
         = map_option PrimaryKeyModel.Columns (PrimaryKey B)"

text \<open>The orders of the four loops of the passes are possible orders of their maps.\<close>

definition possibleOrders :: "rangeOrders \<Rightarrow> TableModel \<Rightarrow> TableModel \<Rightarrow> bool" where
  "possibleOrders ro source target \<longleftrightarrow>
     rangeOrder (columnsByName (TableModel.Columns source)) (sourceColumns ro)
     \<and> rangeOrder (columnsByName (TableModel.Columns target)) (targetColumns ro)
     \<and> rangeOrder (indexesByName (Indexes source)) (sourceIndexes ro)
     \<and> rangeOrder (indexesByName (Indexes target)) (targetIndexes ro)"

subsection \<open>Example snapshots\<close>

text \<open>
  Two snapshots of a table \<^verbatim>\<open>t\<close> with the same three columns.  The target lists the
  columns \<^verbatim>\<open>a\<close> and \<^verbatim>\<open>id\<close> in the other order, and its index \<^verbatim>\<open>idx_ab\<close> and its
  primary key hold the columns of the source's in the other order.
\<close>

definition exColumn :: "string \<Rightarrow> string \<Rightarrow> string \<Rightarrow> string \<Rightarrow> ColumnModel" where
  "exColumn name dataType isNullable columnKey =
     \<lparr>ColumnModel.Name = name, DataType = dataType, IsNullable = isNullable,
      ColumnKey = columnKey, DefaultValue = \<lparr>String = [], Valid = False\<rparr>,
      Extra = [], OnUpdate = \<lparr>String = [], Valid = False\<rparr>\<rparr>"

definition exSource :: TableModel where
  "exSource =
     \<lparr>TableModel.Name = ''t'',
      TableModel.Columns = [exColumn ''id'' ''int'' ''NO'' ''PRI'',
                            exColumn ''a'' ''int'' ''NO'' ''PRI'',
                            exColumn ''b'' ''int'' ''YES'' []],
      Indexes = [\<lparr>IndexModel.Name = ''idx_ab'', IndexModel.Columns = [''a'', ''b''],
                  NonUnique = 1, IndexType = ''BTREE''\<rparr>],
      PrimaryKey = Some \<lparr>PrimaryKeyModel.Name = ''PRIMARY'',
                         PrimaryKeyModel.Columns = [''id'', ''a'']\<rparr>\<rparr>"

definition exTarget :: TableModel where
  "exTarget =
     \<lparr>TableModel.Name = ''t'',
      TableModel.Columns = [exColumn ''a'' ''int'' ''NO'' ''PRI'',
                            exColumn ''id'' ''int'' ''NO'' ''PRI'',
                            exColumn ''b'' ''int'' ''YES'' []],
      Indexes = [\<lparr>IndexModel.Name = ''idx_ab'', IndexModel.Columns = [''b'', ''a''],
                  NonUnique = 1, IndexType = ''BTREE''\<rparr>],
      PrimaryKey = Some \<lparr>PrimaryKeyModel.Name = ''PRIMARY'',
                         PrimaryKeyModel.Columns = [''a'', ''id'']\<rparr>\<rparr>"

text \<open>The source snapshot with its last two columns in the other order, nothing else changed.\<close>

definition exShuffled :: TableModel where
  "exShuffled =
     exSource\<lparr>TableModel.Columns := [exColumn ''id'' ''int'' ''NO'' ''PRI'',
                                       exColumn ''b'' ''int'' ''YES'' [],
                                       exColumn ''a'' ''int'' ''NO'' ''PRI'']\<rparr>"

definition exOrders :: rangeOrders where
  "exOrders =
     \<lparr>sourceIndexMap = [''idx_ab''], targetIndexMap = [''idx_ab''],
      sourceColumns = [''b'', ''id'', ''a''], targetColumns = [''a'', ''b'', ''id''],
      sourceIndexes = [''idx_ab''], targetIndexes = [''idx_ab'']\<rparr>"

subsection \<open>Example catalogs\<close>

text \<open>A database whose catalog has no row for the table asked for.\<close>

definition exEmptyCatalog :: sqlDB where
  "exEmptyCatalog =
     \<lparr>selectDatabase = Inr ''shop'',
      queryColumns = (\<lambda>dbName tableName. Inr ([], None)),
      queryStatistics = (\<lambda>dbName tableName. Inr ([], None))\<rparr>"

text \<open>
  A database with one table \<^verbatim>\<open>t\<close>: three columns, the primary key on \<^verbatim>\<open>id\<close>, and
  the indexes \<^verbatim>\<open>idx_a\<close> on \<^verbatim>\<open>a\<close> and \<^verbatim>\<open>idx_b\<close> on \<^verbatim>\<open>b, a\<close>.
\<close>

definition exColumnRows :: "columnRow list" where
  "exColumnRows =
     [(''id'', ''int'', ''NO'', ''PRI'', \<lparr>String = [], Valid = False\<rparr>, ''auto_increment''),
      (''a'', ''varchar(20)'', ''YES'', ''MUL'', \<lparr>String = [], Valid = False\<rparr>, []),
      (''b'', ''int'', ''NO'', ''MUL'', \<lparr>String = ''0'', Valid = True\<rparr>, [])]"

definition exIndexRows :: "indexRow list" where
  "exIndexRows =
     [(''idx_a'', ''a'', 1, ''BTREE''),
      (''idx_b'', ''b'', 1, ''BTREE''),
      (''idx_b'', ''a'', 1, ''BTREE''),
      (''PRIMARY'', ''id'', 0, ''BTREE'')]"

definition exCatalog :: sqlDB where
  "exCatalog =
     \<lparr>selectDatabase = Inr ''shop'',
      queryColumns = (\<lambda>dbName tableName.
         if dbName = ''shop'' \<and> tableName = ''t'' then Inr (map Inr exColumnRows, None)
         else Inr ([], None)),
      queryStatistics = (\<lambda>dbName tableName.
         if dbName = ''shop'' \<and> tableName = ''t'' then Inr (map Inr exIndexRows, None)
         else Inr ([], None))\<rparr>"

text \<open>The snapshot read from that catalog, but for the order of its index list.\<close>

definition exSnapshotColumns :: "ColumnModel list" where
  "exSnapshotColumns =
     [\<lparr>ColumnModel.Name = ''id'', DataType = ''int'', IsNullable = ''NO'', ColumnKey = ''PRI'',
       DefaultValue = \<lparr>String = [], Valid = False\<rparr>, Extra = ''auto_increment'',
       OnUpdate = \<lparr>String = [], Valid = False\<rparr>\<rparr>,
      \<lparr>ColumnModel.Name = ''a'', DataType = ''varchar(20)'', IsNullable = ''YES'',
       ColumnKey = ''MUL'', DefaultValue = \<lparr>String = [], Valid = False\<rparr>, Extra = [],
       OnUpdate = \<lparr>String = [], Valid = False\<rparr>\<rparr>,
      \<lparr>ColumnModel.Name = ''b'', DataType = ''int'', IsNullable = ''NO'', ColumnKey = ''MUL'',
       DefaultValue = \<lparr>String = ''0'', Valid = True\<rparr>, Extra = [],
       OnUpdate = \<lparr>String = [], Valid = False\<rparr>\<rparr>]"

definition exSnapshot :: "IndexModel list \<Rightarrow> TableModel" where
  "exSnapshot idxs =
     \<lparr>TableModel.Name = ''t'', TableModel.Columns = exSnapshotColumns, Indexes = idxs,
      PrimaryKey = Some \<lparr>PrimaryKeyModel.Name = ''PRIMARY'',
                         PrimaryKeyModel.Columns = [''id'']\<rparr>\<rparr>"

definition exIdxA :: IndexModel where
  "exIdxA = \<lparr>IndexModel.Name = ''idx_a'', IndexModel.Columns = [''a''],
             NonUnique = 1, IndexType = ''BTREE''\<rparr>"

definition exIdxB :: IndexModel where
  "exIdxB = \<lparr>IndexModel.Name = ''idx_b'', IndexModel.Columns = [''b'', ''a''],
             NonUnique = 1, IndexType = ''BTREE''\<rparr>"

text \<open>Loop orders for the example snapshot with the index \<^verbatim>\<open>idx_a\<close> against the one with no index.\<close>

definition exIndexOrders :: rangeOrders where
  "exIndexOrders =
     \<lparr>sourceIndexMap = [''idx_a''], targetIndexMap = [],
      sourceColumns = [''id'', ''a'', ''b''], targetColumns = [''id'', ''a'', ''b''],
      sourceIndexes = [''idx_a''], targetIndexes = []\<rparr>"

section \<open>Data synchronisation: \<^verbatim>\<open>internal/service\<close>\<close>

subsection \<open>IEEE doubles, as far as the service computes with them\<close>

text \<open>
  The service computes the page count and the retry delay in \<^verbatim>\<open>float64\<close>.  A double is
  given here by the rational it stands for, and \<open>float64 x\<close> is the double nearest to
  \<open>x\<close>, ties to the even significand (53 bits).  The exponent is searched between
  \<open>-64\<close> and \<open>64\<close>: the model is exact for \<open>0\<close> and for magnitudes from \<open>2 powi -64\<close>
  up to below \<open>2 powi 65\<close>, which covers every quotient of a row count by a batch size
  (both below \<open>2 ^ 63\<close>) and every retry delay; no overflow or subnormal arises there.
\<close>

definition roundHalfEven :: "rat \<Rightarrow> int" where
  "roundHalfEven x =
     (let f = \<lfloor>x\<rfloor>; r = x - of_int f
      in if r < 1 / 2 then f else if 1 / 2 < r then f + 1
         else if even f then f else f + 1)"

function exponentFrom :: "rat \<Rightarrow> int \<Rightarrow> int" where
  "exponentFrom x e = (if e \<le> - 64 \<or> 2 powi e \<le> x then e else exponentFrom x (e - 1))"
  by pat_completeness auto
termination
  by (relation "measure (\<lambda>(x, e). nat (e + 64))") auto

declare exponentFrom.simps [simp del]

text \<open>The unit in the last place of the doubles of the binade of \<open>x\<close>.\<close>

definition ulpOf :: "rat \<Rightarrow> rat" where
  "ulpOf x = 2 powi (exponentFrom \<bar>x\<bar> 64 - 52)"

definition float64 :: "rat \<Rightarrow> rat" where
  "float64 x =
     (if x = 0 then 0
      else sgn x * of_int (roundHalfEven (\<bar>x\<bar> / ulpOf x)) * ulpOf x)"

text \<open>
  The conversion \<^verbatim>\<open>int(x)\<close> of a double to the 64-bit \<^verbatim>\<open>int\<close> (and to
  \<^verbatim>\<open>time.Duration\<close>): the fraction is dropped.  For a value outside the range of the type
  the language leaves the result to the implementation; on amd64 it is \<open>- 2\<^sup>6\<^sup>3\<close>.
\<close>

definition truncateToInt :: "rat \<Rightarrow> int" where
  "truncateToInt x =
     (let n = (if 0 \<le> x then \<lfloor>x\<rfloor> else \<lceil>x\<rceil>)
      in if - (2 ^ 63) \<le> n \<and> n < 2 ^ 63 then n else - (2 ^ 63))"

text \<open>\<^verbatim>\<open>math.Ceil\<close>; the ceiling of a double is a double.\<close>

definition mathCeil :: "rat \<Rightarrow> rat" where
  "mathCeil x = of_int \<lceil>x\<rceil>"

text \<open>\<^verbatim>\<open>math.Pow(2, y)\<close> at a whole \<open>y\<close>: the power of two itself, a double.\<close>

definition mathPow2 :: "rat \<Rightarrow> rat" where
  "mathPow2 y = 2 powi \<lfloor>y\<rfloor>"

text \<open>
  \<^verbatim>\<open>int(math.Ceil(float64(totalCount) / float64(batchSize)))\<close> of \<^verbatim>\<open>syncTable\<close>.  The batch
  size is positive (the configuration is refused otherwise).
\<close>

definition totalPagesOf :: "int \<Rightarrow> int \<Rightarrow> int" where
  "totalPagesOf totalCount batchSize =
     truncateToInt (mathCeil (float64 (float64 (of_int totalCount) / float64 (of_int batchSize))))"

text \<open>The retry policy of \<^verbatim>\<open>syncBatchData\<close>; durations are in nanoseconds.\<close>

definition retryCount :: int where
  "retryCount = 3"

definition baseDelay :: int where
  "baseDelay = 100 * 1000000"

definition maxRetryDelay :: int where
  "maxRetryDelay = 2 * 1000000000"

definition retryDelay :: "int \<Rightarrow> int" where
  "retryDelay attempt =
     (let delay = truncateToInt
                    (float64 (float64 (of_int baseDelay) * mathPow2 (float64 (of_int attempt))))
      in if delay > maxRetryDelay then maxRetryDelay else delay)"

subsection \<open>Configuration and tasks\<close>

text \<open>A \<^verbatim>\<open>time.Time\<close> is an instant; the zero value of the type is \<open>0\<close>.\<close>

type_synonym Time = int

record TablePair =
  Source :: string
  Target :: string
  CheckMethod :: string
  UpdateField :: string

record SyncConfig =
  BatchSize :: int
  Interval :: int
  SyncMode :: string
  TablePairs :: "TablePair list"

record SyncTask =
  SourceTable :: string
  TargetTable :: string
  LastSyncTime :: int
  BatchSize :: int
  Status :: string
  Error :: "error option"

record ColumnDetail =
  ColumnName :: string
  ColumnType :: string
  IsNullable :: string
  ColumnDefault :: NullString
  Extra :: string
  ColumnComment :: string

text \<open>The service: its configuration and its observers, in registration order.\<close>

record SyncService =
  config :: SyncConfig
  observers :: "string list"

subsection \<open>The world the service acts on\<close>

text \<open>
  Everything the service does to its surroundings is an action: a statement sent to one
  of the two databases, a sleep, a reading of the clock, a call of an observer, the
  progress line of a page.  (The other log lines are left out.)  Statements built with
  the query builder are given by their parts; raw statements whose text the service
  composes are given by that text.  A record to write is a value of type \<open>'r\<close>: the
  statement \<^verbatim>\<open>INSERT INTO t (...) VALUES (...) ON DUPLICATE KEY UPDATE ...\<close> lists the
  columns of the record in the order of a map loop and means the same in every order.
\<close>

datatype dbside = sourceDB | targetDB

datatype 'r statement =
  SelectColumnNames string
| SelectColumnDetails string
| SelectPrimaryKey string
| CountRows string
| FindPage string int int
| FindPageAfter string string Time int int
| SelectLastUpdate string string
| ChecksumTable string
| Exec string
| Upsert string 'r
| BeginTx
| CommitTx
| RollbackTx

datatype 'r action =
  Query dbside "'r statement"
| Sleep int
| UnixNano
| OnSyncStart string
| OnSyncComplete string
| OnSyncError string error
| LogPageSynced string int int

text \<open>
  What the world answers.  A statement fails, or is done with a number of rows affected,
  or yields what was selected.  An answer of another shape than the service scans for
  fails to scan.
\<close>

datatype 'r reply =
  Failed error
| Done int
| Names "string list"
| Details "ColumnDetail list"
| Text string
| Number int
| Rows "'r list"
| Instant Time

text \<open>
  The world is a state \<open>'w\<close> and a function that answers an action in a state and gives
  the next state.  A run carries the state of the world and the trace of the actions
  performed so far, each with its answer.
\<close>

type_synonym ('w, 'r) world = "'r action \<Rightarrow> 'w \<Rightarrow> 'r reply \<times> 'w"

record ('w, 'r) run =
  state :: 'w
  trace :: "('r action \<times> 'r reply) list"

definition perform :: "('w, 'r) world \<Rightarrow> 'r action \<Rightarrow> ('w, 'r) run \<Rightarrow> 'r reply \<times> ('w, 'r) run" where
  "perform world a s =
     (case world a (state s) of
        (r, w) \<Rightarrow> (r, \<lparr>state = w, trace = trace s @ [(a, r)]\<rparr>))"

definition scanError :: error where
  "scanError = Err ''sql: Scan error''"

fun asNames :: "'r reply \<Rightarrow> error + string list" where
  "asNames (Failed e) = Inl e"
| "asNames (Names ns) = Inr ns"
| "asNames _ = Inl scanError"

fun asDetails :: "'r reply \<Rightarrow> error + ColumnDetail list" where
  "asDetails (Failed e) = Inl e"
| "asDetails (Details ds) = Inr ds"
| "asDetails _ = Inl scanError"

fun asText :: "'r reply \<Rightarrow> error + string" where
  "asText (Failed e) = Inl e"
| "asText (Text t) = Inr t"
| "asText _ = Inl scanError"

fun asNumber :: "'r reply \<Rightarrow> error + int" where
  "asNumber (Failed e) = Inl e"
| "asNumber (Number n) = Inr n"
| "asNumber _ = Inl scanError"

fun asRows :: "'r reply \<Rightarrow> error + 'r list" where
  "asRows (Failed e) = Inl e"
| "asRows (Rows rs) = Inr rs"
| "asRows _ = Inl scanError"

fun asInstant :: "'r reply \<Rightarrow> error + Time" where
  "asInstant (Failed e) = Inl e"
| "asInstant (Instant t) = Inr t"
| "asInstant _ = Inl scanError"

text \<open>The outcome of a statement that is only executed: its error, if any.\<close>

fun asExec :: "'r reply \<Rightarrow> error option" where
  "asExec (Failed e) = Some e"
| "asExec _ = None"

subsection \<open>Observers\<close>

fun notifyEach :: "('w, 'r) world \<Rightarrow> (string \<Rightarrow> 'r action) \<Rightarrow> string list \<Rightarrow> ('w, 'r) run \<Rightarrow> ('w, 'r) run" where
  "notifyEach world call [] s = s"
| "notifyEach world call (observer # rest) s =
     notifyEach world call rest (snd (perform world (call observer) s))"

definition notifyStart :: "('w, 'r) world \<Rightarrow> SyncService \<Rightarrow> SyncTask \<Rightarrow> ('w, 'r) run \<Rightarrow> ('w, 'r) run" where
  "notifyStart world svc task s = notifyEach world OnSyncStart (observers svc) s"

definition notifyComplete :: "('w, 'r) world \<Rightarrow> SyncService \<Rightarrow> SyncTask \<Rightarrow> ('w, 'r) run \<Rightarrow> ('w, 'r) run" where
  "notifyComplete world svc task s = notifyEach world OnSyncComplete (observers svc) s"

definition notifyError ::
  "('w, 'r) world \<Rightarrow> SyncService \<Rightarrow> SyncTask \<Rightarrow> error \<Rightarrow> ('w, 'r) run \<Rightarrow> SyncTask \<times> ('w, 'r) run" where
  "notifyError world svc task err s =
     (task\<lparr>Error := Some err, SyncTask.Status := ''error''\<rparr>,
      notifyEach world (\<lambda>observer. OnSyncError observer err) (observers svc) s)"

subsection \<open>Catalog reads of the service\<close>

definition getAllColumns ::
  "('w, 'r) world \<Rightarrow> dbside \<Rightarrow> string \<Rightarrow> ('w, 'r) run \<Rightarrow> (error + string list) \<times> ('w, 'r) run" where
  "getAllColumns world db tableName s =
     (case perform world (Query db (SelectColumnNames tableName)) s of
        (r, s1) \<Rightarrow>
          (case asNames r of
             Inl err \<Rightarrow> (Inl (Wrap ''failed to get the column list'' err), s1)
           | Inr columns \<Rightarrow>
               if length columns = 0
               then (Inl (Err (''table '' @ tableName @ '' has no columns'')), s1)
               else (Inr columns, s1)))"

definition getColumnDetails ::
  "('w, 'r) world \<Rightarrow> dbside \<Rightarrow> string \<Rightarrow> ('w, 'r) run \<Rightarrow> (error + ColumnDetail list) \<times> ('w, 'r) run" where
  "getColumnDetails world db tableName s =
     (case perform world (Query db (SelectColumnDetails tableName)) s of
        (r, s1) \<Rightarrow> (asDetails r, s1))"

definition getPrimaryKey ::
  "('w, 'r) world \<Rightarrow> dbside \<Rightarrow> string \<Rightarrow> ('w, 'r) run \<Rightarrow> (error + string) \<times> ('w, 'r) run" where
  "getPrimaryKey world db tableName s =
     (case perform world (Query db (SelectPrimaryKey tableName)) s of
        (r, s1) \<Rightarrow>
          (case asText r of
             Inl err \<Rightarrow> (Inl err, s1)
           | Inr primaryKey \<Rightarrow>
               if primaryKey = [] then (Inr ''id'', s1) else (Inr primaryKey, s1)))"

definition getTableConfig :: "SyncService \<Rightarrow> string \<Rightarrow> TablePair" where
  "getTableConfig svc sourceTable =
     (case find (\<lambda>pair. Source pair = sourceTable) (TablePairs (config svc)) of
        Some pair \<Rightarrow> pair
      | None \<Rightarrow> \<lparr>Source = sourceTable, Target = sourceTable,
                  CheckMethod = ''checksum'', UpdateField = []\<rparr>)"

subsection \<open>Schema repair\<close>

text \<open>\<^verbatim>\<open>strings.ReplaceAll(s, "'", "\\'")\<close>.\<close>

definition escapeQuotes :: "string \<Rightarrow> string" where
  "escapeQuotes s = concat (map (\<lambda>c. if c = CHR 0x27 then [CHR 0x5C, CHR 0x27] else [c]) s)"

definition addColumnStatement :: "string \<Rightarrow> ColumnDetail \<Rightarrow> string" where
  "addColumnStatement targetTable col =
     ''ALTER TABLE '' @ bquote targetTable @ '' ADD COLUMN '' @ bquote (ColumnName col)
       @ '' '' @ ColumnType col
     @ (if ColumnDetail.IsNullable col = ''NO'' then '' NOT NULL'' else '' NULL'')
     @ (if Valid (ColumnDefault col)
        then '' DEFAULT '' @ squote (String (ColumnDefault col)) else [])
     @ (if ColumnComment col \<noteq> []
        then '' COMMENT '' @ squote (escapeQuotes (ColumnComment col)) else [])"

text \<open>The loop of \<^verbatim>\<open>syncTableSchema\<close> over the source's columns.\<close>

fun addMissingColumns ::
  "('w, 'r) world \<Rightarrow> SyncTask \<Rightarrow> string list \<Rightarrow> ColumnDetail list \<Rightarrow> ('w, 'r) run
     \<Rightarrow> error option \<times> ('w, 'r) run" where
  "addMissingColumns world task targetColNames [] s = (None, s)"
| "addMissingColumns world task targetColNames (col # rest) s =
     (if ColumnName col \<notin> set targetColNames
      then (case perform world
                   (Query targetDB (Exec (addColumnStatement (TargetTable task) col))) s of
              (r, s1) \<Rightarrow>
                (case asExec r of
                   Some err \<Rightarrow> (Some err, s1)
                 | None \<Rightarrow> addMissingColumns world task targetColNames rest s1))
      else addMissingColumns world task targetColNames rest s)"

definition syncTableSchema ::
  "('w, 'r) world \<Rightarrow> SyncTask \<Rightarrow> ('w, 'r) run \<Rightarrow> error option \<times> ('w, 'r) run" where
  "syncTableSchema world task s =
     (case getColumnDetails world sourceDB (SourceTable task) s of
        (Inl err, s1) \<Rightarrow> (Some (Wrap ''failed to get the source table structure'' err), s1)
      | (Inr sourceCols, s1) \<Rightarrow>
          (case getAllColumns world targetDB (TargetTable task) s1 of
             (Inl err, s2) \<Rightarrow> (Some (Wrap ''failed to get the target table structure'' err), s2)
           | (Inr targetColNames, s2) \<Rightarrow>
               addMissingColumns world task targetColNames sourceCols s2))"

subsection \<open>Change detection\<close>

definition checkByChecksum ::
  "('w, 'r) world \<Rightarrow> string \<Rightarrow> string \<Rightarrow> ('w, 'r) run \<Rightarrow> (bool \<times> error option) \<times> ('w, 'r) run" where
  "checkByChecksum world sourceTable targetTable s =
     (case perform world (Query sourceDB (ChecksumTable sourceTable)) s of
        (r1, s1) \<Rightarrow>
          (case asNumber r1 of
             Inl err \<Rightarrow> ((True, Some (Wrap ''failed to get the source table checksum'' err)), s1)
           | Inr sourceChecksum \<Rightarrow>
               (case perform world (Query targetDB (ChecksumTable targetTable)) s1 of
                  (r2, s2) \<Rightarrow>
                    (case asNumber r2 of
                       Inl err \<Rightarrow>
                         ((True, Some (Wrap ''failed to get the target table checksum'' err)), s2)
                     | Inr targetChecksum \<Rightarrow>
                         if sourceChecksum \<noteq> targetChecksum then ((True, None), s2)
                         else ((False, None), s2)))))"

definition checkByCount ::
  "('w, 'r) world \<Rightarrow> string \<Rightarrow> string \<Rightarrow> ('w, 'r) run \<Rightarrow> (bool \<times> error option) \<times> ('w, 'r) run" where
  "checkByCount world sourceTable targetTable s =
     (case perform world (Query sourceDB (CountRows sourceTable)) s of
        (r1, s1) \<Rightarrow>
          (case asNumber r1 of
             Inl err \<Rightarrow> ((True, Some (Wrap ''failed to get the source row count'' err)), s1)
           | Inr sourceCount \<Rightarrow>
               (case perform world (Query targetDB (CountRows targetTable)) s1 of
                  (r2, s2) \<Rightarrow>
                    (case asNumber r2 of
                       Inl err \<Rightarrow>
                         ((True, Some (Wrap ''failed to get the target row count'' err)), s2)
                     | Inr targetCount \<Rightarrow>
                         if sourceCount \<noteq> targetCount then ((True, None), s2)
                         else ((False, None), s2)))))"

definition checkByUpdateTime ::
  "('w, 'r) world \<Rightarrow> string \<Rightarrow> string \<Rightarrow> string \<Rightarrow> ('w, 'r) run
     \<Rightarrow> (bool \<times> error option) \<times> ('w, 'r) run" where
  "checkByUpdateTime world sourceTable targetTable updateField s =
     (case getAllColumns world sourceDB sourceTable s of
        (Inl err, s1) \<Rightarrow> ((True, Some err), s1)
      | (Inr columns, s1) \<Rightarrow>
          (let hasUpdateField = list_ex (\<lambda>col. col = updateField) columns in
           if \<not> hasUpdateField then checkByChecksum world sourceTable targetTable s1
           else
             (case perform world (Query sourceDB (SelectLastUpdate sourceTable updateField)) s1 of
                (r2, s2) \<Rightarrow>
                  (case asInstant r2 of
                     Inl err \<Rightarrow> ((True, Some err), s2)
                   | Inr sourceLastUpdate \<Rightarrow>
                       (case perform world
                               (Query targetDB (SelectLastUpdate targetTable updateField)) s2 of
                          (r3, s3) \<Rightarrow>
                            (case asInstant r3 of
                               Inl err \<Rightarrow> ((True, Some err), s3)
                             | Inr targetLastUpdate \<Rightarrow>
                                 ((sourceLastUpdate \<noteq> targetLastUpdate, None), s3)))))))"

definition needSync ::
  "('w, 'r) world \<Rightarrow> SyncService \<Rightarrow> SyncTask \<Rightarrow> string list \<Rightarrow> ('w, 'r) run
     \<Rightarrow> (bool \<times> error option) \<times> ('w, 'r) run" where
  "needSync world svc task columns s =
     (let tablePair = getTableConfig svc (SourceTable task) in
      if CheckMethod tablePair = ''update_time'' then
        (if UpdateField tablePair = []
         then checkByChecksum world (SourceTable task) (TargetTable task) s
         else checkByUpdateTime world (SourceTable task) (TargetTable task)
                (UpdateField tablePair) s)
      else if CheckMethod tablePair = ''count'' then
        checkByCount world (SourceTable task) (TargetTable task) s
      else checkByChecksum world (SourceTable task) (TargetTable task) s)"

subsection \<open>Writing a page\<close>

text \<open>
  \<^verbatim>\<open>gorm\<close>'s \<^verbatim>\<open>Transaction\<close> on the target database: begin; run the function; commit when
  it returns no error; roll back when it returns one.  The error of the begin, of the
  function or of the commit is returned.  After a commit that failed the deferred
  \<^verbatim>\<open>Rollback\<close> finds the transaction done and sends no statement.
\<close>

definition transaction ::
  "('w, 'r) world \<Rightarrow> (('w, 'r) run \<Rightarrow> error option \<times> ('w, 'r) run) \<Rightarrow> ('w, 'r) run
     \<Rightarrow> error option \<times> ('w, 'r) run" where
  "transaction world fc s =
     (case perform world (Query targetDB BeginTx) s of
        (r0, s0) \<Rightarrow>
          (case asExec r0 of
             Some err \<Rightarrow> (Some err, s0)
           | None \<Rightarrow>
               (case fc s0 of
                  (Some err, s1) \<Rightarrow>
                    (Some err, snd (perform world (Query targetDB RollbackTx) s1))
                | (None, s1) \<Rightarrow>
                    (case perform world (Query targetDB CommitTx) s1 of
                       (r2, s2) \<Rightarrow>
                         (case asExec r2 of
                            Some err \<Rightarrow> (Some err, s2)
                          | None \<Rightarrow> (None, s2))))))"

definition syncSingleRecord ::
  "('w, 'r) world \<Rightarrow> string \<Rightarrow> 'r \<Rightarrow> ('w, 'r) run \<Rightarrow> error option \<times> ('w, 'r) run" where
  "syncSingleRecord world table record s =
     (case perform world (Query targetDB (Upsert table record)) s of
        (r, s1) \<Rightarrow>
          (case asExec r of
             Some err \<Rightarrow> (Some (Wrap ''failed to update the record'' err), s1)
           | None \<Rightarrow> (None, s1)))"

text \<open>
  The inner loop of \<^verbatim>\<open>syncBatchData\<close>, one attempt over the records.  It returns the
  value of \<^verbatim>\<open>lastErr\<close> after the loop: at the first record that fails the error is
  stored, the delay is slept and the loop is left; a record that succeeds leaves
  \<^verbatim>\<open>lastErr\<close> as it was.
\<close>

fun attemptRecords ::
  "('w, 'r) world \<Rightarrow> string \<Rightarrow> 'r list \<Rightarrow> int \<Rightarrow> error option \<Rightarrow> ('w, 'r) run
     \<Rightarrow> error option \<times> ('w, 'r) run" where
  "attemptRecords world table [] attempt lastErr s = (lastErr, s)"
| "attemptRecords world table (record # rest) attempt lastErr s =
     (case syncSingleRecord world table record s of
        (Some err, s1) \<Rightarrow> (Some err, snd (perform world (Sleep (retryDelay attempt)) s1))
      | (None, s1) \<Rightarrow> attemptRecords world table rest attempt lastErr s1)"

text \<open>
  The outer loop \<^verbatim>\<open>for attempt := 0; attempt < retryCount; attempt++\<close>, with
  \<^verbatim>\<open>lastErr\<close> declared before it, and the error returned after it.
\<close>

function retryAttempts ::
  "('w, 'r) world \<Rightarrow> string \<Rightarrow> 'r list \<Rightarrow> int \<Rightarrow> error option \<Rightarrow> ('w, 'r) run
     \<Rightarrow> error option \<times> ('w, 'r) run" where
  "retryAttempts world table records attempt lastErr s =
     (if attempt < retryCount then
        (case attemptRecords world table records attempt lastErr s of
           (lastErr1, s1) \<Rightarrow>
             if lastErr1 = None then (None, s1)
             else retryAttempts world table records (attempt + 1) lastErr1 s1)
      else
        (case lastErr of
           Some err \<Rightarrow> (Some (Wrap ''batch sync failed after 3 retries'' err), s)
         | None \<Rightarrow> (Some (Err ''batch sync failed after 3 retries''), s)))"
  by pat_completeness auto
termination
  by (relation "measure (\<lambda>(world, table, records, attempt, lastErr, s). nat (retryCount - attempt))")
    auto

declare retryAttempts.simps [simp del]

definition syncBatchData ::
  "('w, 'r) world \<Rightarrow> string \<Rightarrow> 'r list \<Rightarrow> ('w, 'r) run \<Rightarrow> error option \<times> ('w, 'r) run" where
  "syncBatchData world table records s =
     transaction world
       (\<lambda>tx. let tx1 = snd (perform world (Query targetDB (Exec ''SET FOREIGN_KEY_CHECKS = 0'')) tx)
             in if length records = 0 then (None, tx1)
                else retryAttempts world table records 0 None tx1) s"

subsection \<open>The page loop\<close>

text \<open>The part of the loop body that fills \<^verbatim>\<open>sourceRecords\<close>.\<close>

definition readPage ::
  "('w, 'r) world \<Rightarrow> SyncService \<Rightarrow> SyncTask \<Rightarrow> int \<Rightarrow> int \<Rightarrow> ('w, 'r) run
     \<Rightarrow> (error + 'r list) \<times> ('w, 'r) run" where
  "readPage world svc task offset batchSize s =
     (if SyncMode (config svc) = ''full'' then
        (case perform world (Query sourceDB (FindPage (SourceTable task) offset batchSize)) s of
           (r, s1) \<Rightarrow> (asRows r, s1))
      else
        (let tablePair = getTableConfig svc (SourceTable task) in
         if CheckMethod tablePair = ''update_time'' \<and> UpdateField tablePair \<noteq> [] then
           (case perform world
                   (Query targetDB (SelectLastUpdate (TargetTable task) (UpdateField tablePair))) s of
              (r1, s1) \<Rightarrow>
                (case asInstant r1 of
                   Inl err \<Rightarrow> (Inl err, s1)
                 | Inr lastTargetUpdate \<Rightarrow>
                     (case perform world
                             (Query sourceDB
                                (FindPageAfter (SourceTable task) (UpdateField tablePair)
                                   lastTargetUpdate offset batchSize)) s1 of
                        (r2, s2) \<Rightarrow> (asRows r2, s2))))
         else (Inr [], s)))"

text \<open>One turn of the loop \<^verbatim>\<open>for page := 0; page < totalPages; page++\<close>.\<close>

definition syncPage ::
  "('w, 'r) world \<Rightarrow> SyncService \<Rightarrow> SyncTask \<Rightarrow> int \<Rightarrow> int \<Rightarrow> int \<Rightarrow> ('w, 'r) run
     \<Rightarrow> error option \<times> ('w, 'r) run" where
  "syncPage world svc task batchSize totalPages page s =
     (let offset = page * batchSize in
      case readPage world svc task offset batchSize s of
        (Inl err, s1) \<Rightarrow> (Some err, s1)
      | (Inr sourceRecords, s1) \<Rightarrow>
          (case syncBatchData world (TargetTable task) sourceRecords s1 of
             (Some err, s2) \<Rightarrow> (Some err, s2)
           | (None, s2) \<Rightarrow>
               (None, snd (perform world
                             (LogPageSynced (SourceTable task) (page + 1) totalPages) s2))))"

function syncPages ::
  "('w, 'r) world \<Rightarrow> SyncService \<Rightarrow> SyncTask \<Rightarrow> int \<Rightarrow> int \<Rightarrow> int \<Rightarrow> ('w, 'r) run
     \<Rightarrow> error option \<times> ('w, 'r) run" where
  "syncPages world svc task batchSize totalPages page s =
     (if page < totalPages then
        (case syncPage world svc task batchSize totalPages page s of
           (Some err, s1) \<Rightarrow> (Some err, s1)
         | (None, s1) \<Rightarrow> syncPages world svc task batchSize totalPages (page + 1) s1)
      else (None, s))"
  by pat_completeness auto
termination
  by (relation "measure (\<lambda>(world, svc, task, batchSize, totalPages, page, s).
                           nat (totalPages - page))") auto

declare syncPages.simps [simp del]

subsection \<open>Drift cleanup\<close>

text \<open>\<^verbatim>\<open>%d\<close> of \<^verbatim>\<open>fmt.Sprintf\<close>.\<close>

function showDigits :: "int \<Rightarrow> string" where
  "showDigits n =
     (if n < 10 then [char_of (48 + n)]
      else showDigits (n div 10) @ [char_of (48 + n mod 10)])"
  by pat_completeness auto
termination
  by (relation "measure nat") auto

declare showDigits.simps [simp del]

definition showInt :: "int \<Rightarrow> string" where
  "showInt i = (if i < 0 then ''-'' @ showDigits (- i) else showDigits i)"

text \<open>
  The function run inside the transaction of \<^verbatim>\<open>cleanupTargetTable\<close>, in two parts:
  the statements that use the temporary table, and what comes before them.
\<close>

definition cleanupWithTemp ::
  "('w, 'r) world \<Rightarrow> string \<Rightarrow> string \<Rightarrow> string \<Rightarrow> string \<Rightarrow> ('w, 'r) run
     \<Rightarrow> error option \<times> ('w, 'r) run" where
  "cleanupWithTemp world sourceTable targetTable primaryKey tempTable tx =
     (let createTempTableSQL =
            ''CREATE TEMPORARY TABLE '' @ bquote tempTable @ '' LIKE '' @ bquote targetTable;
          copyDataSQL =
            ''INSERT INTO '' @ bquote tempTable @ '' SELECT * FROM '' @ bquote sourceTable;
          joinCondition = ''t1.'' @ bquote primaryKey @ '' = t2.'' @ bquote primaryKey;
          deleteSQL =
            ''DELETE t1 FROM '' @ bquote targetTable @ '' t1 LEFT JOIN '' @ bquote tempTable
            @ '' t2 ON '' @ joinCondition @ '' WHERE t2.'' @ bquote primaryKey @ '' IS NULL'';
          dropTempTableSQL = ''DROP TEMPORARY TABLE IF EXISTS '' @ bquote tempTable
      in case perform world (Query targetDB (Exec createTempTableSQL)) tx of
           (r1, tx1) \<Rightarrow>
             (case asExec r1 of
                Some err \<Rightarrow> (Some (Wrap ''failed to create the temporary table'' err), tx1)
              | None \<Rightarrow>
                  (case perform world (Query targetDB (Exec copyDataSQL)) tx1 of
                     (r2, tx2) \<Rightarrow>
                       (case asExec r2 of
                          Some err \<Rightarrow>
                            (Some (Wrap ''failed to copy the data to the temporary table'' err), tx2)
                        | None \<Rightarrow>
                            (case perform world (Query targetDB (Exec deleteSQL)) tx2 of
                               (r3, tx3) \<Rightarrow>
                                 (case asExec r3 of
                                    Some err \<Rightarrow>
                                      (Some (Wrap ''failed to clean the target table'' err), tx3)
                                  | None \<Rightarrow>
                                      (None, snd (perform world
                                         (Query targetDB (Exec dropTempTableSQL)) tx3))))))))"

definition cleanupInTx ::
  "('w, 'r) world \<Rightarrow> string \<Rightarrow> string \<Rightarrow> string \<Rightarrow> ('w, 'r) run \<Rightarrow> error option \<times> ('w, 'r) run" where
  "cleanupInTx world sourceTable targetTable primaryKey tx =
     (let tx1 = snd (perform world (Query targetDB (Exec ''SET FOREIGN_KEY_CHECKS = 0'')) tx) in
      case perform world (Query targetDB (CountRows targetTable)) tx1 of
        (r2, tx2) \<Rightarrow>
          (case asNumber r2 of
             Inl err \<Rightarrow> (Some (Wrap ''failed to check the target row count'' err), tx2)
           | Inr targetCount \<Rightarrow>
               if targetCount = 0 then (None, tx2)
               else
                 (case perform world UnixNano tx2 of
                    (r3, tx3) \<Rightarrow>
                      (let nanos = (case r3 of Number n \<Rightarrow> n | _ \<Rightarrow> 0);
                           tempTable = ''temp_'' @ targetTable @ ''_'' @ showInt nanos
                       in cleanupWithTemp world sourceTable targetTable primaryKey tempTable tx3))))"

definition cleanupTargetTable ::
  "('w, 'r) world \<Rightarrow> string \<Rightarrow> string \<Rightarrow> string list \<Rightarrow> ('w, 'r) run
     \<Rightarrow> error option \<times> ('w, 'r) run" where
  "cleanupTargetTable world sourceTable targetTable columns s =
     (case getPrimaryKey world targetDB targetTable s of
        (Inl err, s1) \<Rightarrow> (Some (Wrap ''failed to get the primary key'' err), s1)
      | (Inr primaryKey, s1) \<Rightarrow>
          transaction world (cleanupInTx world sourceTable targetTable primaryKey) s1)"

subsection \<open>\<^verbatim>\<open>syncTable\<close>\<close>

text \<open>The end of \<^verbatim>\<open>syncTable\<close> when nothing failed.\<close>

definition complete ::
  "('w, 'r) world \<Rightarrow> SyncService \<Rightarrow> SyncTask \<Rightarrow> ('w, 'r) run \<Rightarrow> SyncTask \<times> ('w, 'r) run" where
  "complete world svc task s =
     (let task1 = task\<lparr>SyncTask.Status := ''completed''\<rparr>
      in (task1, notifyComplete world svc task1 s))"

text \<open>
  \<^verbatim>\<open>syncTable\<close> from the count of the source rows on: the page loop, the cleanup, the
  status.  It is the part that runs when the change detector asked for a pass.
\<close>

definition replicate ::
  "('w, 'r) world \<Rightarrow> SyncService \<Rightarrow> SyncTask \<Rightarrow> string list \<Rightarrow> ('w, 'r) run
     \<Rightarrow> SyncTask \<times> ('w, 'r) run" where
  "replicate world svc task columns s =
     (case perform world (Query sourceDB (CountRows (SourceTable task))) s of
        (r, s1) \<Rightarrow>
      (case asNumber r of
        Inl err \<Rightarrow> notifyError world svc task err s1
      | Inr totalCount \<Rightarrow>
      (let batchSize = SyncTask.BatchSize task;
           totalPages = totalPagesOf totalCount batchSize
       in
      case syncPages world svc task batchSize totalPages 0 s1 of
        (Some err, s2) \<Rightarrow> notifyError world svc task err s2
      | (None, s2) \<Rightarrow>
      (case cleanupTargetTable world (SourceTable task) (TargetTable task) columns s2 of
        (Some err, s3) \<Rightarrow>
          notifyError world svc task (Wrap ''failed to clean the target table'' err) s3
      | (None, s3) \<Rightarrow> complete world svc task s3))))"

definition syncTable ::
  "('w, 'r) world \<Rightarrow> SyncService \<Rightarrow> SyncTask \<Rightarrow> ('w, 'r) run \<Rightarrow> SyncTask \<times> ('w, 'r) run" where
  "syncTable world svc task s =
     (let s0 = notifyStart world svc task s in
      case syncTableSchema world task s0 of
        (Some err, s1) \<Rightarrow>
          notifyError world svc task (Wrap ''failed to sync the table structure'' err) s1
      | (None, s1) \<Rightarrow>
      (case getAllColumns world sourceDB (SourceTable task) s1 of
        (Inl err, s2) \<Rightarrow> notifyError world svc task err s2
      | (Inr columns, s2) \<Rightarrow>
      (case needSync world svc task columns s2 of
        ((needed, Some err), s3) \<Rightarrow> notifyError world svc task err s3
      | ((needed, None), s3) \<Rightarrow>
          if \<not> needed then complete world svc task s3
          else replicate world svc task columns s3)))"

subsection \<open>Notions used to state the properties of the service\<close>

text \<open>The events a run added to the trace between two of its points.\<close>

definition newEvents :: "('w, 'r) run \<Rightarrow> ('w, 'r) run \<Rightarrow> ('r action \<times> 'r reply) list" where
  "newEvents s s' = drop (length (trace s)) (trace s')"

text \<open>From \<open>s\<close> to \<open>s'\<close> the trace only grew, by actions of the kind \<open>K\<close>.\<close>

definition grewBy :: "('r action \<Rightarrow> bool) \<Rightarrow> ('w, 'r) run \<Rightarrow> ('w, 'r) run \<Rightarrow> bool" where
  "grewBy K s s' \<longleftrightarrow> (\<exists>evs. trace s' = trace s @ evs \<and> list_all (\<lambda>e. K (fst e)) evs)"

text \<open>Kinds of actions.\<close>

fun isUpsert :: "'r action \<Rightarrow> bool" where
  "isUpsert (Query db (Upsert table record)) = True"
| "isUpsert _ = False"

fun isSourceRead :: "'r action \<Rightarrow> bool" where
  "isSourceRead (Query db (FindPage table offset limit)) = True"
| "isSourceRead (Query db (FindPageAfter table field lastUpdate offset limit)) = True"
| "isSourceRead _ = False"

fun isPageLog :: "'r action \<Rightarrow> bool" where
  "isPageLog (LogPageSynced table page totalPages) = True"
| "isPageLog _ = False"

fun isLastUpdateQuery :: "'r action \<Rightarrow> bool" where
  "isLastUpdateQuery (Query db (SelectLastUpdate table field)) = True"
| "isLastUpdateQuery _ = False"

text \<open>What \<^verbatim>\<open>syncBatchData\<close> does: transaction control, statements and writes on the target, sleeps.\<close>

fun isBatchAction :: "'r action \<Rightarrow> bool" where
  "isBatchAction (Query targetDB BeginTx) = True"
| "isBatchAction (Query targetDB CommitTx) = True"
| "isBatchAction (Query targetDB RollbackTx) = True"
| "isBatchAction (Query targetDB (Exec sql)) = True"
| "isBatchAction (Query targetDB (Upsert table record)) = True"
| "isBatchAction (Sleep d) = True"
| "isBatchAction _ = False"

text \<open>What a page with no record does on the target: an empty transaction.\<close>

fun isEmptyTxAction :: "'r action \<Rightarrow> bool" where
  "isEmptyTxAction (Query targetDB BeginTx) = True"
| "isEmptyTxAction (Query targetDB CommitTx) = True"
| "isEmptyTxAction (Query targetDB RollbackTx) = True"
| "isEmptyTxAction (Query targetDB (Exec sql)) = (sql = ''SET FOREIGN_KEY_CHECKS = 0'')"
| "isEmptyTxAction _ = False"

text \<open>The floors the target answered, and the floor and the offset of every filtered page read.\<close>

fun floorAnswered :: "'r action \<times> 'r reply \<Rightarrow> Time list" where
  "floorAnswered (Query targetDB (SelectLastUpdate table field), Instant t) = [t]"
| "floorAnswered _ = []"

fun filteredRead :: "'r action \<times> 'r reply \<Rightarrow> (Time \<times> int) list" where
  "filteredRead (Query sourceDB (FindPageAfter table field lastUpdate offset limit), r) = [(lastUpdate, offset)]"
| "filteredRead _ = []"

definition floorsAnswered :: "('r action \<times> 'r reply) list \<Rightarrow> Time list" where
  "floorsAnswered evs = concat (map floorAnswered evs)"

definition filteredReads :: "('r action \<times> 'r reply) list \<Rightarrow> (Time \<times> int) list" where
  "filteredReads evs = concat (map filteredRead evs)"

text \<open>The progress lines and the page reads among some events, in order.\<close>

definition pageLogs :: "('r action \<times> 'r reply) list \<Rightarrow> 'r action list" where
  "pageLogs evs = filter isPageLog (map fst evs)"

definition sourceReads :: "('r action \<times> 'r reply) list \<Rightarrow> 'r action list" where
  "sourceReads evs = filter isSourceRead (map fst evs)"

text \<open>What a page does besides writing: it reads the source, asks for the floor, reports.\<close>

definition isPageAction :: "'r action \<Rightarrow> bool" where
  "isPageAction a \<longleftrightarrow> isBatchAction a \<or> isSourceRead a \<or> isLastUpdateQuery a \<or> isPageLog a"

text \<open>What only the page loop does: page reads, floor queries, writes of records, progress lines.\<close>

definition isLoopAction :: "'r action \<Rightarrow> bool" where
  "isLoopAction a \<longleftrightarrow> isUpsert a \<or> isSourceRead a \<or> isLastUpdateQuery a \<or> isPageLog a"

text \<open>
  The statements that \<^verbatim>\<open>syncBatchData\<close> and the cleanup execute on the target: the
  switch of the foreign-key checks, the creation, the filling and the removal of a
  temporary table named after the target, and the deletion from the target.
\<close>

definition isCleanupStatement :: "string \<Rightarrow> string \<Rightarrow> bool" where
  "isCleanupStatement targetTable sql \<longleftrightarrow>
     sql = ''SET FOREIGN_KEY_CHECKS = 0''
     \<or> prefix (''CREATE TEMPORARY TABLE '' @ [CHR 0x60] @ ''temp_'' @ targetTable @ ''_'') sql
     \<or> prefix (''INSERT INTO '' @ [CHR 0x60] @ ''temp_'' @ targetTable @ ''_'') sql
     \<or> prefix (''DELETE t1 FROM '' @ [CHR 0x60] @ targetTable @ [CHR 0x60]) sql
     \<or> prefix (''DROP TEMPORARY TABLE IF EXISTS '' @ [CHR 0x60] @ ''temp_'' @ targetTable @ ''_'')
          sql"

text \<open>An action that adds no row to the target: no write of a record, no other statement.\<close>

fun addsNothing :: "string \<Rightarrow> 'r action \<Rightarrow> bool" where
  "addsNothing targetTable (Query db (Upsert table record)) = False"
| "addsNothing targetTable (Query db (Exec sql)) = isCleanupStatement targetTable sql"
| "addsNothing targetTable _ = True"

text \<open>The target database accepts every begin and every commit.\<close>

definition acceptsTransactions :: "('w, 'r) world \<Rightarrow> bool" where
  "acceptsTransactions world \<longleftrightarrow>
     (\<forall>w. asExec (fst (world (Query targetDB BeginTx) w)) = None
          \<and> asExec (fst (world (Query targetDB CommitTx) w)) = None)"

subsection \<open>An example world\<close>

text \<open>
  One database that both connections point to, with the table \<^verbatim>\<open>orders\<close> (the source)
  and its copy \<^verbatim>\<open>orders_copy\<close> (the target).  A row is its key \<^verbatim>\<open>id\<close> and its
  \<^verbatim>\<open>updated_at\<close>.  The database refuses a given number of the next writes, with a
  deadlock error, and accepts all others.  Statements are answered for these two tables
  whatever table they name; a rollback undoes nothing.
\<close>

type_synonym exRow = "int \<times> Time"

record exDB =
  sourceRows :: "exRow list"
  targetRows :: "exRow list"
  tempRows :: "exRow list"
  refusedWrites :: nat

definition rowsOn :: "dbside \<Rightarrow> exDB \<Rightarrow> exRow list" where
  "rowsOn db w = (case db of sourceDB \<Rightarrow> sourceRows w | targetDB \<Rightarrow> targetRows w)"

definition lastUpdateOf :: "exRow list \<Rightarrow> Time" where
  "lastUpdateOf rows = fold max (map snd rows) 0"

definition checksumOf :: "exRow list \<Rightarrow> int" where
  "checksumOf rows = sum_list (map (\<lambda>(i, t). 31 * i + t + 1) rows)"

definition upsertRow :: "exRow \<Rightarrow> exRow list \<Rightarrow> exRow list" where
  "upsertRow r rows =
     (if fst r \<in> fst ` set rows then map (\<lambda>x. if fst x = fst r then r else x) rows
      else rows @ [r])"

definition exColumnDetails :: "ColumnDetail list" where
  "exColumnDetails =
     [\<lparr>ColumnName = ''id'', ColumnType = ''bigint'', ColumnDetail.IsNullable = ''NO'',
       ColumnDefault = \<lparr>String = [], Valid = False\<rparr>, ColumnDetail.Extra = [],
       ColumnComment = []\<rparr>,
      \<lparr>ColumnName = ''updated_at'', ColumnType = ''datetime'', ColumnDetail.IsNullable = ''NO'',
       ColumnDefault = \<lparr>String = [], Valid = False\<rparr>, ColumnDetail.Extra = [],
       ColumnComment = []\<rparr>]"

definition exStatement :: "dbside \<Rightarrow> exRow statement \<Rightarrow> exDB \<Rightarrow> exRow reply \<times> exDB" where
  "exStatement db q w =
     (case q of
        SelectColumnNames t \<Rightarrow> (Names [''id'', ''updated_at''], w)
      | SelectColumnDetails t \<Rightarrow> (Details exColumnDetails, w)
      | SelectPrimaryKey t \<Rightarrow> (Text ''id'', w)
      | CountRows t \<Rightarrow> (Number (int (length (rowsOn db w))), w)
      | FindPage t offset limit \<Rightarrow>
          (Rows (take (nat limit) (drop (nat offset) (rowsOn db w))), w)
      | FindPageAfter t field lastUpdate offset limit \<Rightarrow>
          (Rows (take (nat limit) (drop (nat offset)
                   (filter (\<lambda>r. lastUpdate < snd r) (rowsOn db w)))), w)
      | SelectLastUpdate t field \<Rightarrow> (Instant (lastUpdateOf (rowsOn db w)), w)
      | ChecksumTable t \<Rightarrow> (Number (checksumOf (rowsOn db w)), w)
      | Exec sql \<Rightarrow>
          if take 6 sql = ''INSERT''
          then (Done (int (length (sourceRows w))), w\<lparr>tempRows := sourceRows w\<rparr>)
          else if take 6 sql = ''DELETE''
          then (Done (int (length (filter (\<lambda>r. fst r \<notin> fst ` set (tempRows w)) (targetRows w)))),
                w\<lparr>targetRows := filter (\<lambda>r. fst r \<in> fst ` set (tempRows w)) (targetRows w)\<rparr>)
          else (Done 0, w)
      | Upsert t r \<Rightarrow>
          if 0 < refusedWrites w
          then (Failed (Err ''Error 1213: Deadlock found when trying to get lock''),
                w\<lparr>refusedWrites := refusedWrites w - 1\<rparr>)
          else (Done 1, w\<lparr>targetRows := upsertRow r (targetRows w)\<rparr>)
      | BeginTx \<Rightarrow> (Done 0, w)
      | CommitTx \<Rightarrow> (Done 0, w)
      | RollbackTx \<Rightarrow> (Done 0, w))"

definition exWorld :: "(exDB, exRow) world" where
  "exWorld a w =
     (case a of
        Query db q \<Rightarrow> exStatement db q w
      | UnixNano \<Rightarrow> (Number 1700000000000000000, w)
      | _ \<Rightarrow> (Done 0, w))"

definition exStart :: "exRow list \<Rightarrow> exRow list \<Rightarrow> nat \<Rightarrow> (exDB, exRow) run" where
  "exStart source target refused =
     \<lparr>state = \<lparr>sourceRows = source, targetRows = target, tempRows = [],
                refusedWrites = refused\<rparr>,
      trace = []\<rparr>"

definition exService :: "string \<Rightarrow> string \<Rightarrow> string \<Rightarrow> SyncService" where
  "exService syncMode checkMethod updateField =
     \<lparr>config = \<lparr>SyncConfig.BatchSize = 2, Interval = 60, SyncMode = syncMode,
                 TablePairs = [\<lparr>Source = ''orders'', Target = ''orders_copy'',
                                CheckMethod = checkMethod, UpdateField = updateField\<rparr>]\<rparr>,
      observers = [''log'']\<rparr>"

definition exTask :: "int \<Rightarrow> SyncTask" where
  "exTask batchSize =
     \<lparr>SourceTable = ''orders'', TargetTable = ''orders_copy'', LastSyncTime = 0,
      SyncTask.BatchSize = batchSize, SyncTask.Status = ''ready'', Error = None\<rparr>"

definition exColumns :: "string list" where
  "exColumns = [''id'', ''updated_at'']"

section \<open>Properties of the structure differ\<close>

subsection \<open>What each pass appends\<close>

lemma Differences_appendDiffs [simp]: "Differences (appendDiffs p ds) = Differences p @ ds"
  by (simp add: appendDiffs_def)

lemma columnListsDiffer_iff: "columnListsDiffer xs ys \<longleftrightarrow> xs \<noteq> ys"
proof (cases "length xs = length ys")
  case True
  then have "list_ex (\<lambda>(a, b). a \<noteq> b) (zip xs ys) \<longleftrightarrow> xs \<noteq> ys"
    by (induction xs ys rule: list_induct2) auto
  with True show ?thesis by (simp add: columnListsDiffer_def)
next
  case False
  then show ?thesis by (auto simp: columnListsDiffer_def)
qed

lemma columnsAreDifferent_refl [simp]: "\<not> columnsAreDifferent c c"
  by (simp add: columnsAreDifferent_def)

lemma indexesAreDifferent_iff:
  "indexesAreDifferent a b \<longleftrightarrow>
     NonUnique a \<noteq> NonUnique b \<or> IndexType a \<noteq> IndexType b
     \<or> IndexModel.Columns a \<noteq> IndexModel.Columns b"
  by (auto simp: indexesAreDifferent_def columnListsDiffer_iff)

lemma primaryKeysAreDifferent_iff:
  "primaryKeysAreDifferent a b \<longleftrightarrow> PrimaryKeyModel.Columns a \<noteq> PrimaryKeyModel.Columns b"
  by (simp add: primaryKeysAreDifferent_def columnListsDiffer_iff)

lemma Differences_compareColumns:
  "Differences (compareColumns so to S T p) =
     Differences p
     @ concat (map (addColumnAt S (columnsByName (TableModel.Columns S)) (columnsByName (TableModel.Columns T))) so)
     @ concat (map (modifyOrDropColumnAt S (columnsByName (TableModel.Columns S)) (columnsByName (TableModel.Columns T))) to)"
  by (simp add: compareColumns_def Let_def)

lemma Differences_compareIndexes:
  "Differences (compareIndexes so to S T p) =
     Differences p
     @ concat (map (addOrRecreateIndexAt S (indexesByName (Indexes S)) (indexesByName (Indexes T))) so)
     @ concat (map (dropIndexAt S (indexesByName (Indexes S)) (indexesByName (Indexes T))) to)"
  by (simp add: compareIndexes_def Let_def)

lemma Differences_comparePrimaryKeys:
  "Differences (comparePrimaryKeys S T p) = Differences p @ primaryKeyDiffs S T"
  by (simp add: comparePrimaryKeys_def primaryKeyDiffs_def split: option.splits)

lemma Differences_comparePlan:
  "Differences (comparePlan ro t S T) =
     concat (map (addColumnAt S (columnsByName (TableModel.Columns S))
                    (columnsByName (TableModel.Columns T))) (sourceColumns ro))
     @ concat (map (modifyOrDropColumnAt S (columnsByName (TableModel.Columns S))
                      (columnsByName (TableModel.Columns T))) (targetColumns ro))
     @ concat (map (addOrRecreateIndexAt S (indexesByName (Indexes S))
                      (indexesByName (Indexes T))) (sourceIndexes ro))
     @ concat (map (dropIndexAt S (indexesByName (Indexes S))
                      (indexesByName (Indexes T))) (targetIndexes ro))
     @ primaryKeyDiffs S T"
  by (simp add: comparePlan_def Let_def Differences_comparePrimaryKeys Differences_compareIndexes
      Differences_compareColumns)

lemma addColumnAt_same [simp]: "addColumnAt S m m n = []"
  by (simp add: addColumnAt_def split: option.splits)

lemma modifyOrDropColumnAt_same [simp]: "modifyOrDropColumnAt S m m n = []"
  by (simp add: modifyOrDropColumnAt_def split: option.splits)

lemma addOrRecreateIndexAt_same [simp]: "addOrRecreateIndexAt S m m n = []"
  by (simp add: addOrRecreateIndexAt_def indexesAreDifferent_iff split: option.splits)

lemma dropIndexAt_same [simp]: "dropIndexAt S m m n = []"
  by (simp add: dropIndexAt_def split: option.splits)

text \<open>
  Claim C9.  Diffing a table snapshot against itself yields an empty Difference list:
  whatever orders the map loops take, no column, index or primary-key difference is
  emitted when source and target are the same snapshot.
\<close>

theorem Compare_self_empty: "Differences (comparePlan ro tableName S S) = []"
  by (simp add: Differences_comparePlan primaryKeyDiffs_def primaryKeysAreDifferent_iff
      split: option.splits)

subsection \<open>Order-sensitive comparison of indexes and primary keys\<close>

lemma filter_concat_keyed:
  assumes "\<And>k d. d \<in> set (f k) \<Longrightarrow> nm d = k"
  shows "filter (\<lambda>d. nm d = n \<and> Q d) (concat (map f ks)) =
         concat (map (\<lambda>k. filter Q (f k)) (filter (\<lambda>k. k = n) ks))"
proof (induction ks)
  case Nil
  show ?case by simp
next
  case (Cons k ks)
  have "filter (\<lambda>d. nm d = n \<and> Q d) (f k) = (if k = n then filter Q (f k) else [])"
    using assms[of _ k] by (auto intro: filter_cong simp: filter_empty_conv)
  with Cons show ?case by simp
qed

lemma filter_eq_singleton: "distinct ks \<Longrightarrow> n \<in> set ks \<Longrightarrow> filter (\<lambda>k. k = n) ks = [n]"
  by (induction ks) (auto simp: filter_empty_conv)

lemma filter_none_concat:
  assumes "\<And>k d. d \<in> set (f k) \<Longrightarrow> \<not> Q d"
  shows "filter Q (concat (map f ks)) = []"
  using assms by (induction ks) (auto simp: filter_empty_conv)

lemma addColumnAt_kind: "d \<in> set (addColumnAt S m m' k) \<Longrightarrow> Type d = AddColumn \<and> Difference.Name d = k"
  by (auto simp: addColumnAt_def split: option.splits)

lemma modifyOrDropColumnAt_kind:
  "d \<in> set (modifyOrDropColumnAt S m m' k) \<Longrightarrow>
     (Type d = ModifyColumn \<or> Type d = DropColumn) \<and> Difference.Name d = k"
  by (auto simp: modifyOrDropColumnAt_def split: option.splits if_splits)

lemma addOrRecreateIndexAt_kind:
  "d \<in> set (addOrRecreateIndexAt S m m' k) \<Longrightarrow>
     (Type d = AddIndex \<or> Type d = DropIndex) \<and> Difference.Name d = k"
  by (auto simp: addOrRecreateIndexAt_def dropIndexDiff_def split: option.splits if_splits)

lemma dropIndexAt_kind:
  "d \<in> set (dropIndexAt S m m' k) \<Longrightarrow> Type d = DropIndex \<and> Difference.Name d = k"
  by (auto simp: dropIndexAt_def dropIndexDiff_def split: option.splits)

lemma primaryKeyDiffs_kind:
  "d \<in> set (primaryKeyDiffs S T) \<Longrightarrow> Type d = DropPrimaryKey \<or> Type d = AddPrimaryKey"
  by (auto simp: primaryKeyDiffs_def dropPrimaryKeyDiff_def addPrimaryKeyDiff_def
      split: option.splits if_splits)

lemma index_part_of_plan:
  assumes src: "indexesByName (Indexes S) name = Some sidx"
    and ord: "rangeOrder (indexesByName (Indexes S)) (sourceIndexes ro)"
  shows "filter (\<lambda>d. Difference.Name d = name \<and> Type d \<in> indexKinds)
           (Differences (comparePlan ro t S T)) =
         addOrRecreateIndexAt S (indexesByName (Indexes S)) (indexesByName (Indexes T)) name"
proof -
  let ?Q = "\<lambda>d. Type d \<in> indexKinds"
  let ?P = "\<lambda>d. Difference.Name d = name \<and> ?Q d"
  let ?sm = "indexesByName (Indexes S)" and ?tm = "indexesByName (Indexes T)"
  have c1: "filter ?P (concat (map (addColumnAt S m m') ks)) = []" for m m' ks
    by (rule filter_none_concat) (auto dest: addColumnAt_kind simp: indexKinds_def)
  have c2: "filter ?P (concat (map (modifyOrDropColumnAt S m m') ks)) = []" for m m' ks
    by (rule filter_none_concat) (auto dest: modifyOrDropColumnAt_kind simp: indexKinds_def)
  have nm: "name \<in> set (sourceIndexes ro)" "distinct (sourceIndexes ro)"
    using ord src by (auto simp: rangeOrder_def)
  have "filter ?P (concat (map (addOrRecreateIndexAt S ?sm ?tm) (sourceIndexes ro)))
        = concat (map (\<lambda>k. filter ?Q (addOrRecreateIndexAt S ?sm ?tm k))
            (filter (\<lambda>k. k = name) (sourceIndexes ro)))"
    by (rule filter_concat_keyed) (auto dest: addOrRecreateIndexAt_kind)
  also have "\<dots> = filter ?Q (addOrRecreateIndexAt S ?sm ?tm name)"
    by (simp add: filter_eq_singleton nm)
  also have "\<dots> = addOrRecreateIndexAt S ?sm ?tm name"
    by (auto simp: filter_id_conv indexKinds_def dest: addOrRecreateIndexAt_kind)
  finally have i1: "filter ?P (concat (map (addOrRecreateIndexAt S ?sm ?tm) (sourceIndexes ro)))
        = addOrRecreateIndexAt S ?sm ?tm name" .
  have "filter ?P (concat (map (dropIndexAt S ?sm ?tm) ks))
        = concat (map (\<lambda>k. filter ?Q (dropIndexAt S ?sm ?tm k)) (filter (\<lambda>k. k = name) ks))" for ks
    by (rule filter_concat_keyed) (auto dest: dropIndexAt_kind)
  moreover have "dropIndexAt S ?sm ?tm name = []"
    using src by (auto simp: dropIndexAt_def split: option.splits)
  ultimately have i2: "filter ?P (concat (map (dropIndexAt S ?sm ?tm) ks)) = []" for ks
    by auto
  have p: "filter ?P (primaryKeyDiffs S T) = []"
    by (auto simp: filter_empty_conv indexKinds_def dest: primaryKeyDiffs_kind)
  show ?thesis
    unfolding Differences_comparePlan filter_append c1 c2 i1 i2 p by simp
qed

lemma primary_key_part_of_plan:
  "filter (\<lambda>d. Type d \<in> primaryKeyKinds) (Differences (comparePlan ro t S T)) = primaryKeyDiffs S T"
proof -
  let ?P = "\<lambda>d. Type d \<in> primaryKeyKinds"
  have c1: "filter ?P (concat (map (addColumnAt S m m') ks)) = []" for m m' ks
    by (rule filter_none_concat) (auto dest: addColumnAt_kind simp: primaryKeyKinds_def)
  have c2: "filter ?P (concat (map (modifyOrDropColumnAt S m m') ks)) = []" for m m' ks
    by (rule filter_none_concat) (auto dest: modifyOrDropColumnAt_kind simp: primaryKeyKinds_def)
  have c3: "filter ?P (concat (map (addOrRecreateIndexAt S m m') ks)) = []" for m m' ks
    by (rule filter_none_concat) (auto dest: addOrRecreateIndexAt_kind simp: primaryKeyKinds_def)
  have c4: "filter ?P (concat (map (dropIndexAt S m m') ks)) = []" for m m' ks
    by (rule filter_none_concat) (auto dest: dropIndexAt_kind simp: primaryKeyKinds_def)
  have p: "filter ?P (primaryKeyDiffs S T) = primaryKeyDiffs S T"
    by (auto simp: filter_id_conv primaryKeyKinds_def dest: primaryKeyDiffs_kind)
  show ?thesis
    unfolding Differences_comparePlan filter_append c1 c2 c3 c4 p by simp
qed

lemma never_ModifyIndex: "d \<in> set (Differences (comparePlan ro t S T)) \<Longrightarrow> Type d \<noteq> ModifyIndex"
  by (auto simp: Differences_comparePlan
      dest: addColumnAt_kind modifyOrDropColumnAt_kind addOrRecreateIndexAt_kind
        dropIndexAt_kind primaryKeyDiffs_kind)

text \<open>
  Claim C8.  When source and target both hold an index of one name, with the same
  uniqueness and method, and the two column sequences are permutations of each other
  but not equal position by position, the differences of the plan that concern that
  index are exactly a DropIndex followed by an AddIndex built from the source's index.
  Likewise two primary keys whose column sequences are permuted yield exactly
  DropPrimaryKey followed by AddPrimaryKey.  No plan ever holds a ModifyIndex.
  The order of the loop over \<^verbatim>\<open>sourceIndexes\<close> is any possible order of that map.
\<close>

theorem permuted_index_drop_then_add:
  assumes "rangeOrder (indexesByName (Indexes source)) (sourceIndexes ro)"
  shows "(\<forall>name sidx tidx.
            indexesByName (Indexes source) name = Some sidx
            \<and> indexesByName (Indexes target) name = Some tidx
            \<and> mset (IndexModel.Columns sidx) = mset (IndexModel.Columns tidx)
            \<and> IndexModel.Columns sidx \<noteq> IndexModel.Columns tidx
            \<and> NonUnique sidx = NonUnique tidx \<and> IndexType sidx = IndexType tidx
          \<longrightarrow> filter (\<lambda>d. Difference.Name d = name \<and> Type d \<in> indexKinds)
                (Differences (comparePlan ro tableName source target))
              = [\<lparr>Type = DropIndex, Name = name,
                  Description = ''Drop index '' @ squote name,
                  SQL = ''DROP INDEX '' @ bquote name @ '' ON ''
                        @ bquote (TableModel.Name source)\<rparr>,
                 \<lparr>Type = AddIndex, Name = name,
                  Description = ''Recreate index '' @ squote name,
                  SQL = generateAddIndexSQL (TableModel.Name source) sidx\<rparr>])
       \<and> (\<forall>spk tpk.
            PrimaryKey source = Some spk \<and> PrimaryKey target = Some tpk
            \<and> mset (PrimaryKeyModel.Columns spk) = mset (PrimaryKeyModel.Columns tpk)
            \<and> PrimaryKeyModel.Columns spk \<noteq> PrimaryKeyModel.Columns tpk
          \<longrightarrow> filter (\<lambda>d. Type d \<in> primaryKeyKinds)
                (Differences (comparePlan ro tableName source target))
              = [\<lparr>Type = DropPrimaryKey, Name = ''PRIMARY'',
                  Description = ''Drop existing primary key'',
                  SQL = ''ALTER TABLE '' @ bquote (TableModel.Name source)
                        @ '' DROP PRIMARY KEY''\<rparr>,
                 \<lparr>Type = AddPrimaryKey, Name = ''PRIMARY'',
                  Description = ''Add new primary key'',
                  SQL = generateAddPrimaryKeySQL (TableModel.Name source) spk\<rparr>])
       \<and> (\<forall>d \<in> set (Differences (comparePlan ro tableName source target)).
            Type d \<noteq> ModifyIndex)"
proof (intro conjI allI impI ballI)
  fix name sidx tidx
  assume h: "indexesByName (Indexes source) name = Some sidx
            \<and> indexesByName (Indexes target) name = Some tidx
            \<and> mset (IndexModel.Columns sidx) = mset (IndexModel.Columns tidx)
            \<and> IndexModel.Columns sidx \<noteq> IndexModel.Columns tidx
            \<and> NonUnique sidx = NonUnique tidx \<and> IndexType sidx = IndexType tidx"
  then have "indexesAreDifferent sidx tidx"
    by (simp add: indexesAreDifferent_iff)
  with h show "filter (\<lambda>d. Difference.Name d = name \<and> Type d \<in> indexKinds)
                (Differences (comparePlan ro tableName source target))
              = [\<lparr>Type = DropIndex, Name = name,
                  Description = ''Drop index '' @ squote name,
                  SQL = ''DROP INDEX '' @ bquote name @ '' ON ''
                        @ bquote (TableModel.Name source)\<rparr>,
                 \<lparr>Type = AddIndex, Name = name,
                  Description = ''Recreate index '' @ squote name,
                  SQL = generateAddIndexSQL (TableModel.Name source) sidx\<rparr>]"
    using index_part_of_plan[OF _ assms, of name sidx tableName target]
    by (simp add: addOrRecreateIndexAt_def dropIndexDiff_def)
next
  fix spk tpk
  assume h: "PrimaryKey source = Some spk \<and> PrimaryKey target = Some tpk
            \<and> mset (PrimaryKeyModel.Columns spk) = mset (PrimaryKeyModel.Columns tpk)
            \<and> PrimaryKeyModel.Columns spk \<noteq> PrimaryKeyModel.Columns tpk"
  then show "filter (\<lambda>d. Type d \<in> primaryKeyKinds)
                (Differences (comparePlan ro tableName source target))
              = [\<lparr>Type = DropPrimaryKey, Name = ''PRIMARY'',
                  Description = ''Drop existing primary key'',
                  SQL = ''ALTER TABLE '' @ bquote (TableModel.Name source)
                        @ '' DROP PRIMARY KEY''\<rparr>,
                 \<lparr>Type = AddPrimaryKey, Name = ''PRIMARY'',
                  Description = ''Add new primary key'',
                  SQL = generateAddPrimaryKeySQL (TableModel.Name source) spk\<rparr>]"
    by (simp add: primary_key_part_of_plan primaryKeyDiffs_def primaryKeysAreDifferent_iff
        dropPrimaryKeyDiff_def addPrimaryKeyDiff_def)
next
  fix d assume "d \<in> set (Differences (comparePlan ro tableName source target))"
  then show "Type d \<noteq> ModifyIndex" by (rule never_ModifyIndex)
qed

lemma exSource_indexes: "indexesByName (Indexes exSource) =
   [''idx_ab'' \<mapsto> \<lparr>IndexModel.Name = ''idx_ab'', IndexModel.Columns = [''a'', ''b''],
                  NonUnique = 1, IndexType = ''BTREE''\<rparr>]"
  by (simp add: indexesByName_def exSource_def)

lemma exTarget_indexes: "indexesByName (Indexes exTarget) =
   [''idx_ab'' \<mapsto> \<lparr>IndexModel.Name = ''idx_ab'', IndexModel.Columns = [''b'', ''a''],
                  NonUnique = 1, IndexType = ''BTREE''\<rparr>]"
  by (simp add: indexesByName_def exTarget_def)

theorem permuted_index_drop_then_add_witness:
  "rangeOrder (indexesByName (Indexes exSource)) (sourceIndexes exOrders)
   \<and> filter (\<lambda>d. Difference.Name d = ''idx_ab'' \<and> Type d \<in> indexKinds)
        (Differences (comparePlan exOrders ''t'' exSource exTarget))
      = [\<lparr>Type = DropIndex, Name = ''idx_ab'',
          Description = ''Drop index '' @ squote ''idx_ab'',
          SQL = ''DROP INDEX `idx_ab` ON `t`''\<rparr>,
         \<lparr>Type = AddIndex, Name = ''idx_ab'',
          Description = ''Recreate index '' @ squote ''idx_ab'',
          SQL = ''CREATE INDEX INDEX `idx_ab` ON `t` (`a`, `b`) USING BTREE''\<rparr>]
   \<and> filter (\<lambda>d. Type d \<in> primaryKeyKinds)
        (Differences (comparePlan exOrders ''t'' exSource exTarget))
      = [\<lparr>Type = DropPrimaryKey, Name = ''PRIMARY'',
          Description = ''Drop existing primary key'',
          SQL = ''ALTER TABLE `t` DROP PRIMARY KEY''\<rparr>,
         \<lparr>Type = AddPrimaryKey, Name = ''PRIMARY'',
          Description = ''Add new primary key'',
          SQL = ''ALTER TABLE `t` ADD PRIMARY KEY (`id`, `a`)''\<rparr>]"
proof -
  let ?si = "\<lparr>IndexModel.Name = ''idx_ab'', IndexModel.Columns = [''a'', ''b''],
                  NonUnique = 1, IndexType = ''BTREE''\<rparr>"
  let ?ti = "\<lparr>IndexModel.Name = ''idx_ab'', IndexModel.Columns = [''b'', ''a''],
                  NonUnique = 1, IndexType = ''BTREE''\<rparr>"
  let ?sp = "\<lparr>PrimaryKeyModel.Name = ''PRIMARY'', PrimaryKeyModel.Columns = [''id'', ''a'']\<rparr>"
  let ?tp = "\<lparr>PrimaryKeyModel.Name = ''PRIMARY'', PrimaryKeyModel.Columns = [''a'', ''id'']\<rparr>"
  have ro: "rangeOrder (indexesByName (Indexes exSource)) (sourceIndexes exOrders)"
    by (simp add: rangeOrder_def exSource_indexes exOrders_def)
  note inst = permuted_index_drop_then_add[OF ro, of exTarget "''t''"]
  have h1: "indexesByName (Indexes exSource) ''idx_ab'' = Some ?si
            \<and> indexesByName (Indexes exTarget) ''idx_ab'' = Some ?ti
            \<and> mset (IndexModel.Columns ?si) = mset (IndexModel.Columns ?ti)
            \<and> IndexModel.Columns ?si \<noteq> IndexModel.Columns ?ti
            \<and> NonUnique ?si = NonUnique ?ti \<and> IndexType ?si = IndexType ?ti"
    by (simp add: exSource_indexes exTarget_indexes)
  have h2: "PrimaryKey exSource = Some ?sp \<and> PrimaryKey exTarget = Some ?tp
            \<and> mset (PrimaryKeyModel.Columns ?sp) = mset (PrimaryKeyModel.Columns ?tp)
            \<and> PrimaryKeyModel.Columns ?sp \<noteq> PrimaryKeyModel.Columns ?tp"
    by (simp add: exSource_def exTarget_def)
  have idx: "filter (\<lambda>d. Difference.Name d = ''idx_ab'' \<and> Type d \<in> indexKinds)
        (Differences (comparePlan exOrders ''t'' exSource exTarget))
      = [\<lparr>Type = DropIndex, Name = ''idx_ab'',
          Description = ''Drop index '' @ squote ''idx_ab'',
          SQL = ''DROP INDEX `idx_ab` ON `t`''\<rparr>,
         \<lparr>Type = AddIndex, Name = ''idx_ab'',
          Description = ''Recreate index '' @ squote ''idx_ab'',
          SQL = ''CREATE INDEX INDEX `idx_ab` ON `t` (`a`, `b`) USING BTREE''\<rparr>]"
    using inst[THEN conjunct1, rule_format, OF h1]
    by (simp add: exSource_def generateAddIndexSQL_def bquote_def)
  have pk: "filter (\<lambda>d. Type d \<in> primaryKeyKinds)
        (Differences (comparePlan exOrders ''t'' exSource exTarget))
      = [\<lparr>Type = DropPrimaryKey, Name = ''PRIMARY'',
          Description = ''Drop existing primary key'',
          SQL = ''ALTER TABLE `t` DROP PRIMARY KEY''\<rparr>,
         \<lparr>Type = AddPrimaryKey, Name = ''PRIMARY'',
          Description = ''Add new primary key'',
          SQL = ''ALTER TABLE `t` ADD PRIMARY KEY (`id`, `a`)''\<rparr>]"
    using inst[THEN conjunct2, THEN conjunct1, rule_format, OF h2]
    by (simp add: exSource_def generateAddPrimaryKeySQL_def bquote_def)
  from ro idx pk show ?thesis by blast
qed

subsection \<open>Reading structures from the catalog\<close>

text \<open>
  Claim C3 states that \<^verbatim>\<open>getTableStructure\<close> returns an error whenever the catalog
  reports zero columns for the table.  The function has no such test (its sibling
  \<^verbatim>\<open>getAllColumns\<close> of the data service has one): on a catalog with no row for the
  table it returns, without error, a snapshot whose column list is empty.
\<close>

theorem getTableStructure_zero_columns_succeeds:
  "getTableStructure exEmptyCatalog [] ''missing''
     = Inr \<lparr>TableModel.Name = ''missing'', TableModel.Columns = [], Indexes = [],
            PrimaryKey = None\<rparr>"
  by (simp add: getTableStructure_def exEmptyCatalog_def List.map_filter_simps)

lemma rowsOf_simps [simp]:
  "rowsOf [] = []" "rowsOf (Inl e # rs) = rowsOf rs" "rowsOf (Inr v # rs) = v # rowsOf rs"
  by (simp_all add: rowsOf_def)

lemma rowsOf_map_Inr [simp]: "rowsOf (map Inr xs) = xs"
  by (induction xs) simp_all

lemma pkExtend_Nil [simp]: "pkExtend pk [] = pk"
  by (simp add: pkExtend_def)

lemma pkExtend_Cons:
  "pkExtend pk (n # ns) =
     pkExtend (case pk of
           None \<Rightarrow> Some \<lparr>PrimaryKeyModel.Name = ''PRIMARY'', PrimaryKeyModel.Columns = [n]\<rparr>
         | Some p \<Rightarrow> Some (p\<lparr>PrimaryKeyModel.Columns := PrimaryKeyModel.Columns p @ [n]\<rparr>)) ns"
  by (cases ns; cases pk) (simp_all add: pkExtend_def)

lemma scanColumns_Inr:
  "scanColumns rows table = Inr T \<Longrightarrow>
     TableModel.Name T = TableModel.Name table
     \<and> TableModel.Columns T = TableModel.Columns table @ map columnOfRow (rowsOf rows)
     \<and> Indexes T = Indexes table
     \<and> PrimaryKey T = pkExtend (PrimaryKey table)
          (map ColumnModel.Name (filter (\<lambda>c. ColumnKey c = ''PRI'') (map columnOfRow (rowsOf rows))))"
proof (induction rows table rule: scanColumns.induct)
  case (1 table)
  then show ?case by simp
next
  case (2 e rest table)
  then show ?case by simp
next
  case (3 r rest table)
  show ?case
  proof (cases "ColumnKey (columnOfRow r) = ''PRI''")
    case True
    with 3 show ?thesis
      by (cases "PrimaryKey table") (simp_all add: Let_def pkExtend_Cons)
  next
    case False
    with 3 show ?thesis by (simp add: Let_def)
  qed
qed

lemma pkExtend_None: "pkExtend None (map ColumnModel.Name (filter P cols)) =
   (case filter P cols of [] \<Rightarrow> None
      | c # cs \<Rightarrow> Some \<lparr>PrimaryKeyModel.Name = ''PRIMARY'',
                        PrimaryKeyModel.Columns = map ColumnModel.Name (c # cs)\<rparr>)"
  by (cases "filter P cols") (simp_all add: pkExtend_def)

lemma indexExtend_None [simp]: "indexExtend None n rows = indexOfRows n rows"
  by (simp add: indexExtend_def)

lemma indexExtend_step_new:
  "indexExtend (Some \<lparr>IndexModel.Name = n, IndexModel.Columns = [c],
                      NonUnique = u, IndexType = t\<rparr>) n rows
   = indexOfRows n ((n, c, u, t) # rows)"
  by (simp add: indexExtend_def indexOfRows_def)

lemma indexExtend_step_old:
  "indexExtend (Some (idx\<lparr>IndexModel.Columns := IndexModel.Columns idx @ [c]\<rparr>)) n rows
   = indexExtend (Some idx) n ((n, c, u, t) # rows)"
  by (simp add: indexExtend_def)

lemma indexExtend_other:
  "n \<noteq> n' \<Longrightarrow> indexExtend old n ((n', c, u, t) # rows) = indexExtend old n rows"
  by (cases old) (auto simp: indexExtend_def indexOfRows_def)

lemma scanIndexes_Inr:
  "scanIndexes rows indexMap = Inr m \<Longrightarrow>
     m n = (if n = ''PRIMARY'' then indexMap n else indexExtend (indexMap n) n (rowsOf rows))"
proof (induction rows indexMap arbitrary: m rule: scanIndexes.induct)
  case (1 indexMap)
  then show ?case by (auto simp: indexExtend_def indexOfRows_def split: option.splits)
next
  case (2 e rest indexMap)
  then show ?case by simp
next
  case (3 idxName colName nonUnique idxType rest indexMap)
  show ?case
  proof (cases "idxName = ''PRIMARY''")
    case True
    with "3.prems" have "scanIndexes rest indexMap = Inr m" by simp
    from "3.IH"(1)[OF True this] True show ?thesis
      by (simp add: indexExtend_other)
  next
    case False
    show ?thesis
    proof (cases "indexMap idxName")
      case None
      let ?new = "\<lparr>IndexModel.Name = idxName, IndexModel.Columns = [colName],
                      NonUnique = nonUnique, IndexType = idxType\<rparr>"
      from "3.prems" False None have run: "scanIndexes rest (indexMap(idxName \<mapsto> ?new)) = Inr m"
        by simp
      have "m n = (if n = ''PRIMARY'' then (indexMap(idxName \<mapsto> ?new)) n
           else indexExtend ((indexMap(idxName \<mapsto> ?new)) n) n (rowsOf rest))"
        using "3.IH"(2)[OF False None run] .
      with None False show ?thesis
        by (cases "n = idxName") (simp_all add: indexExtend_step_new indexExtend_other)
    next
      case (Some idx)
      let ?upd = "idx\<lparr>IndexModel.Columns := IndexModel.Columns idx @ [colName]\<rparr>"
      from "3.prems" False Some have run: "scanIndexes rest (indexMap(idxName \<mapsto> ?upd)) = Inr m"
        by simp
      have "m n = (if n = ''PRIMARY'' then (indexMap(idxName \<mapsto> ?upd)) n
           else indexExtend ((indexMap(idxName \<mapsto> ?upd)) n) n (rowsOf rest))"
        using "3.IH"(3)[OF False Some run] .
      with Some False show ?thesis
        by (cases "n = idxName")
          (simp_all add: indexExtend_step_old[where u = nonUnique and t = idxType] indexExtend_other)
    qed
  qed
qed

lemma scanIndexes_empty:
  assumes "scanIndexes rows Map.empty = Inr m"
  shows "m n = (if n = ''PRIMARY'' then None else indexOfRows n (rowsOf rows))"
  using scanIndexes_Inr[OF assms, of n] by simp

lemma indexOfRows_eq_None: "indexOfRows n rows = None \<longleftrightarrow> n \<notin> fst ` set rows"
proof -
  have "indexOfRows n rows = None \<longleftrightarrow> filter (\<lambda>r. fst r = n) rows = []"
    by (simp add: indexOfRows_def split: list.splits)
  then show ?thesis by (auto simp: filter_empty_conv)
qed

lemma set_catalogIndexNames:
  "set (catalogIndexNames rows) = {n \<in> fst ` set rows. n \<noteq> ''PRIMARY''}"
  by (auto simp: catalogIndexNames_def)

lemma dom_scanIndexes:
  assumes "scanIndexes rows Map.empty = Inr m"
  shows "dom m = set (catalogIndexNames (rowsOf rows))"
proof -
  have "n \<in> dom m \<longleftrightarrow> n \<in> set (catalogIndexNames (rowsOf rows))" for n
    using scanIndexes_empty[OF assms, of n] indexOfRows_eq_None[of n "rowsOf rows"]
    by (cases "n = ''PRIMARY''") (auto simp: set_catalogIndexNames dom_def)
  then show ?thesis by blast
qed

lemma distinct_catalogIndexNames: "distinct (catalogIndexNames rows)"
  by (simp add: catalogIndexNames_def)

lemma map_filter_all_Some:
  "(\<And>k. k \<in> set ks \<Longrightarrow> m k \<noteq> None) \<Longrightarrow> List.map_filter m ks = map (\<lambda>k. the (m k)) ks"
  by (induction ks) (auto simp: List.map_filter_simps split: option.splits)

lemma getTableStructure_Inr:
  assumes db: "selectDatabase db = Inr dbName"
    and cols: "queryColumns db dbName tableName = Inr (colRows, colErr)"
    and idxs: "queryStatistics db dbName tableName = Inr (idxRows, idxErr)"
    and run: "getTableStructure db mapOrder tableName = Inr T"
  shows "\<exists>indexMap. scanIndexes idxRows Map.empty = Inr indexMap
           \<and> T = \<lparr>TableModel.Name = tableName,
                   TableModel.Columns = map columnOfRow (rowsOf colRows),
                   Indexes = List.map_filter indexMap mapOrder,
                   PrimaryKey = primaryKeyOfColumns (map columnOfRow (rowsOf colRows))\<rparr>"
proof -
  let ?t0 = "\<lparr>TableModel.Name = tableName, TableModel.Columns = [],
              Indexes = [], PrimaryKey = None\<rparr>"
  from run db cols idxs obtain T1 indexMap where
    s1: "scanColumns colRows ?t0 = Inr T1" and
    s2: "scanIndexes idxRows Map.empty = Inr indexMap" and
    T: "T = T1\<lparr>Indexes := Indexes T1 @ List.map_filter indexMap mapOrder\<rparr>"
    by (auto simp: getTableStructure_def Let_def split: sum.splits option.splits)
  from scanColumns_Inr[OF s1] have
    "T1 = \<lparr>TableModel.Name = tableName,
           TableModel.Columns = map columnOfRow (rowsOf colRows),
           Indexes = [],
           PrimaryKey = primaryKeyOfColumns (map columnOfRow (rowsOf colRows))\<rparr>"
    by (cases T1) (simp add: pkExtend_None primaryKeyOfColumns_def)
  with T s2 show ?thesis by simp
qed

text \<open>
  Claim C5, as amended.  In a snapshot that \<^verbatim>\<open>getTableStructure\<close> returns, the columns
  are those of the catalog rows in row order (ordinal position), the primary key holds
  the columns of key role \<^verbatim>\<open>PRI\<close> in that order, and every index holds the columns of
  its rows in row order (sequence in index).  The index list holds one index for each
  index name of the catalog other than \<^verbatim>\<open>PRIMARY\<close>, and its order is the order in which
  the closing loop visits \<^verbatim>\<open>indexMap\<close>: a permutation of the catalog's order.
\<close>

theorem getTableStructure_orders:
  assumes db: "selectDatabase db = Inr dbName"
    and cols: "queryColumns db dbName tableName = Inr (colRows, colErr)"
    and idxs: "queryStatistics db dbName tableName = Inr (idxRows, idxErr)"
    and run: "getTableStructure db mapOrder tableName = Inr T"
    and scan: "scanIndexes idxRows Map.empty = Inr indexMap"
    and ord: "rangeOrder indexMap mapOrder"
  shows "TableModel.Columns T = map columnOfRow (rowsOf colRows)
       \<and> PrimaryKey T = primaryKeyOfColumns (map columnOfRow (rowsOf colRows))
       \<and> Indexes T = map (\<lambda>n. the (indexOfRows n (rowsOf idxRows))) mapOrder
       \<and> map IndexModel.Name (Indexes T) = mapOrder
       \<and> mset mapOrder = mset (catalogIndexNames (rowsOf idxRows))"
proof -
  from getTableStructure_Inr[OF db cols idxs run] scan have
    T: "T = \<lparr>TableModel.Name = tableName,
             TableModel.Columns = map columnOfRow (rowsOf colRows),
             Indexes = List.map_filter indexMap mapOrder,
             PrimaryKey = primaryKeyOfColumns (map columnOfRow (rowsOf colRows))\<rparr>"
    by auto
  have dom: "set mapOrder = set (catalogIndexNames (rowsOf idxRows))" and dist: "distinct mapOrder"
    using ord dom_scanIndexes[OF scan] by (auto simp: rangeOrder_def)
  have look: "indexMap n = indexOfRows n (rowsOf idxRows)" if "n \<in> set mapOrder" for n
    using that dom scanIndexes_empty[OF scan, of n] by (auto simp: set_catalogIndexNames)
  have some: "indexMap n \<noteq> None" if "n \<in> set mapOrder" for n
    using that ord by (auto simp: rangeOrder_def)
  have idx: "List.map_filter indexMap mapOrder = map (\<lambda>n. the (indexOfRows n (rowsOf idxRows))) mapOrder"
    using map_filter_all_Some[of mapOrder indexMap, OF some] look by simp
  have nm: "IndexModel.Name (the (indexOfRows n (rowsOf idxRows))) = n" if "n \<in> set mapOrder" for n
    using some[OF that] look[OF that]
    by (auto simp: indexOfRows_def split: list.splits)
  have names: "map IndexModel.Name (map (\<lambda>n. the (indexOfRows n (rowsOf idxRows))) mapOrder) = mapOrder"
    using nm by (simp add: map_idI)
  have perm: "mset mapOrder = mset (catalogIndexNames (rowsOf idxRows))"
    using dom dist distinct_catalogIndexNames by (simp add: set_eq_iff_mset_eq_distinct)
  from T idx names perm show ?thesis by simp
qed

lemma exCatalog_scan:
  "scanIndexes (map Inr exIndexRows) Map.empty =
     Inr [''idx_a'' \<mapsto> \<lparr>IndexModel.Name = ''idx_a'', IndexModel.Columns = [''a''],
                          NonUnique = 1, IndexType = ''BTREE''\<rparr>,
          ''idx_b'' \<mapsto> \<lparr>IndexModel.Name = ''idx_b'', IndexModel.Columns = [''b'', ''a''],
                          NonUnique = 1, IndexType = ''BTREE''\<rparr>]"
  by (simp add: exIndexRows_def fun_upd_twist)

lemma exCatalog_run:
  "getTableStructure exCatalog ks ''t'' =
     Inr (exSnapshot (List.map_filter [''idx_a'' \<mapsto> exIdxA, ''idx_b'' \<mapsto> exIdxB] ks))"
proof -
  have cols: "scanColumns (map Inr exColumnRows)
       \<lparr>TableModel.Name = ''t'', TableModel.Columns = [], Indexes = [], PrimaryKey = None\<rparr>
     = Inr (exSnapshot [])"
    by (simp add: exColumnRows_def columnOfRow_def contains_def exSnapshotColumns_def
        exSnapshot_def sublist_code prefix_code)
  show ?thesis
    by (simp add: getTableStructure_def exCatalog_def cols exCatalog_scan)
      (simp add: exSnapshot_def exIdxA_def exIdxB_def)
qed

text \<open>
  Claim C5 as stated fails: the order of the index list is the order of the map loop.
  On the example catalog the loop may visit \<^verbatim>\<open>idx_b\<close> before \<^verbatim>\<open>idx_a\<close>; the snapshot
  then lists \<^verbatim>\<open>idx_b\<close> first although the catalog lists \<^verbatim>\<open>idx_a\<close> first, and it differs
  from the snapshot read with the other order.
\<close>

theorem index_order_follows_map_counterexample:
  "(case scanIndexes (map Inr exIndexRows) Map.empty of
      Inr indexMap \<Rightarrow> rangeOrder indexMap [''idx_b'', ''idx_a''] | Inl e \<Rightarrow> False)
   \<and> getTableStructure exCatalog [''idx_b'', ''idx_a''] ''t'' = Inr (exSnapshot [exIdxB, exIdxA])
   \<and> catalogIndexNames exIndexRows = [''idx_a'', ''idx_b'']
   \<and> getTableStructure exCatalog [''idx_a'', ''idx_b''] ''t'' = Inr (exSnapshot [exIdxA, exIdxB])
   \<and> exSnapshot [exIdxB, exIdxA] \<noteq> exSnapshot [exIdxA, exIdxB]"
proof -
  have "rangeOrder [''idx_a'' \<mapsto> exIdxA, ''idx_b'' \<mapsto> exIdxB] [''idx_b'', ''idx_a'']"
    by (auto simp: rangeOrder_def)
  moreover have "catalogIndexNames exIndexRows = [''idx_a'', ''idx_b'']"
    by (simp add: catalogIndexNames_def exIndexRows_def)
  moreover have "exSnapshot [exIdxB, exIdxA] \<noteq> exSnapshot [exIdxA, exIdxB]"
    by (simp add: exSnapshot_def exIdxA_def exIdxB_def)
  ultimately show ?thesis
    by (simp add: exCatalog_run exCatalog_scan List.map_filter_simps exIdxA_def exIdxB_def)
qed

theorem getTableStructure_orders_witness:
  "selectDatabase exCatalog = Inr ''shop''
   \<and> queryColumns exCatalog ''shop'' ''t'' = Inr (map Inr exColumnRows, None)
   \<and> queryStatistics exCatalog ''shop'' ''t'' = Inr (map Inr exIndexRows, None)
   \<and> getTableStructure exCatalog [''idx_b'', ''idx_a''] ''t'' = Inr (exSnapshot [exIdxB, exIdxA])
   \<and> scanIndexes (map Inr exIndexRows) Map.empty = Inr [''idx_a'' \<mapsto> exIdxA, ''idx_b'' \<mapsto> exIdxB]
   \<and> rangeOrder [''idx_a'' \<mapsto> exIdxA, ''idx_b'' \<mapsto> exIdxB] [''idx_b'', ''idx_a'']
   \<and> TableModel.Columns (exSnapshot [exIdxB, exIdxA]) = map columnOfRow exColumnRows
   \<and> PrimaryKey (exSnapshot [exIdxB, exIdxA]) = primaryKeyOfColumns (map columnOfRow exColumnRows)
   \<and> Indexes (exSnapshot [exIdxB, exIdxA]) = map (\<lambda>n. the (indexOfRows n exIndexRows)) [''idx_b'', ''idx_a'']
   \<and> map IndexModel.Name (Indexes (exSnapshot [exIdxB, exIdxA])) = [''idx_b'', ''idx_a'']
   \<and> mset [''idx_b'', ''idx_a''] = mset (catalogIndexNames exIndexRows)"
proof -
  have h1: "selectDatabase exCatalog = Inr ''shop''"
    and h2: "queryColumns exCatalog ''shop'' ''t'' = Inr (map Inr exColumnRows, None)"
    and h3: "queryStatistics exCatalog ''shop'' ''t'' = Inr (map Inr exIndexRows, None)"
    by (simp_all add: exCatalog_def)
  have h4: "getTableStructure exCatalog [''idx_b'', ''idx_a''] ''t'' = Inr (exSnapshot [exIdxB, exIdxA])"
    by (simp add: exCatalog_run List.map_filter_simps)
  have h5: "scanIndexes (map Inr exIndexRows) Map.empty = Inr [''idx_a'' \<mapsto> exIdxA, ''idx_b'' \<mapsto> exIdxB]"
    by (simp add: exCatalog_scan exIdxA_def exIdxB_def)
  have h6: "rangeOrder [''idx_a'' \<mapsto> exIdxA, ''idx_b'' \<mapsto> exIdxB] [''idx_b'', ''idx_a'']"
    by (auto simp: rangeOrder_def)
  from getTableStructure_orders[OF h1 h2 h3 h4 h5 h6] h1 h2 h3 h4 h5 h6
  show ?thesis by (simp add: indexOfRows_def exIndexRows_def)
qed

subsection \<open>When the plan is empty\<close>

lemma dom_fold_upd:
  "dom (fold (\<lambda>x m. m(key x \<mapsto> x)) xs m0) = dom m0 \<union> key ` set xs"
  by (induction xs arbitrary: m0) auto

lemma dom_columnsByName: "dom (columnsByName cols) = set (map ColumnModel.Name cols)"
  by (simp add: columnsByName_def dom_fold_upd)

lemma dom_indexesByName: "dom (indexesByName idxs) = set (map IndexModel.Name idxs)"
  by (simp add: indexesByName_def dom_fold_upd)

lemma columnsAreDifferent_iff: "columnsAreDifferent a b \<longleftrightarrow> \<not> sameDefinition a b"
  by (auto simp: columnsAreDifferent_def sameDefinition_def nullStringsAgree_def)

lemma indexesAreDifferent_iff_sameIndex: "indexesAreDifferent a b \<longleftrightarrow> \<not> sameIndex a b"
  by (auto simp: indexesAreDifferent_iff sameIndex_def)

lemma addColumnAt_Nil: "addColumnAt S sm tm n = [] \<longleftrightarrow> (n \<in> dom sm \<longrightarrow> n \<in> dom tm)"
  by (auto simp: addColumnAt_def split: option.splits)

lemma modifyOrDropColumnAt_Nil:
  "modifyOrDropColumnAt S sm tm n = [] \<longleftrightarrow>
     (n \<in> dom tm \<longrightarrow> n \<in> dom sm \<and> sameDefinition (the (sm n)) (the (tm n)))"
  by (auto simp: modifyOrDropColumnAt_def columnsAreDifferent_iff split: option.splits)

lemma addOrRecreateIndexAt_Nil:
  "addOrRecreateIndexAt S sm tm n = [] \<longleftrightarrow>
     (n \<in> dom sm \<longrightarrow> n \<in> dom tm \<and> sameIndex (the (sm n)) (the (tm n)))"
  by (auto simp: addOrRecreateIndexAt_def indexesAreDifferent_iff_sameIndex split: option.splits)

lemma dropIndexAt_Nil: "dropIndexAt S sm tm n = [] \<longleftrightarrow> (n \<in> dom tm \<longrightarrow> n \<in> dom sm)"
  by (auto simp: dropIndexAt_def split: option.splits)

lemma primaryKeyDiffs_Nil:
  "primaryKeyDiffs S T = [] \<longleftrightarrow>
     map_option PrimaryKeyModel.Columns (PrimaryKey S) = map_option PrimaryKeyModel.Columns (PrimaryKey T)"
  by (auto simp: primaryKeyDiffs_def primaryKeysAreDifferent_iff split: option.splits)

lemma keyed_maps_agree:
  assumes "set ks = dom sm" "set ks' = dom tm"
  shows "(\<forall>n \<in> set ks. n \<in> dom sm \<longrightarrow> n \<in> dom tm)
         \<and> (\<forall>n \<in> set ks'. n \<in> dom tm \<longrightarrow> n \<in> dom sm \<and> P n)
       \<longleftrightarrow> dom sm = dom tm \<and> (\<forall>n \<in> dom sm. P n)"
  using assms by blast

lemma keyed_maps_agree':
  assumes "set ks = dom sm" "set ks' = dom tm"
  shows "(\<forall>n \<in> set ks. n \<in> dom sm \<longrightarrow> n \<in> dom tm \<and> P n)
         \<and> (\<forall>n \<in> set ks'. n \<in> dom tm \<longrightarrow> n \<in> dom sm)
       \<longleftrightarrow> dom sm = dom tm \<and> (\<forall>n \<in> dom sm. P n)"
  using assms by blast

text \<open>
  For all snapshots A and B and all possible orders of the map loops, the plan of diffing
  A (source) against B (target) holds no difference exactly when B is A up to the order of
  the columns and the order of the indexes, key-role tags aside.
\<close>

lemma empty_plan_iff_same_up_to_order:
  assumes "possibleOrders ro A B"
  shows "Differences (comparePlan ro tableName A B) = [] \<longleftrightarrow> sameUpToOrder A B"
proof -
  let ?sc = "columnsByName (TableModel.Columns A)" and ?tc = "columnsByName (TableModel.Columns B)"
  let ?si = "indexesByName (Indexes A)" and ?ti = "indexesByName (Indexes B)"
  from assms have o1: "set (sourceColumns ro) = dom ?sc" and o2: "set (targetColumns ro) = dom ?tc"
    and o3: "set (sourceIndexes ro) = dom ?si" and o4: "set (targetIndexes ro) = dom ?ti"
    by (simp_all add: possibleOrders_def rangeOrder_def)
  have "Differences (comparePlan ro tableName A B) = [] \<longleftrightarrow>
      ((\<forall>n \<in> set (sourceColumns ro). n \<in> dom ?sc \<longrightarrow> n \<in> dom ?tc)
       \<and> (\<forall>n \<in> set (targetColumns ro). n \<in> dom ?tc \<longrightarrow>
             n \<in> dom ?sc \<and> sameDefinition (the (?sc n)) (the (?tc n))))
      \<and> ((\<forall>n \<in> set (sourceIndexes ro). n \<in> dom ?si \<longrightarrow>
             n \<in> dom ?ti \<and> sameIndex (the (?si n)) (the (?ti n)))
       \<and> (\<forall>n \<in> set (targetIndexes ro). n \<in> dom ?ti \<longrightarrow> n \<in> dom ?si))
      \<and> map_option PrimaryKeyModel.Columns (PrimaryKey A)
          = map_option PrimaryKeyModel.Columns (PrimaryKey B)"
    by (simp add: Differences_comparePlan addColumnAt_Nil modifyOrDropColumnAt_Nil
        addOrRecreateIndexAt_Nil dropIndexAt_Nil primaryKeyDiffs_Nil conj_assoc)
  also have "\<dots> \<longleftrightarrow>
      (dom ?sc = dom ?tc \<and> (\<forall>n \<in> dom ?sc. sameDefinition (the (?sc n)) (the (?tc n))))
      \<and> (dom ?si = dom ?ti \<and> (\<forall>n \<in> dom ?si. sameIndex (the (?si n)) (the (?ti n))))
      \<and> map_option PrimaryKeyModel.Columns (PrimaryKey A)
          = map_option PrimaryKeyModel.Columns (PrimaryKey B)"
    unfolding keyed_maps_agree[OF o1 o2] keyed_maps_agree'[OF o3 o4] ..
  also have "\<dots> \<longleftrightarrow> sameUpToOrder A B"
    unfolding sameUpToOrder_def dom_columnsByName dom_indexesByName by (simp add: conj_assoc)
  finally show ?thesis .
qed

lemma exSource_columns: "columnsByName (TableModel.Columns exSource) =
   [''id'' \<mapsto> exColumn ''id'' ''int'' ''NO'' ''PRI'', ''a'' \<mapsto> exColumn ''a'' ''int'' ''NO'' ''PRI'',
    ''b'' \<mapsto> exColumn ''b'' ''int'' ''YES'' []]"
  by (simp add: columnsByName_def exSource_def exColumn_def)

lemma exShuffled_columns: "columnsByName (TableModel.Columns exShuffled) =
   [''id'' \<mapsto> exColumn ''id'' ''int'' ''NO'' ''PRI'', ''b'' \<mapsto> exColumn ''b'' ''int'' ''YES'' [],
    ''a'' \<mapsto> exColumn ''a'' ''int'' ''NO'' ''PRI'']"
  by (simp add: columnsByName_def exShuffled_def exColumn_def)

lemma exShuffled_indexes: "indexesByName (Indexes exShuffled) = indexesByName (Indexes exSource)"
  by (simp add: exShuffled_def)

lemma exShuffled_orders: "possibleOrders exOrders exSource exShuffled"
  by (auto simp: possibleOrders_def rangeOrder_def exSource_columns exShuffled_columns
      exShuffled_indexes exSource_indexes exOrders_def)

lemma exShuffled_same: "sameUpToOrder exSource exShuffled"
  unfolding sameUpToOrder_def exShuffled_columns exSource_columns exShuffled_indexes
  by (auto simp: exSource_def exShuffled_def sameDefinition_def nullStringsAgree_def
      sameIndex_def)

lemma column_order_gets_empty_plan:
  "Differences (comparePlan exOrders ''t'' exSource exShuffled) = []"
  unfolding Differences_comparePlan exShuffled_columns exSource_columns exShuffled_indexes
  by (simp add: exOrders_def addColumnAt_def modifyOrDropColumnAt_def columnsAreDifferent_def
      primaryKeyDiffs_def primaryKeysAreDifferent_iff exShuffled_def exSource_def)

lemma exSnapshot_columns:
  "columnsByName (TableModel.Columns (exSnapshot idxs)) =
     [''id'' \<mapsto> exSnapshotColumns ! 0, ''a'' \<mapsto> exSnapshotColumns ! 1,
      ''b'' \<mapsto> exSnapshotColumns ! 2]"
  by (simp add: columnsByName_def exSnapshot_def exSnapshotColumns_def)

lemma exSnapshot_indexes:
  "indexesByName (Indexes (exSnapshot [exIdxA])) = [''idx_a'' \<mapsto> exIdxA]"
  "indexesByName (Indexes (exSnapshot [])) = Map.empty"
  by (simp_all add: indexesByName_def exSnapshot_def exIdxA_def)

lemma exIndexOrders_possible:
  "possibleOrders exIndexOrders (exSnapshot [exIdxA]) (exSnapshot [])"
  by (auto simp: possibleOrders_def rangeOrder_def exSnapshot_columns exSnapshot_indexes
      exIndexOrders_def)

lemma added_index_plan:
  "Differences (comparePlan exIndexOrders ''t'' (exSnapshot [exIdxA]) (exSnapshot []))
     = [\<lparr>Type = AddIndex, Name = ''idx_a'', Description = ''Add index '' @ squote ''idx_a'',
         SQL = ''CREATE INDEX INDEX '' @ bquote ''idx_a'' @ '' ON '' @ bquote ''t''
               @ '' ('' @ bquote ''a'' @ '') USING BTREE''\<rparr>]"
  unfolding Differences_comparePlan exSnapshot_columns exSnapshot_indexes
  by (simp add: exIndexOrders_def addColumnAt_def modifyOrDropColumnAt_def
      columnsAreDifferent_def addOrRecreateIndexAt_def generateAddIndexSQL_def
      primaryKeyDiffs_def primaryKeysAreDifferent_iff exSnapshot_def exIdxA_def)

text \<open>
  Claim C4 states that applying the emitted statements to the target yields the source's
  structure.  Two defects of the differ prevent it.  For an index that is not unique
  \<^verbatim>\<open>generateAddIndexSQL\<close> fills \<^verbatim>\<open>CREATE %s INDEX\<close> with \<^verbatim>\<open>INDEX\<close>: the statement emitted
  to add the index \<^verbatim>\<open>idx_a\<close> begins with \<^verbatim>\<open>CREATE INDEX INDEX\<close>, which no MySQL server
  accepts, so the target never gets the index.  And the order of the columns is never
  compared: a target whose columns stand in another order than the source's gets no
  statement at all, and stays different from the source.
\<close>

theorem emitted_plan_does_not_converge:
  "possibleOrders exIndexOrders (exSnapshot [exIdxA]) (exSnapshot [])
   \<and> Differences (comparePlan exIndexOrders ''t'' (exSnapshot [exIdxA]) (exSnapshot []))
     = [\<lparr>Type = AddIndex, Name = ''idx_a'', Description = ''Add index '' @ squote ''idx_a'',
         SQL = ''CREATE INDEX INDEX '' @ bquote ''idx_a'' @ '' ON '' @ bquote ''t''
               @ '' ('' @ bquote ''a'' @ '') USING BTREE''\<rparr>]
   \<and> possibleOrders exOrders exSource exShuffled
   \<and> Differences (comparePlan exOrders ''t'' exSource exShuffled) = []
   \<and> exShuffled \<noteq> exSource"
proof -
  have "exShuffled \<noteq> exSource"
    by (simp add: exShuffled_def exSource_def exColumn_def)
  with exIndexOrders_possible added_index_plan exShuffled_orders column_order_gets_empty_plan
  show ?thesis by simp
qed

section \<open>Properties of the data service\<close>

subsection \<open>The double arithmetic\<close>

lemma exponentFrom_bounds:
  "2 powi (- 64) \<le> x \<Longrightarrow> x < 2 powi (e + 1) \<Longrightarrow>
     2 powi (exponentFrom x e) \<le> x \<and> x < 2 powi (exponentFrom x e + 1)"
proof (induction x e rule: exponentFrom.induct)
  case (1 x e)
  show ?case
  proof (cases "e \<le> - 64 \<or> 2 powi e \<le> x")
    case True
    have "2 powi e \<le> x"
    proof (cases "2 powi e \<le> x")
      case False
      with True have "e \<le> - 64" by simp
      then have "(2::rat) powi e \<le> 2 powi (- 64)"
        by (intro power_int_increasing) auto
      with "1.prems" show ?thesis by simp
    qed
    with True "1.prems" show ?thesis by (subst (1 2) exponentFrom.simps) auto
  next
    case False
    then have "x < 2 powi (e - 1 + 1)" by simp
    from "1.IH"[OF False "1.prems"(1) this] False show ?thesis
      by (subst (1 2) exponentFrom.simps) auto
  qed
qed

lemma roundHalfEven_le: "x \<le> of_int n \<Longrightarrow> roundHalfEven x \<le> n"
proof -
  assume le: "x \<le> of_int n"
  have f: "of_int \<lfloor>x\<rfloor> \<le> x" by simp
  have "\<lfloor>x\<rfloor> \<le> n" using le by (simp add: floor_le_iff)
  moreover have "\<lfloor>x\<rfloor> + 1 \<le> n" if "0 < x - of_int \<lfloor>x\<rfloor>"
  proof -
    from that le have "of_int \<lfloor>x\<rfloor> < (of_int n :: rat)" by linarith
    then show ?thesis by simp
  qed
  ultimately show ?thesis
    by (auto simp: roundHalfEven_def Let_def)
qed

lemma roundHalfEven_ge: "of_int n \<le> x \<Longrightarrow> n \<le> roundHalfEven x"
proof -
  assume "of_int n \<le> x"
  then have "n \<le> \<lfloor>x\<rfloor>" by (simp add: le_floor_iff)
  then show ?thesis by (auto simp: roundHalfEven_def Let_def)
qed

lemma roundHalfEven_gt: "of_int n + 1 / 2 < x \<Longrightarrow> n + 1 \<le> roundHalfEven x"
proof -
  assume gt: "of_int n + 1 / 2 < x"
  then have n: "n \<le> \<lfloor>x\<rfloor>" by (simp add: le_floor_iff)
  show ?thesis
  proof (cases "n = \<lfloor>x\<rfloor>")
    case True
    with gt have "1 / 2 < x - of_int \<lfloor>x\<rfloor>" by simp
    with True show ?thesis by (simp add: roundHalfEven_def Let_def)
  next
    case False
    with n have "n + 1 \<le> \<lfloor>x\<rfloor>" by simp
    then show ?thesis by (auto simp: roundHalfEven_def Let_def)
  qed
qed

lemma roundHalfEven_of_int [simp]: "roundHalfEven (of_int n) = n"
  by (simp add: roundHalfEven_def)

lemma ulpOf_pos: "0 < ulpOf x"
  by (simp add: ulpOf_def zero_less_power_int)

lemma float64_pos: "0 < x \<Longrightarrow> float64 x = of_int (roundHalfEven (x / ulpOf x)) * ulpOf x"
  by (simp add: float64_def)

lemma float64_le:
  assumes "0 < x" "x \<le> of_int m * ulpOf x"
  shows "float64 x \<le> of_int m * ulpOf x"
proof -
  from assms ulpOf_pos[of x] have "x / ulpOf x \<le> of_int m"
    by (simp add: pos_divide_le_eq)
  then have "roundHalfEven (x / ulpOf x) \<le> m" by (rule roundHalfEven_le)
  then have "(of_int (roundHalfEven (x / ulpOf x)) :: rat) \<le> of_int m" by simp
  with ulpOf_pos[of x] show ?thesis
    by (simp add: float64_pos assms(1))
qed

lemma float64_ge:
  assumes "0 < x" "of_int m * ulpOf x \<le> x"
  shows "of_int m * ulpOf x \<le> float64 x"
proof -
  from assms ulpOf_pos[of x] have "of_int m \<le> x / ulpOf x"
    by (simp add: pos_le_divide_eq)
  then have "m \<le> roundHalfEven (x / ulpOf x)" by (rule roundHalfEven_ge)
  then have "(of_int m :: rat) \<le> of_int (roundHalfEven (x / ulpOf x))" by simp
  with ulpOf_pos[of x] show ?thesis
    by (simp add: float64_pos assms(1))
qed

lemma float64_gt:
  assumes "0 < x" "of_int m * ulpOf x + ulpOf x / 2 < x"
  shows "of_int m * ulpOf x < float64 x"
proof -
  from assms ulpOf_pos[of x] have "of_int m + 1 / 2 < x / ulpOf x"
    by (simp add: pos_less_divide_eq field_simps)
  then have "m + 1 \<le> roundHalfEven (x / ulpOf x)" by (rule roundHalfEven_gt)
  then have "(of_int m :: rat) < of_int (roundHalfEven (x / ulpOf x))" by linarith
  with ulpOf_pos[of x] show ?thesis
    by (simp add: float64_pos assms(1))
qed

lemma exponent_range:
  assumes "2 powi (- 64) \<le> x" "x < 2 powi 65"
  shows "2 powi (exponentFrom x 64) \<le> x" "x < 2 powi (exponentFrom x 64 + 1)"
  using exponentFrom_bounds[of x 64] assms by simp_all

lemma exponent_less:
  assumes "2 powi (- 64) \<le> x" "x < 2 powi 65" "x < 2 powi n"
  shows "exponentFrom x 64 < n"
proof (rule ccontr)
  assume "\<not> exponentFrom x 64 < n"
  then have "(2::rat) powi n \<le> 2 powi (exponentFrom x 64)"
    by (intro power_int_increasing) auto
  with exponent_range(1)[OF assms(1,2)] assms(3) show False by simp
qed

lemma exponent_ge:
  assumes "2 powi (- 64) \<le> x" "x < 2 powi 65" "2 powi n \<le> x"
  shows "n \<le> exponentFrom x 64"
proof (rule ccontr)
  assume "\<not> n \<le> exponentFrom x 64"
  then have "(2::rat) powi (exponentFrom x 64 + 1) \<le> 2 powi n"
    by (intro power_int_increasing) auto
  with exponent_range(2)[OF assms(1,2)] assms(3) show False by simp
qed

lemma int_multiple_of_ulp:
  assumes "e \<le> 52"
  shows "(of_int k :: rat) = of_int (k * 2 ^ nat (52 - e)) * 2 powi (e - 52)"
proof -
  have "(2::rat) powi (e - 52) = inverse (2 ^ nat (52 - e))"
    using assms by (simp add: power_int_def power_one_over inverse_eq_divide)
  then show ?thesis by simp
qed

lemma pow_multiple_of_ulp: "(2::rat) powi e = of_int (2 ^ 52) * 2 powi (e - 52)"
proof -
  have "(2::rat) powi e = 2 powi (52 + (e - 52))" by simp
  also have "\<dots> = 2 powi 52 * 2 powi (e - 52)"
    by (rule power_int_add) simp
  finally show ?thesis by simp
qed

text \<open>For a positive \<open>x\<close> in range and below \<open>2 ^ 53\<close>, every whole number is a multiple of the ulp.\<close>

lemma in_range_pos: "2 powi (- 64) \<le> x \<Longrightarrow> 0 < (x::rat)"
proof -
  assume "2 powi (- 64) \<le> x"
  moreover have "(0::rat) < 2 powi (- 64)" by (rule zero_less_power_int) simp
  ultimately show ?thesis by linarith
qed

lemma small_exponent:
  assumes "2 powi (- 64) \<le> x" "x < 2 ^ 53"
  shows "exponentFrom x 64 \<le> 52" "x < 2 powi 65" "\<bar>x\<bar> = x"
proof -
  have "(2::rat) ^ 53 < 2 powi 65" by simp
  with assms(2) show lt: "x < 2 powi 65" by linarith
  have "x < 2 powi 53" using assms(2) by simp
  from exponent_less[OF assms(1) lt this] show "exponentFrom x 64 \<le> 52" by simp
  from in_range_pos[OF assms(1)] show "\<bar>x\<bar> = x" by simp
qed

lemma int_as_ulps:
  assumes "2 powi (- 64) \<le> x" "x < 2 ^ 53"
  obtains M where "of_int M * ulpOf x = (of_int k :: rat)"
proof -
  note se = small_exponent[OF assms]
  have "(of_int k :: rat) = of_int (k * 2 ^ nat (52 - exponentFrom x 64)) * ulpOf x"
    unfolding ulpOf_def se(3) by (rule int_multiple_of_ulp[OF se(1)])
  then show thesis using that by metis
qed

lemma float64_le_int:
  assumes "2 powi (- 64) \<le> x" "x < 2 ^ 53" "x \<le> of_int c"
  shows "float64 x \<le> of_int c"
proof -
  obtain M where M: "of_int M * ulpOf x = (of_int c :: rat)"
    by (rule int_as_ulps[OF assms(1,2)])
  from assms(3) have "x \<le> of_int M * ulpOf x" unfolding M .
  from float64_le[OF in_range_pos[OF assms(1)] this] show ?thesis unfolding M .
qed

lemma float64_ge_int:
  assumes "2 powi (- 64) \<le> x" "x < 2 ^ 53" "of_int c \<le> x"
  shows "of_int c \<le> float64 x"
proof -
  obtain M where M: "of_int M * ulpOf x = (of_int c :: rat)"
    by (rule int_as_ulps[OF assms(1,2)])
  from assms(3) have "of_int M * ulpOf x \<le> x" unfolding M .
  from float64_ge[OF in_range_pos[OF assms(1)] this] show ?thesis unfolding M .
qed

lemma one_in_range: "(2::rat) powi (- 64) \<le> 1"
proof -
  have "(2::rat) powi (- 64) \<le> 2 powi 0"
    by (rule power_int_increasing) simp_all
  then show ?thesis by simp
qed

lemma of_int_less_pow53: "n < 2 ^ 53 \<Longrightarrow> (of_int n :: rat) < 2 ^ 53"
proof -
  assume "n < 2 ^ 53"
  then have "(of_int n :: rat) < of_int (2 ^ 53)" by (simp only: of_int_less_iff)
  then show ?thesis by (simp only: of_int_power of_int_numeral)
qed

lemma float64_of_int:
  assumes "0 < n" "n < 2 ^ 53"
  shows "float64 (of_int n) = of_int n"
proof -
  have "(1::rat) \<le> of_int n" using assms(1) by simp
  with one_in_range have r: "2 powi (- 64) \<le> (of_int n :: rat)" by linarith
  have lt: "(of_int n :: rat) < 2 ^ 53" by (rule of_int_less_pow53[OF assms(2)])
  have "float64 (of_int n) \<le> of_int n" by (rule float64_le_int[OF r lt]) simp
  moreover have "of_int n \<le> float64 (of_int n)" by (rule float64_ge_int[OF r lt]) simp
  ultimately show ?thesis by simp
qed

lemma float64_gt_zero:
  assumes "2 powi (- 64) \<le> x" "x < 2 powi 65"
  shows "0 < float64 x"
proof -
  have pos: "0 < x" by (rule in_range_pos[OF assms(1)])
  then have abs: "\<bar>x\<bar> = x" by simp
  have "2 powi (exponentFrom x 64) = of_int (2 ^ 52) * ulpOf x"
    unfolding ulpOf_def abs by (rule pow_multiple_of_ulp)
  with exponent_range(1)[OF assms] have "of_int (2 ^ 52) * ulpOf x \<le> x" by simp
  from float64_ge[OF pos this] have "of_int (2 ^ 52) * ulpOf x \<le> float64 x" .
  moreover have "0 < of_int (2 ^ 52) * ulpOf x"
    by (rule mult_pos_pos) (simp_all add: ulpOf_pos)
  ultimately show ?thesis by linarith
qed

lemma float64_gt_int:
  assumes r: "2 powi (- 64) \<le> x" and lt: "x < 2 ^ 53"
    and gap: "of_int k + 2 powi (exponentFrom x 64 - 53) < x"
  shows "of_int k < float64 x"
proof -
  note se = small_exponent[OF r lt]
  obtain M where M: "of_int M * ulpOf x = (of_int k :: rat)"
    by (rule int_as_ulps[OF r lt])
  have half: "ulpOf x / 2 = 2 powi (exponentFrom x 64 - 53)"
  proof -
    have "(2::rat) powi (exponentFrom x 64 - 52) = 2 powi ((exponentFrom x 64 - 53) + 1)" by simp
    also have "\<dots> = 2 powi (exponentFrom x 64 - 53) * 2"
      by (rule power_int_add_1) simp
    finally show ?thesis by (simp add: ulpOf_def se(3))
  qed
  from gap have "of_int M * ulpOf x + ulpOf x / 2 < x" unfolding M half .
  from float64_gt[OF in_range_pos[OF r] this] show ?thesis unfolding M .
qed

lemma of_int_le_pow53: "n \<le> 2 ^ 53 \<Longrightarrow> (of_int n :: rat) \<le> 2 ^ 53"
proof -
  assume "n \<le> 2 ^ 53"
  then have "(of_int n :: rat) \<le> of_int (2 ^ 53)" by (simp only: of_int_le_iff)
  then show ?thesis by (simp only: of_int_power of_int_numeral)
qed

lemma quotient_in_range:
  assumes "0 < N" "0 < B" "B \<le> 2 ^ 53"
  shows "2 powi (- 64) \<le> (of_int N / of_int B :: rat)"
proof -
  have B: "(0::rat) < of_int B" "(of_int B :: rat) \<le> 2 ^ 53"
    using assms(2) of_int_le_pow53[OF assms(3)] by simp_all
  have "(2::rat) powi (- 64) \<le> 2 powi (- 53)"
    by (rule power_int_increasing) simp_all
  also have "\<dots> = 1 / 2 ^ 53" by (simp add: power_int_minus inverse_eq_divide)
  also have "\<dots> \<le> 1 / of_int B"
    using B by (intro divide_left_mono) simp_all
  also have "\<dots> \<le> of_int N / of_int B"
    using assms(1) B by (intro divide_right_mono) simp_all
  finally show ?thesis .
qed

lemma float64_pow53: "float64 (2 ^ 53) = 2 ^ 53"
proof -
  let ?x = "(2::rat) ^ 53"
  have r: "2 powi (- 64) \<le> ?x"
  proof -
    have "(2::rat) powi (- 64) \<le> 2 powi 53" by (rule power_int_increasing) simp_all
    then show ?thesis by simp
  qed
  have lt: "?x < 2 powi 65"
  proof -
    have "(2::rat) powi 53 < 2 powi 65" by (rule power_int_strict_increasing) simp_all
    then show ?thesis by simp
  qed
  have "(2::rat) powi 53 \<le> ?x" by simp
  from exponent_ge[OF r lt this] have e1: "53 \<le> exponentFrom ?x 64" .
  have "?x < 2 powi 54"
  proof -
    have "(2::rat) powi 53 < 2 powi 54" by (rule power_int_strict_increasing) simp_all
    then show ?thesis by simp
  qed
  from exponent_less[OF r lt this] e1 have e: "exponentFrom ?x 64 = 53" by simp
  have abs: "\<bar>?x\<bar> = ?x" by simp
  have u: "ulpOf ?x = 2" unfolding ulpOf_def abs e by simp
  have x: "of_int (2 ^ 52) * ulpOf ?x = ?x" unfolding u by simp
  have pos: "0 < ?x" by simp
  have "float64 ?x \<le> of_int (2 ^ 52) * ulpOf ?x"
    by (rule float64_le[OF pos]) (simp only: x)
  moreover have "of_int (2 ^ 52) * ulpOf ?x \<le> float64 ?x"
    by (rule float64_ge[OF pos]) (simp only: x)
  ultimately show ?thesis unfolding x by simp
qed

lemma float64_of_int_le:
  assumes "0 < n" "n \<le> 2 ^ 53"
  shows "float64 (of_int n) = of_int n"
proof (cases "n = 2 ^ 53")
  case True
  then show ?thesis using float64_pow53 by simp
next
  case False
  with assms have "n < 2 ^ 53" by simp
  then show ?thesis by (rule float64_of_int[OF assms(1)])
qed

lemma gap_below_quotient:
  fixes N B k e :: int
  assumes B: "0 < B" and N: "N \<le> 2 ^ 53" and e: "0 \<le> e"
    and k: "(of_int k :: rat) < of_int N / of_int B"
    and lo: "(2::rat) powi e < of_int N / of_int B"
  shows "(of_int k :: rat) + 2 powi (e - 53) < of_int N / of_int B"
proof -
  have Bp: "(0::rat) < of_int B" using B by simp
  from k Bp have "(of_int (k * B) :: rat) < of_int N"
    by (simp add: pos_less_divide_eq)
  then have "k * B < N" by (simp only: of_int_less_iff)
  then have "k * B + 1 \<le> N" by simp
  then have "(of_int (k * B + 1) :: rat) \<le> of_int N" by (simp only: of_int_le_iff)
  then have "(of_int k * of_int B + 1 :: rat) \<le> of_int N" by simp
  then have "(of_int k * of_int B + 1) / (of_int B :: rat) \<le> of_int N / of_int B"
    using Bp by (intro divide_right_mono) simp_all
  moreover have "(of_int k * of_int B + 1) / (of_int B :: rat) = of_int k + 1 / of_int B"
    using Bp by (simp add: add_divide_distrib)
  ultimately have step: "(of_int k :: rat) + 1 / of_int B \<le> of_int N / of_int B"
    by simp
  have pe: "(2::rat) powi e = of_int (2 ^ nat e)" using e by (simp add: power_int_def)
  from lo Bp have "(of_int (2 ^ nat e * B) :: rat) < of_int N"
    unfolding pe by (simp add: pos_less_divide_eq)
  then have "2 ^ nat e * B < N" by (simp only: of_int_less_iff)
  with N have "2 ^ nat e * B < (2 ^ 53 :: int)" by linarith
  then have "(of_int (2 ^ nat e * B) :: rat) < of_int (2 ^ 53)" by (simp only: of_int_less_iff)
  then have lt: "(2::rat) powi e * of_int B < 2 ^ 53" unfolding pe by simp
  have "(2::rat) powi (e - 53) = 2 powi e / 2 powi 53"
    by (rule power_int_diff) simp
  also have "\<dots> = 2 powi e / 2 ^ 53" by simp
  also have "\<dots> < 1 / of_int B"
    using lt Bp by (simp add: field_simps)
  finally have "(2::rat) powi (e - 53) < 1 / of_int B" .
  with step show ?thesis by linarith
qed

lemma ceiling_float64_small:
  fixes N B :: int
  assumes N: "0 < N" "N \<le> 2 ^ 53" and B: "0 < B" "B \<le> 2 ^ 53"
  shows "\<lceil>float64 (of_int N / of_int B)\<rceil> = \<lceil>(of_int N / of_int B :: rat)\<rceil>"
proof -
  define x :: rat where "x = of_int N / of_int B"
  have r: "2 powi (- 64) \<le> x" unfolding x_def by (rule quotient_in_range[OF N(1) B])
  have Bp: "(1::rat) \<le> of_int B" using B(1) by simp
  have xN: "x \<le> of_int N"
    unfolding x_def using Bp N(1) by (simp add: pos_divide_le_eq mult_le_cancel_left1)
  have x53: "x \<le> 2 ^ 53" using xN of_int_le_pow53[OF N(2)] by linarith
  show ?thesis
  proof (cases "x = 2 ^ 53")
    case True
    then show ?thesis using float64_pow53 unfolding x_def by simp
  next
    case False
    with x53 have lt: "x < 2 ^ 53" by simp
    define c where "c = \<lceil>x\<rceil>"
    have "float64 x \<le> of_int c"
      by (rule float64_le_int[OF r lt]) (simp add: c_def)
    then have up: "\<lceil>float64 x\<rceil> \<le> c" by (simp add: ceiling_le)
    have klt: "(of_int (c - 1) :: rat) < x" unfolding c_def by linarith
    have "of_int (c - 1) < float64 x"
    proof (cases "c - 1 \<le> 0")
      case True
      then have "(of_int (c - 1) :: rat) \<le> 0" by simp
      moreover have "0 < float64 x"
        by (rule float64_gt_zero[OF r small_exponent(2)[OF r lt]])
      ultimately show ?thesis by linarith
    next
      case kpos: False
      show ?thesis
      proof (cases "x = of_int c")
        case True
        have "of_int c \<le> float64 x" by (rule float64_ge_int[OF r lt]) (simp add: True)
        then show ?thesis by simp
      next
        case nint: False
        have one: "(2::rat) powi 0 \<le> x"
        proof -
          from kpos have "(1::rat) \<le> of_int (c - 1)" by simp
          with klt show ?thesis by simp
        qed
        have e0: "0 \<le> exponentFrom x 64"
          by (rule exponent_ge[OF r small_exponent(2)[OF r lt] one])
        have "2 powi (exponentFrom x 64) \<le> x"
          by (rule exponent_range(1)[OF r small_exponent(2)[OF r lt]])
        moreover have "2 powi (exponentFrom x 64) \<noteq> x"
        proof
          assume eq: "2 powi (exponentFrom x 64) = x"
          have pe: "(2::rat) powi (exponentFrom x 64) = of_int (2 ^ nat (exponentFrom x 64))"
            using e0 by (simp add: power_int_def)
          have xm: "x = of_int (2 ^ nat (exponentFrom x 64))"
            by (rule trans[OF eq[symmetric] pe])
          have "\<lceil>x\<rceil> = 2 ^ nat (exponentFrom x 64)"
            by (subst xm) (simp only: ceiling_of_int)
          then have "x = of_int c" unfolding c_def using xm by (simp only:)
          with nint show False by simp
        qed
        ultimately have lo: "2 powi (exponentFrom x 64) < x" by simp
        have "of_int (c - 1) + 2 powi (exponentFrom x 64 - 53) < x"
          using gap_below_quotient[OF B(1) N(2) e0, of "c - 1"] klt lo
          unfolding x_def by blast
        then show ?thesis by (rule float64_gt_int[OF r lt])
      qed
    qed
    then have "c - 1 < \<lceil>float64 x\<rceil>" by (simp add: less_ceiling_iff)
    with up have "\<lceil>float64 x\<rceil> = c" by simp
    then show ?thesis unfolding c_def x_def .
  qed
qed

lemma float64_zero [simp]: "float64 0 = 0"
  by (simp add: float64_def)

lemma float64_large:
  assumes "2 ^ 53 \<le> x" "x < 2 ^ 63"
  shows "2 ^ 53 \<le> float64 x" "float64 x \<le> 2 ^ 63"
proof -
  have r: "2 powi (- 64) \<le> x"
  proof -
    have "(2::rat) powi (- 64) \<le> 2 powi 53" by (rule power_int_increasing) simp_all
    with assms(1) show ?thesis by simp
  qed
  have lt: "x < 2 powi 65"
  proof -
    have "(2::rat) powi 63 < 2 powi 65" by (rule power_int_strict_increasing) simp_all
    with assms(2) show ?thesis by simp
  qed
  have pos: "0 < x" by (rule in_range_pos[OF r])
  then have abs: "\<bar>x\<bar> = x" by simp
  define e where "e = exponentFrom x 64"
  have "(2::rat) powi 53 \<le> x" using assms(1) by simp
  from exponent_ge[OF r lt this] have e1: "53 \<le> e" by (simp add: e_def)
  have "x < 2 powi 63" using assms(2) by simp
  from exponent_less[OF r lt this] have e2: "e \<le> 62" by (simp add: e_def)
  have u: "ulpOf x = 2 powi (e - 52)" by (simp add: ulpOf_def abs e_def)
  have lo: "of_int (2 ^ 52) * ulpOf x = 2 powi e"
    unfolding u by (rule pow_multiple_of_ulp[symmetric])
  have hi: "of_int (2 ^ 53) * ulpOf x = 2 powi (e + 1)"
  proof -
    have "e + 1 = 53 + (e - 52)" by simp
    then have "(2::rat) powi (e + 1) = 2 powi (53 + (e - 52))" by (simp only:)
    also have "\<dots> = 2 powi 53 * 2 powi (e - 52)" by (rule power_int_add) simp
    finally show ?thesis unfolding u by simp
  qed
  have "of_int (2 ^ 52) * ulpOf x \<le> float64 x"
    by (rule float64_ge[OF pos]) (simp only: lo e_def exponent_range(1)[OF r lt])
  moreover have "(2::rat) powi 53 \<le> 2 powi e"
    using e1 by (intro power_int_increasing) simp_all
  ultimately show "2 ^ 53 \<le> float64 x" unfolding lo by simp
  have "x \<le> 2 powi (e + 1)"
    using exponent_range(2)[OF r lt] by (simp add: e_def)
  then have "float64 x \<le> of_int (2 ^ 53) * ulpOf x"
    by (intro float64_le[OF pos]) (simp only: hi)
  moreover have "(2::rat) powi (e + 1) \<le> 2 powi 63"
    using e2 by (intro power_int_increasing) simp_all
  ultimately show "float64 x \<le> 2 ^ 63" unfolding hi by simp
qed

lemma ceiling_float64_unit:
  assumes "2 powi (- 64) \<le> y" "y \<le> 1"
  shows "\<lceil>float64 y\<rceil> = 1"
proof -
  have lt: "y < 2 ^ 53" using assms(2) by (simp add: order.strict_trans1)
  have "float64 y \<le> of_int 1" by (rule float64_le_int[OF assms(1) lt]) (simp add: assms(2))
  moreover have "0 < float64 y"
    by (rule float64_gt_zero[OF assms(1) small_exponent(2)[OF assms(1) lt]])
  ultimately show ?thesis by (simp add: ceiling_eq_iff)
qed

lemma of_int_less_pow63: "n < 2 ^ 63 \<Longrightarrow> (of_int n :: rat) < 2 ^ 63"
proof -
  assume "n < 2 ^ 63"
  then have "(of_int n :: rat) < of_int (2 ^ 63)" by (simp only: of_int_less_iff)
  then show ?thesis by (simp only: of_int_power of_int_numeral)
qed

lemma of_int_gt_pow53: "2 ^ 53 < n \<Longrightarrow> 2 ^ 53 < (of_int n :: rat)"
proof -
  assume "2 ^ 53 < n"
  then have "of_int (2 ^ 53) < (of_int n :: rat)" by (simp only: of_int_less_iff)
  then show ?thesis by (simp only: of_int_power of_int_numeral)
qed

lemma ceiling_float64_big_batch:
  fixes N B :: int
  assumes N: "0 < N" "N \<le> 2 ^ 53" and B: "2 ^ 53 < B" "B < 2 ^ 63"
  shows "\<lceil>float64 (of_int N / float64 (of_int B))\<rceil> = 1"
    and "\<lceil>(of_int N / of_int B :: rat)\<rceil> = 1"
proof -
  define b where "b = float64 (of_int B)"
  have b: "2 ^ 53 \<le> b" "b \<le> 2 ^ 63"
    unfolding b_def using float64_large[of "of_int B"] of_int_gt_pow53[OF B(1)]
      of_int_less_pow63[OF B(2)] by simp_all
  have Np: "(1::rat) \<le> of_int N" using N(1) by simp
  have Nle: "(of_int N :: rat) \<le> 2 ^ 53" by (rule of_int_le_pow53[OF N(2)])
  have bpos: "0 < b" using b(1) by (simp add: order.strict_trans2)
  have up: "of_int N / b \<le> 1" using Nle b(1) bpos by (simp add: pos_divide_le_eq)
  have "(2::rat) powi (- 64) \<le> 2 powi (- 63)" by (rule power_int_increasing) simp_all
  also have "\<dots> = 1 / 2 ^ 63" by (simp add: power_int_minus inverse_eq_divide)
  also have "\<dots> \<le> 1 / b" using b(2) bpos by (intro divide_left_mono) simp_all
  also have "\<dots> \<le> of_int N / b" using Np bpos by (intro divide_right_mono) simp_all
  finally have lo: "2 powi (- 64) \<le> of_int N / b" .
  show "\<lceil>float64 (of_int N / float64 (of_int B))\<rceil> = 1"
    using ceiling_float64_unit[OF lo up] by (simp add: b_def)
  have Bgt: "(of_int N :: rat) < of_int B" using Nle of_int_gt_pow53[OF B(1)] by linarith
  have Bp: "(0::rat) < of_int B" using Np Bgt by linarith
  have "(0::rat) < of_int N / of_int B" using Np Bp by simp
  moreover have "(of_int N / of_int B :: rat) \<le> 1" using Bgt Bp by (simp add: pos_divide_le_eq)
  ultimately show "\<lceil>(of_int N / of_int B :: rat)\<rceil> = 1" by (simp add: ceiling_eq_iff)
qed

lemma truncateToInt_of_int:
  "- (2 ^ 63) \<le> n \<Longrightarrow> n < 2 ^ 63 \<Longrightarrow> truncateToInt (of_int n) = n"
  by (simp add: truncateToInt_def Let_def)

lemma ceiling_quotient_bounds:
  fixes N B :: int
  assumes "0 \<le> N" "0 < B"
  shows "0 \<le> \<lceil>(of_int N / of_int B :: rat)\<rceil>" "\<lceil>(of_int N / of_int B :: rat)\<rceil> \<le> N"
proof -
  have "(0::rat) \<le> of_int N / of_int B" using assms by simp
  then have "(0::rat) \<le> of_int \<lceil>(of_int N / of_int B :: rat)\<rceil>"
    using le_of_int_ceiling[of "of_int N / of_int B :: rat"] by linarith
  then show "0 \<le> \<lceil>(of_int N / of_int B :: rat)\<rceil>" by simp
  have "(1::rat) \<le> of_int B" using assms(2) by simp
  then have "(of_int N / of_int B :: rat) \<le> of_int N / 1"
    using assms(1) by (intro divide_left_mono) simp_all
  then show "\<lceil>(of_int N / of_int B :: rat)\<rceil> \<le> N" by (simp add: ceiling_le_iff)
qed

lemma totalPagesOf_ceiling:
  assumes N: "0 \<le> N" "N \<le> 2 ^ 53" and B: "0 < B" "B < 2 ^ 63"
  shows "totalPagesOf N B = \<lceil>(of_int N / of_int B :: rat)\<rceil>"
proof (cases "N = 0")
  case True
  then show ?thesis by (simp add: totalPagesOf_def mathCeil_def truncateToInt_def Let_def)
next
  case False
  with N have Np: "0 < N" by simp
  have fN: "float64 (of_int N) = of_int N" by (rule float64_of_int_le[OF Np N(2)])
  show ?thesis
  proof (cases "B \<le> 2 ^ 53")
    case True
    have fB: "float64 (of_int B) = of_int B" by (rule float64_of_int_le[OF B(1) True])
    note c = ceiling_quotient_bounds[OF N(1) B(1)]
    have "\<lceil>(of_int N / of_int B :: rat)\<rceil> \<le> 2 ^ 53" by (rule order_trans[OF c(2) N(2)])
    then have "\<lceil>(of_int N / of_int B :: rat)\<rceil> < 2 ^ 63" by (rule order.strict_trans1) simp
    moreover have "- (2 ^ 63) \<le> \<lceil>(of_int N / of_int B :: rat)\<rceil>"
      by (rule order_trans[OF _ c(1)]) simp
    ultimately show ?thesis
      unfolding totalPagesOf_def mathCeil_def fN fB
      using ceiling_float64_small[OF Np N(2) B(1) True] by (simp add: truncateToInt_of_int)
  next
    case False
    then have big: "2 ^ 53 < B" by simp
    show ?thesis
      unfolding totalPagesOf_def mathCeil_def fN
      using ceiling_float64_big_batch[OF Np N(2) big B(2)]
      by (simp add: truncateToInt_def Let_def)
  qed
qed

lemma totalPagesOf_pow53_plus_1: "totalPagesOf (2 ^ 53 + 1) 1 = 2 ^ 53"
  by code_simp

lemma retryDelay_values:
  "retryDelay 0 = 100000000" "retryDelay 1 = 200000000" "retryDelay 2 = 400000000"
  by code_simp+

subsection \<open>How the trace grows\<close>

lemma perform_trace: "perform world a s = (r, s') \<Longrightarrow> trace s' = trace s @ [(a, r)]"
  by (auto simp: perform_def split: prod.splits)

lemma grewBy_refl [simp]: "grewBy K s s"
  by (simp add: grewBy_def)

lemma grewBy_trans: "grewBy K s s1 \<Longrightarrow> grewBy K s1 s2 \<Longrightarrow> grewBy K s s2"
  by (auto simp: grewBy_def)

lemma grewBy_perform: "perform world a s = (r, s') \<Longrightarrow> K a \<Longrightarrow> grewBy K s s'"
  by (auto simp: grewBy_def dest: perform_trace)

lemma grewBy_perform_snd: "K a \<Longrightarrow> grewBy K s (snd (perform world a s))"
  by (cases "perform world a s") (auto intro: grewBy_perform)

lemma grewBy_mono: "grewBy K s s' \<Longrightarrow> (\<And>a. K a \<Longrightarrow> K' a) \<Longrightarrow> grewBy K' s s'"
  by (auto simp: grewBy_def list_all_iff)

lemma newEvents_same [simp]: "newEvents s s = []"
  by (simp add: newEvents_def)

lemma newEvents_perform: "perform world a s = (r, s') \<Longrightarrow> newEvents s s' = [(a, r)]"
  by (auto simp: newEvents_def dest: perform_trace)

lemma grewBy_newEvents: "grewBy K s s' \<Longrightarrow> trace s' = trace s @ newEvents s s'"
  by (auto simp: grewBy_def newEvents_def)

lemma grewBy_list_all: "grewBy K s s' \<Longrightarrow> list_all (\<lambda>e. K (fst e)) (newEvents s s')"
  by (auto simp: grewBy_def newEvents_def)

lemma newEvents_trans:
  "grewBy K s s1 \<Longrightarrow> grewBy K' s1 s2 \<Longrightarrow> newEvents s s2 = newEvents s s1 @ newEvents s1 s2"
  by (auto simp: grewBy_def newEvents_def)

lemma grewBy_notifyEach:
  "(\<And>observer. K (call observer)) \<Longrightarrow> grewBy K s (notifyEach world call obs s)"
proof (induction obs arbitrary: s)
  case Nil
  show ?case by simp
next
  case (Cons observer rest)
  have "grewBy K s (snd (perform world (call observer) s))"
    by (rule grewBy_perform_snd) (rule Cons.prems)
  moreover have "grewBy K (snd (perform world (call observer) s))
                   (notifyEach world call rest (snd (perform world (call observer) s)))"
    by (rule Cons.IH) (rule Cons.prems)
  ultimately show ?case by (auto intro: grewBy_trans)
qed

subsection \<open>What writing a page does\<close>

lemma grewBy_syncSingleRecord:
  "syncSingleRecord world table record s = (r, s') \<Longrightarrow> grewBy isBatchAction s s'"
  by (auto simp: syncSingleRecord_def split: prod.splits option.splits intro: grewBy_perform)

lemma grewBy_attemptRecords:
  "attemptRecords world table records attempt lastErr s = (r, s') \<Longrightarrow> grewBy isBatchAction s s'"
proof (induction records arbitrary: s)
  case Nil
  then show ?case by simp
next
  case (Cons rec rest)
  obtain r1 s1 where one: "syncSingleRecord world table rec s = (r1, s1)"
    by (cases "syncSingleRecord world table rec s")
  note g1 = grewBy_syncSingleRecord[OF one]
  show ?case
  proof (cases r1)
    case None
    with Cons.prems one have "attemptRecords world table rest attempt lastErr s1 = (r, s')" by simp
    from grewBy_trans[OF g1 Cons.IH[OF this]] show ?thesis .
  next
    case (Some err)
    with Cons.prems one have "s' = snd (perform world (Sleep (retryDelay attempt)) s1)" by auto
    then have "grewBy isBatchAction s1 s'" by (simp add: grewBy_perform_snd)
    from grewBy_trans[OF g1 this] show ?thesis .
  qed
qed

lemma grewBy_retryAttempts:
  "retryAttempts world table records attempt lastErr s = (r, s') \<Longrightarrow> grewBy isBatchAction s s'"
proof (induction world table records attempt lastErr s arbitrary: r s' rule: retryAttempts.induct)
  case (1 world table records attempt lastErr s)
  show ?case
  proof (cases "attempt < retryCount")
    case True
    obtain lastErr1 s1 where a: "attemptRecords world table records attempt lastErr s = (lastErr1, s1)"
      by (cases "attemptRecords world table records attempt lastErr s")
    note g1 = grewBy_attemptRecords[OF a]
    show ?thesis
    proof (cases "lastErr1 = None")
      case None: True
      with "1.prems" True a have "s' = s1" by (subst (asm) retryAttempts.simps) simp
      with g1 show ?thesis by simp
    next
      case False
      with "1.prems" True a
      have "retryAttempts world table records (attempt + 1) lastErr1 s1 = (r, s')"
        by (subst (asm) retryAttempts.simps) simp
      from grewBy_trans[OF g1 "1.IH"[OF True a[symmetric] False this]] show ?thesis .
    qed
  next
    case False
    with "1.prems" have "s' = s"
      by (subst (asm) retryAttempts.simps) (auto split: option.splits)
    then show ?thesis by simp
  qed
qed

lemma grewBy_transaction:
  assumes body: "\<And>tx r tx'. fc tx = (r, tx') \<Longrightarrow> grewBy K tx tx'"
    and K: "K (Query targetDB BeginTx)" "K (Query targetDB CommitTx)" "K (Query targetDB RollbackTx)"
    and run: "transaction world fc s = (r, s')"
  shows "grewBy K s s'"
proof -
  obtain r0 s0 where b: "perform world (Query targetDB BeginTx) s = (r0, s0)"
    by (cases "perform world (Query targetDB BeginTx) s")
  note g0 = grewBy_perform[where K = K, OF b K(1)]
  show ?thesis
  proof (cases "asExec r0")
    case (Some err)
    with run b have "s' = s0" by (simp add: transaction_def)
    with g0 show ?thesis by simp
  next
    case None
    obtain r1 s1 where f: "fc s0 = (r1, s1)" by (cases "fc s0")
    note g1 = grewBy_trans[OF g0 body[OF f]]
    show ?thesis
    proof (cases r1)
      case (Some err)
      with run b None f have "s' = snd (perform world (Query targetDB RollbackTx) s1)"
        by (simp add: transaction_def)
      then have "grewBy K s1 s'" by (simp add: grewBy_perform_snd K(3))
      from grewBy_trans[OF g1 this] show ?thesis .
    next
      case r1: None
      obtain r2 s2 where c: "perform world (Query targetDB CommitTx) s1 = (r2, s2)"
        by (cases "perform world (Query targetDB CommitTx) s1")
      note g2 = grewBy_trans[OF g1 grewBy_perform[where K = K, OF c K(2)]]
      show ?thesis
      proof (cases "asExec r2")
        case (Some err)
        with run b None f r1 c have "s' = s2" by (simp add: transaction_def)
        with g2 show ?thesis by simp
      next
        case c2: None
        with run b None f r1 c have "s' = s2" by (simp add: transaction_def)
        with g2 show ?thesis by simp
      qed
    qed
  qed
qed

lemma grewBy_syncBatchData:
  assumes "syncBatchData world table records s = (r, s')"
  shows "grewBy isBatchAction s s'"
proof (rule grewBy_transaction[OF _ _ _ _ assms[unfolded syncBatchData_def]])
  fix tx r tx'
  assume body: "(let tx1 = snd (perform world (Query targetDB (Exec ''SET FOREIGN_KEY_CHECKS = 0'')) tx)
             in if length records = 0 then (None, tx1)
                else retryAttempts world table records 0 None tx1) = (r, tx')"
  let ?tx1 = "snd (perform world (Query targetDB (Exec ''SET FOREIGN_KEY_CHECKS = 0'')) tx)"
  have g1: "grewBy isBatchAction tx ?tx1" by (simp add: grewBy_perform_snd)
  show "grewBy isBatchAction tx tx'"
  proof (cases "length records = 0")
    case True
    with body have "tx' = ?tx1" by (simp add: Let_def)
    with g1 show ?thesis by simp
  next
    case False
    with body have "retryAttempts world table records 0 None ?tx1 = (r, tx')" by (simp add: Let_def)
    from grewBy_trans[OF g1 grewBy_retryAttempts[OF this]] show ?thesis .
  qed
qed simp_all

lemma grewBy_syncBatchData_empty:
  assumes "syncBatchData world table [] s = (r, s')"
  shows "grewBy isEmptyTxAction s s'"
proof (rule grewBy_transaction[OF _ _ _ _ assms[unfolded syncBatchData_def]])
  fix tx r tx'
  assume "(let tx1 = snd (perform world (Query targetDB (Exec ''SET FOREIGN_KEY_CHECKS = 0'')) tx)
             in if length [] = 0 then (None, tx1)
                else retryAttempts world table [] 0 None tx1) = (r, tx')"
  then have "tx' = snd (perform world (Query targetDB (Exec ''SET FOREIGN_KEY_CHECKS = 0'')) tx)"
    by (simp add: Let_def)
  then show "grewBy isEmptyTxAction tx tx'" by (simp add: grewBy_perform_snd)
qed simp_all

subsection \<open>One page\<close>

lemma readPage_full:
  assumes "SyncMode (config svc) = ''full''"
  shows "readPage world svc task offset batchSize s =
           (asRows (fst (perform world
                           (Query sourceDB (FindPage (SourceTable task) offset batchSize)) s)),
            snd (perform world (Query sourceDB (FindPage (SourceTable task) offset batchSize)) s))"
  using assms by (simp add: readPage_def split: prod.splits)

lemma readPage_empty:
  assumes "SyncMode (config svc) \<noteq> ''full''"
    and "\<not> (CheckMethod (getTableConfig svc (SourceTable task)) = ''update_time''
            \<and> UpdateField (getTableConfig svc (SourceTable task)) \<noteq> [])"
  shows "readPage world svc task offset batchSize s = (Inr [], s)"
  using assms by (auto simp: readPage_def Let_def)

lemma readPage_filtered:
  assumes "SyncMode (config svc) \<noteq> ''full''"
    and "CheckMethod (getTableConfig svc (SourceTable task)) = ''update_time''"
    and "UpdateField (getTableConfig svc (SourceTable task)) = field" and "field \<noteq> []"
    and "perform world (Query targetDB (SelectLastUpdate (TargetTable task) field)) s = (r1, s1)"
  shows "readPage world svc task offset batchSize s =
           (case asInstant r1 of
              Inl err \<Rightarrow> (Inl err, s1)
            | Inr lastTargetUpdate \<Rightarrow>
                (asRows (fst (perform world (Query sourceDB
                    (FindPageAfter (SourceTable task) field lastTargetUpdate offset batchSize)) s1)),
                 snd (perform world (Query sourceDB
                    (FindPageAfter (SourceTable task) field lastTargetUpdate offset batchSize)) s1)))"
  using assms by (simp add: readPage_def Let_def split: prod.splits sum.splits)

lemma grewBy_readPage:
  assumes "readPage world svc task offset batchSize s = (r, s')"
  shows "grewBy (\<lambda>a. isSourceRead a \<or> isLastUpdateQuery a) s s'"
proof (cases "SyncMode (config svc) = ''full''")
  case True
  from assms[unfolded readPage_full[OF True]]
  have "s' = snd (perform world (Query sourceDB (FindPage (SourceTable task) offset batchSize)) s)"
    by simp
  then show ?thesis by (simp add: grewBy_perform_snd)
next
  case False
  show ?thesis
  proof (cases "CheckMethod (getTableConfig svc (SourceTable task)) = ''update_time''
            \<and> UpdateField (getTableConfig svc (SourceTable task)) \<noteq> []")
    case False
    from assms[unfolded readPage_empty[OF \<open>SyncMode (config svc) \<noteq> ''full''\<close> False]]
    show ?thesis by simp
  next
    case True
    define field where "field = UpdateField (getTableConfig svc (SourceTable task))"
    obtain r1 s1 where
      p: "perform world (Query targetDB (SelectLastUpdate (TargetTable task) field)) s = (r1, s1)"
      by (cases "perform world (Query targetDB (SelectLastUpdate (TargetTable task) field)) s")
    have g1: "grewBy (\<lambda>a. isSourceRead a \<or> isLastUpdateQuery a) s s1"
      by (rule grewBy_perform[OF p]) simp
    note eq = assms[unfolded readPage_filtered[OF False conjunct1[OF True] field_def[symmetric]
          conjunct2[OF True, folded field_def] p]]
    show ?thesis
    proof (cases "asInstant r1")
      case (Inl err)
      with eq have "s' = s1" by simp
      with g1 show ?thesis by simp
    next
      case (Inr t)
      with eq have "s' = snd (perform world (Query sourceDB
                    (FindPageAfter (SourceTable task) field t offset batchSize)) s1)" by simp
      then have "grewBy (\<lambda>a. isSourceRead a \<or> isLastUpdateQuery a) s1 s'"
        by (simp add: grewBy_perform_snd)
      with g1 show ?thesis by (blast intro: grewBy_trans)
    qed
  qed
qed

lemma syncPage_None:
  assumes "syncPage world svc task batchSize totalPages page s = (None, s')"
  obtains recs s1 s2 rep where
    "readPage world svc task (page * batchSize) batchSize s = (Inr recs, s1)"
    "syncBatchData world (TargetTable task) recs s1 = (None, s2)"
    "perform world (LogPageSynced (SourceTable task) (page + 1) totalPages) s2 = (rep, s')"
  using assms
  by (auto simp: syncPage_def Let_def split: prod.splits sum.splits option.splits)
    (metis prod.collapse)

lemma syncPage_Some:
  assumes "syncPage world svc task batchSize totalPages page s = (Some err, s')"
  shows "(readPage world svc task (page * batchSize) batchSize s = (Inl err, s'))
       \<or> (\<exists>recs s1. readPage world svc task (page * batchSize) batchSize s = (Inr recs, s1)
             \<and> syncBatchData world (TargetTable task) recs s1 = (Some err, s'))"
  using assms
  by (auto simp: syncPage_def Let_def split: prod.splits sum.splits option.splits)

lemma grewBy_syncPage:
  assumes "syncPage world svc task batchSize totalPages page s = (r, s')"
  shows "grewBy isPageAction s s'"
proof (cases r)
  case None
  with assms obtain recs s1 s2 rep where
    rd: "readPage world svc task (page * batchSize) batchSize s = (Inr recs, s1)" and
    wr: "syncBatchData world (TargetTable task) recs s1 = (None, s2)" and
    lg: "perform world (LogPageSynced (SourceTable task) (page + 1) totalPages) s2 = (rep, s')"
    by (auto elim: syncPage_None)
  have "grewBy isPageAction s s1"
    by (rule grewBy_mono[OF grewBy_readPage[OF rd]]) (auto simp: isPageAction_def)
  moreover have "grewBy isPageAction s1 s2"
    by (rule grewBy_mono[OF grewBy_syncBatchData[OF wr]]) (auto simp: isPageAction_def)
  moreover have "grewBy isPageAction s2 s'"
    by (rule grewBy_perform[OF lg]) (simp add: isPageAction_def)
  ultimately show ?thesis by (blast intro: grewBy_trans)
next
  case (Some err)
  from syncPage_Some[OF assms[unfolded Some]] show ?thesis
  proof
    assume "readPage world svc task (page * batchSize) batchSize s = (Inl err, s')"
    then show ?thesis
      by (rule grewBy_mono[OF grewBy_readPage]) (auto simp: isPageAction_def)
  next
    assume "\<exists>recs s1. readPage world svc task (page * batchSize) batchSize s = (Inr recs, s1)
             \<and> syncBatchData world (TargetTable task) recs s1 = (Some err, s')"
    then obtain recs s1 where
      rd: "readPage world svc task (page * batchSize) batchSize s = (Inr recs, s1)" and
      wr: "syncBatchData world (TargetTable task) recs s1 = (Some err, s')" by blast
    have "grewBy isPageAction s s1"
      by (rule grewBy_mono[OF grewBy_readPage[OF rd]]) (auto simp: isPageAction_def)
    moreover have "grewBy isPageAction s1 s'"
      by (rule grewBy_mono[OF grewBy_syncBatchData[OF wr]]) (auto simp: isPageAction_def)
    ultimately show ?thesis by (blast intro: grewBy_trans)
  qed
qed

lemma grewBy_syncPages:
  "syncPages world svc task batchSize totalPages page s = (r, s') \<Longrightarrow> grewBy isPageAction s s'"
proof (induction world svc task batchSize totalPages page s arbitrary: r s' rule: syncPages.induct)
  case (1 world svc task batchSize totalPages page s)
  show ?case
  proof (cases "page < totalPages")
    case False
    with "1.prems" have "s' = s" by (subst (asm) syncPages.simps) simp
    then show ?thesis by simp
  next
    case True
    obtain r1 s1 where p: "syncPage world svc task batchSize totalPages page s = (r1, s1)"
      by (cases "syncPage world svc task batchSize totalPages page s")
    note g1 = grewBy_syncPage[OF p]
    show ?thesis
    proof (cases r1)
      case (Some err)
      with "1.prems" True p have "s' = s1" by (subst (asm) syncPages.simps) simp
      with g1 show ?thesis by simp
    next
      case None
      with "1.prems" True p
      have "syncPages world svc task batchSize totalPages (page + 1) s1 = (r, s')"
        by (subst (asm) syncPages.simps) simp
      from grewBy_trans[OF g1 "1.IH"[OF True p[symmetric, unfolded None] _ this]] show ?thesis
        by simp
    qed
  qed
qed

subsection \<open>What the events of a page hold\<close>

lemma filter_kind_Nil:
  assumes "list_all (\<lambda>e. K (fst e)) evs" and "\<And>a. K a \<Longrightarrow> \<not> P a"
  shows "filter P (map fst evs) = []"
  using assms by (induction evs) auto

lemma concat_kind_Nil:
  assumes "list_all (\<lambda>e. K (fst e)) evs" and "\<And>a r. K a \<Longrightarrow> g (a, r) = []"
  shows "concat (map g evs) = []"
  using assms by (induction evs) auto

lemma isBatchAction_kinds:
  assumes "isBatchAction a"
  shows "\<not> isPageLog a" "\<not> isSourceRead a" "\<not> isLastUpdateQuery a"
    "floorAnswered (a, r) = []" "filteredRead (a, r) = []"
  using assms by (cases a rule: isBatchAction.cases; simp)+

lemma isEmptyTxAction_kinds:
  assumes "isEmptyTxAction a"
  shows "isBatchAction a" "\<not> isUpsert a"
  using assms by (cases a rule: isEmptyTxAction.cases; simp)+

lemma pageLogs_append [simp]: "pageLogs (xs @ ys) = pageLogs xs @ pageLogs ys"
  by (simp add: pageLogs_def)

lemma sourceReads_append [simp]: "sourceReads (xs @ ys) = sourceReads xs @ sourceReads ys"
  by (simp add: sourceReads_def)

lemma floorsAnswered_append [simp]:
  "floorsAnswered (xs @ ys) = floorsAnswered xs @ floorsAnswered ys"
  by (simp add: floorsAnswered_def)

lemma filteredReads_append [simp]:
  "filteredReads (xs @ ys) = filteredReads xs @ filteredReads ys"
  by (simp add: filteredReads_def)

lemma pageLogs_simps [simp]:
  "pageLogs [] = []"
  "pageLogs ((a, r) # evs) = (if isPageLog a then a # pageLogs evs else pageLogs evs)"
  by (simp_all add: pageLogs_def)

lemma sourceReads_simps [simp]:
  "sourceReads [] = []"
  "sourceReads ((a, r) # evs) = (if isSourceRead a then a # sourceReads evs else sourceReads evs)"
  by (simp_all add: sourceReads_def)

lemma floorsAnswered_simps [simp]:
  "floorsAnswered [] = []"
  "floorsAnswered (e # evs) = floorAnswered e @ floorsAnswered evs"
  by (simp_all add: floorsAnswered_def)

lemma filteredReads_simps [simp]:
  "filteredReads [] = []"
  "filteredReads (e # evs) = filteredRead e @ filteredReads evs"
  by (simp_all add: filteredReads_def)

lemma batch_events:
  assumes "list_all (\<lambda>e. isBatchAction (fst e)) evs"
  shows "pageLogs evs = []" "sourceReads evs = []" "floorsAnswered evs = []"
    "filteredReads evs = []"
  unfolding pageLogs_def sourceReads_def floorsAnswered_def filteredReads_def
  by (rule filter_kind_Nil[OF assms] concat_kind_Nil[OF assms], simp add: isBatchAction_kinds)+

lemma asInstant_Inr: "asInstant r = Inr t \<Longrightarrow> r = Instant t"
  by (cases r) simp_all

lemma asNumber_Inr: "asNumber r = Inr n \<Longrightarrow> r = Number n"
  by (cases r) simp_all

text \<open>The events of a page that succeeded: its read, its batch, its progress line.\<close>

lemma syncPage_None_events:
  assumes "syncPage world svc task batchSize totalPages page s = (None, s')"
  obtains recs s1 s2 rep where
    "readPage world svc task (page * batchSize) batchSize s = (Inr recs, s1)"
    "list_all (\<lambda>e. isBatchAction (fst e)) (newEvents s1 s2)"
    "newEvents s s' = newEvents s s1 @ newEvents s1 s2
                      @ [(LogPageSynced (SourceTable task) (page + 1) totalPages, rep)]"
proof -
  from assms obtain recs s1 s2 rep where
    rd: "readPage world svc task (page * batchSize) batchSize s = (Inr recs, s1)" and
    wr: "syncBatchData world (TargetTable task) recs s1 = (None, s2)" and
    lg: "perform world (LogPageSynced (SourceTable task) (page + 1) totalPages) s2 = (rep, s')"
    by (auto elim: syncPage_None)
  note g1 = grewBy_readPage[OF rd] and g2 = grewBy_syncBatchData[OF wr]
  have g3: "grewBy (\<lambda>a. True) s2 s'" by (rule grewBy_perform[OF lg]) simp
  have "newEvents s s' = newEvents s s2 @ newEvents s2 s'"
    by (rule newEvents_trans[OF grewBy_trans[OF grewBy_mono[OF g1] grewBy_mono[OF g2]] g3])
      simp_all
  also have "newEvents s s2 = newEvents s s1 @ newEvents s1 s2"
    by (rule newEvents_trans[OF g1 g2])
  also have "newEvents s2 s' = [(LogPageSynced (SourceTable task) (page + 1) totalPages, rep)]"
    by (rule newEvents_perform[OF lg])
  finally show thesis
    using that[OF rd grewBy_list_all[OF g2]] by simp
qed

lemma readPage_events_kinds:
  assumes "readPage world svc task offset batchSize s = (r, s1)"
  shows "pageLogs (newEvents s s1) = []"
  unfolding pageLogs_def
  by (rule filter_kind_Nil[OF grewBy_list_all[OF grewBy_readPage[OF assms]]])
    (auto elim: isSourceRead.elims isLastUpdateQuery.elims)

lemma syncPage_None_pageLogs:
  assumes "syncPage world svc task batchSize totalPages page s = (None, s')"
  shows "pageLogs (newEvents s s') = [LogPageSynced (SourceTable task) (page + 1) totalPages]"
proof -
  from assms obtain recs s1 s2 rep where
    rd: "readPage world svc task (page * batchSize) batchSize s = (Inr recs, s1)" and
    b: "list_all (\<lambda>e. isBatchAction (fst e)) (newEvents s1 s2)" and
    e: "newEvents s s' = newEvents s s1 @ newEvents s1 s2
                      @ [(LogPageSynced (SourceTable task) (page + 1) totalPages, rep)]"
    by (rule syncPage_None_events)
  show ?thesis
    unfolding e by (simp add: readPage_events_kinds[OF rd] batch_events[OF b])
qed

lemma syncPage_None_full:
  assumes "syncPage world svc task batchSize totalPages page s = (None, s')"
    and full: "SyncMode (config svc) = ''full''"
  shows "sourceReads (newEvents s s')
           = [Query sourceDB (FindPage (SourceTable task) (page * batchSize) batchSize)]"
    and "floorsAnswered (newEvents s s') = []"
proof -
  from assms(1) obtain recs s1 s2 rep where
    rd: "readPage world svc task (page * batchSize) batchSize s = (Inr recs, s1)" and
    b: "list_all (\<lambda>e. isBatchAction (fst e)) (newEvents s1 s2)" and
    e: "newEvents s s' = newEvents s s1 @ newEvents s1 s2
                      @ [(LogPageSynced (SourceTable task) (page + 1) totalPages, rep)]"
    by (rule syncPage_None_events)
  from rd[unfolded readPage_full[OF full]]
  have "s1 = snd (perform world
                    (Query sourceDB (FindPage (SourceTable task) (page * batchSize) batchSize)) s)"
    by simp
  then obtain r where
    "perform world (Query sourceDB (FindPage (SourceTable task) (page * batchSize) batchSize)) s
       = (r, s1)"
    by (metis prod.collapse)
  from newEvents_perform[OF this]
  have rdE: "newEvents s s1
           = [(Query sourceDB (FindPage (SourceTable task) (page * batchSize) batchSize), r)]" .
  show "sourceReads (newEvents s s')
           = [Query sourceDB (FindPage (SourceTable task) (page * batchSize) batchSize)]"
    unfolding e by (simp add: rdE batch_events[OF b])
  show "floorsAnswered (newEvents s s') = []"
    unfolding e by (simp add: rdE batch_events[OF b])
qed

lemma syncPage_None_empty:
  assumes "syncPage world svc task batchSize totalPages page s = (None, s')"
    and "SyncMode (config svc) \<noteq> ''full''"
    and "\<not> (CheckMethod (getTableConfig svc (SourceTable task)) = ''update_time''
            \<and> UpdateField (getTableConfig svc (SourceTable task)) \<noteq> [])"
  shows "sourceReads (newEvents s s') = []"
proof -
  from assms(1) obtain recs s1 s2 rep where
    rd: "readPage world svc task (page * batchSize) batchSize s = (Inr recs, s1)" and
    b: "list_all (\<lambda>e. isBatchAction (fst e)) (newEvents s1 s2)" and
    e: "newEvents s s' = newEvents s s1 @ newEvents s1 s2
                      @ [(LogPageSynced (SourceTable task) (page + 1) totalPages, rep)]"
    by (rule syncPage_None_events)
  from rd[unfolded readPage_empty[OF assms(2,3)]] have "s1 = s" by simp
  with b have "sourceReads (newEvents s s2) = []" by (simp add: batch_events)
  with \<open>s1 = s\<close> show ?thesis
    unfolding e by simp
qed

lemma syncPage_None_filtered:
  assumes "syncPage world svc task batchSize totalPages page s = (None, s')"
    and mode: "SyncMode (config svc) \<noteq> ''full''"
    and meth: "CheckMethod (getTableConfig svc (SourceTable task)) = ''update_time''"
    and field: "UpdateField (getTableConfig svc (SourceTable task)) = field" "field \<noteq> []"
  shows "\<exists>t. floorsAnswered (newEvents s s') = [t]
           \<and> filteredReads (newEvents s s') = [(t, page * batchSize)]
           \<and> sourceReads (newEvents s s')
               = [Query sourceDB (FindPageAfter (SourceTable task) field t
                                     (page * batchSize) batchSize)]"
proof -
  from assms(1) obtain recs s1 s2 rep where
    rd: "readPage world svc task (page * batchSize) batchSize s = (Inr recs, s1)" and
    b: "list_all (\<lambda>e. isBatchAction (fst e)) (newEvents s1 s2)" and
    e: "newEvents s s' = newEvents s s1 @ newEvents s1 s2
                      @ [(LogPageSynced (SourceTable task) (page + 1) totalPages, rep)]"
    by (rule syncPage_None_events)
  obtain r1 s0 where
    p: "perform world (Query targetDB (SelectLastUpdate (TargetTable task) field)) s = (r1, s0)"
    by (cases "perform world (Query targetDB (SelectLastUpdate (TargetTable task) field)) s")
  note eq = rd[unfolded readPage_filtered[OF mode meth field p]]
  then obtain t where t: "asInstant r1 = Inr t" by (cases "asInstant r1") auto
  with eq have "s1 = snd (perform world (Query sourceDB
                    (FindPageAfter (SourceTable task) field t (page * batchSize) batchSize)) s0)"
    by simp
  then obtain r2 where
    q: "perform world (Query sourceDB
          (FindPageAfter (SourceTable task) field t (page * batchSize) batchSize)) s0 = (r2, s1)"
    by (metis prod.collapse)
  have "newEvents s s1 = newEvents s s0 @ newEvents s0 s1"
    by (rule newEvents_trans[OF grewBy_perform[OF p] grewBy_perform[OF q], of "\<lambda>a. True" "\<lambda>a. True"])
      simp_all
  then have rdE: "newEvents s s1 =
      [(Query targetDB (SelectLastUpdate (TargetTable task) field), Instant t),
       (Query sourceDB (FindPageAfter (SourceTable task) field t (page * batchSize) batchSize), r2)]"
    by (simp add: newEvents_perform[OF p] newEvents_perform[OF q] asInstant_Inr[OF t])
  have "floorsAnswered (newEvents s s') = [t]"
    unfolding e by (simp add: rdE batch_events[OF b])
  moreover have "filteredReads (newEvents s s') = [(t, page * batchSize)]"
    unfolding e by (simp add: rdE batch_events[OF b])
  moreover have "sourceReads (newEvents s s')
               = [Query sourceDB (FindPageAfter (SourceTable task) field t
                                     (page * batchSize) batchSize)]"
    unfolding e by (simp add: rdE batch_events[OF b])
  ultimately show ?thesis by blast
qed

subsection \<open>What the events of the page loop hold\<close>

lemma syncPages_done: "\<not> page < totalPages \<Longrightarrow>
    syncPages world svc task batchSize totalPages page s = (None, s)"
  by (subst syncPages.simps) simp

lemma syncPages_None_step:
  assumes "syncPages world svc task batchSize totalPages page s = (None, s')"
    and "page < totalPages"
  obtains s1 where "syncPage world svc task batchSize totalPages page s = (None, s1)"
    "syncPages world svc task batchSize totalPages (page + 1) s1 = (None, s')"
    "newEvents s s' = newEvents s s1 @ newEvents s1 s'"
proof -
  obtain r1 s1 where p: "syncPage world svc task batchSize totalPages page s = (r1, s1)"
    by (cases "syncPage world svc task batchSize totalPages page s")
  with assms have r1: "r1 = None"
    by (subst (asm) syncPages.simps) (auto split: option.splits)
  with assms p have l: "syncPages world svc task batchSize totalPages (page + 1) s1 = (None, s')"
    by (subst (asm) syncPages.simps) simp
  from that[OF p[unfolded r1] l newEvents_trans[OF grewBy_syncPage[OF p] grewBy_syncPages[OF l]]]
  show thesis .
qed

lemma syncPages_None_events:
  assumes "syncPages world svc task batchSize totalPages page s = (None, s')"
    and step: "\<And>q s s'. syncPage world svc task batchSize totalPages q s = (None, s')
                 \<Longrightarrow> f (newEvents s s') = [g q]"
    and app: "\<And>xs ys. f (xs @ ys) = f xs @ f ys" and nil: "f [] = []"
  shows "f (newEvents s s') = map g [page..totalPages - 1]"
  using assms(1,2)
proof (induction world svc task batchSize totalPages page s rule: syncPages.induct)
  case (1 world svc task batchSize totalPages page s)
  show ?case
  proof (cases "page < totalPages")
    case False
    with "1.prems"(1) show ?thesis by (simp add: syncPages_done nil)
  next
    case True
    from "1.prems"(1) True obtain s1 where
      p: "syncPage world svc task batchSize totalPages page s = (None, s1)" and
      l: "syncPages world svc task batchSize totalPages (page + 1) s1 = (None, s')" and
      e: "newEvents s s' = newEvents s s1 @ newEvents s1 s'"
      by (rule syncPages_None_step)
    have "[page..totalPages - 1] = page # [page + 1..totalPages - 1]"
      using True by (simp add: upto_rec1)
    with "1.IH"[OF True p[symmetric] refl l "1.prems"(2)] show ?thesis
      by (simp add: e app "1.prems"(2)[OF p])
  qed
qed

lemma syncPages_None_agree:
  assumes "syncPages world svc task batchSize totalPages page s = (None, s')"
    and step: "\<And>q s s'. syncPage world svc task batchSize totalPages q s = (None, s')
                 \<Longrightarrow> f (newEvents s s') = f' (newEvents s s')"
    and app: "\<And>xs ys. f (xs @ ys) = f xs @ f ys" "\<And>xs ys. f' (xs @ ys) = f' xs @ f' ys"
    and nil: "f [] = f' []"
  shows "f (newEvents s s') = f' (newEvents s s')"
  using assms(1,2)
proof (induction world svc task batchSize totalPages page s rule: syncPages.induct)
  case (1 world svc task batchSize totalPages page s)
  show ?case
  proof (cases "page < totalPages")
    case False
    with "1.prems"(1) show ?thesis by (simp add: syncPages_done nil)
  next
    case True
    from "1.prems"(1) True obtain s1 where
      p: "syncPage world svc task batchSize totalPages page s = (None, s1)" and
      l: "syncPages world svc task batchSize totalPages (page + 1) s1 = (None, s')" and
      e: "newEvents s s' = newEvents s s1 @ newEvents s1 s'"
      by (rule syncPages_None_step)
    from "1.IH"[OF True p[symmetric] refl l "1.prems"(2)] show ?thesis
      by (simp add: e app "1.prems"(2)[OF p])
  qed
qed

subsection \<open>What runs around the page loop\<close>

lemma grewBy_cleanupWithTemp:
  "cleanupWithTemp world sourceTable targetTable primaryKey tempTable tx = (r, tx')
     \<Longrightarrow> grewBy (\<lambda>a. \<not> isLoopAction a) tx tx'"
  by (auto simp: cleanupWithTemp_def grewBy_def perform_def Let_def isLoopAction_def
      split: prod.splits option.splits)

lemma grewBy_cleanupInTx:
  "cleanupInTx world sourceTable targetTable primaryKey tx = (r, tx')
     \<Longrightarrow> grewBy (\<lambda>a. \<not> isLoopAction a) tx tx'"
  by (auto simp: cleanupInTx_def Let_def isLoopAction_def grewBy_def perform_def
      split: prod.splits option.splits sum.splits if_splits
      dest!: grewBy_cleanupWithTemp[unfolded grewBy_def isLoopAction_def])

lemma grewBy_getPrimaryKey:
  "getPrimaryKey world db tableName s = (r, s') \<Longrightarrow> grewBy (\<lambda>a. \<not> isLoopAction a) s s'"
  by (auto simp: getPrimaryKey_def isLoopAction_def grewBy_def perform_def
      split: prod.splits sum.splits if_splits)

lemma grewBy_cleanupTargetTable:
  assumes "cleanupTargetTable world sourceTable targetTable columns s = (r, s')"
  shows "grewBy (\<lambda>a. \<not> isLoopAction a) s s'"
proof -
  obtain k s1 where pk: "getPrimaryKey world targetDB targetTable s = (k, s1)"
    by (cases "getPrimaryKey world targetDB targetTable s")
  note g1 = grewBy_getPrimaryKey[OF pk]
  show ?thesis
  proof (cases k)
    case (Inl err)
    with assms pk have "s' = s1" by (simp add: cleanupTargetTable_def)
    with g1 show ?thesis by simp
  next
    case (Inr primaryKey)
    with assms pk
    have t: "transaction world (cleanupInTx world sourceTable targetTable primaryKey) s1 = (r, s')"
      by (simp add: cleanupTargetTable_def)
    have "grewBy (\<lambda>a. \<not> isLoopAction a) s1 s'"
    proof (rule grewBy_transaction[OF _ _ _ _ t])
      fix tx r tx'
      assume "cleanupInTx world sourceTable targetTable primaryKey tx = (r, tx')"
      then show "grewBy (\<lambda>a. \<not> isLoopAction a) tx tx'" by (rule grewBy_cleanupInTx)
    qed (simp_all add: isLoopAction_def)
    with g1 show ?thesis by (blast intro: grewBy_trans)
  qed
qed

lemma grewBy_notifyError:
  "notifyError world svc task err s = (task', s') \<Longrightarrow> grewBy (\<lambda>a. \<not> isLoopAction a) s s'"
  by (auto simp: notifyError_def isLoopAction_def intro!: grewBy_notifyEach)

lemma grewBy_complete:
  "complete world svc task s = (task', s') \<Longrightarrow> grewBy (\<lambda>a. \<not> isLoopAction a) s s'"
  by (auto simp: complete_def notifyComplete_def Let_def isLoopAction_def
      intro!: grewBy_notifyEach)

lemma Status_notifyError:
  "SyncTask.Status (fst (notifyError world svc task err s)) = ''error''"
  by (simp add: notifyError_def)

lemma Status_complete:
  "fst (complete world svc task s) = task\<lparr>SyncTask.Status := ''completed''\<rparr>"
  by (simp add: complete_def Let_def)

lemma loop_events_elsewhere:
  assumes "list_all (\<lambda>e. \<not> isLoopAction (fst e)) evs"
  shows "pageLogs evs = []" "sourceReads evs = []" "floorsAnswered evs = []"
    "filteredReads evs = []" "filter isUpsert (map fst evs) = []"
proof -
  have k1: "floorAnswered (a, r) = []" if "\<not> isLoopAction a" for a and r :: "'a reply"
    using that by (cases "(a, r)" rule: floorAnswered.cases) (simp_all add: isLoopAction_def)
  have k2: "filteredRead (a, r) = []" if "\<not> isLoopAction a" for a and r :: "'a reply"
    using that by (cases "(a, r)" rule: filteredRead.cases) (simp_all add: isLoopAction_def)
  note k = k1 k2
  show "pageLogs evs = []" "sourceReads evs = []" "filter isUpsert (map fst evs) = []"
    unfolding pageLogs_def sourceReads_def
    by (rule filter_kind_Nil[OF assms], simp add: isLoopAction_def)+
  show "floorsAnswered evs = []" "filteredReads evs = []"
    unfolding floorsAnswered_def filteredReads_def
    by (rule concat_kind_Nil[OF assms], simp add: k)+
qed

text \<open>A pass that ends with the status \<^verbatim>\<open>completed\<close>: the count, the loop, the cleanup.\<close>

lemma replicate_completed:
  assumes run: "replicate world svc task columns s = (task', s')"
    and ok: "SyncTask.Status task' = ''completed''"
  obtains totalCount s1 s2 where
    "perform world (Query sourceDB (CountRows (SourceTable task))) s = (Number totalCount, s1)"
    "syncPages world svc task (SyncTask.BatchSize task)
       (totalPagesOf totalCount (SyncTask.BatchSize task)) 0 s1 = (None, s2)"
    "fst (cleanupTargetTable world (SourceTable task) (TargetTable task) columns s2) = None"
    "task' = task\<lparr>SyncTask.Status := ''completed''\<rparr>"
    "newEvents s s' = newEvents s s1 @ newEvents s1 s2 @ newEvents s2 s'"
    "list_all (\<lambda>e. \<not> isLoopAction (fst e)) (newEvents s s1)"
    "list_all (\<lambda>e. \<not> isLoopAction (fst e)) (newEvents s2 s')"
proof -
  obtain r s1 where c: "perform world (Query sourceDB (CountRows (SourceTable task))) s = (r, s1)"
    by (cases "perform world (Query sourceDB (CountRows (SourceTable task))) s")
  have g1: "grewBy (\<lambda>a. \<not> isLoopAction a) s s1"
    by (rule grewBy_perform[OF c]) (simp add: isLoopAction_def)
  show thesis
  proof (cases "asNumber r")
    case (Inl err)
    with run c have "task' = fst (notifyError world svc task err s1)"
      by (simp add: replicate_def)
    with ok show thesis by (simp add: Status_notifyError)
  next
    case (Inr totalCount)
    define B where "B = SyncTask.BatchSize task"
    obtain r2 s2 where l: "syncPages world svc task B (totalPagesOf totalCount B) 0 s1 = (r2, s2)"
      by (cases "syncPages world svc task B (totalPagesOf totalCount B) 0 s1")
    note g2 = grewBy_syncPages[OF l]
    show thesis
    proof (cases r2)
      case (Some err)
      with run c Inr l have "task' = fst (notifyError world svc task err s2)"
        by (simp add: replicate_def B_def)
      with ok show thesis by (simp add: Status_notifyError)
    next
      case None
      obtain r3 s3 where
        cl: "cleanupTargetTable world (SourceTable task) (TargetTable task) columns s2 = (r3, s3)"
        by (cases "cleanupTargetTable world (SourceTable task) (TargetTable task) columns s2")
      note g3 = grewBy_cleanupTargetTable[OF cl]
      show thesis
      proof (cases r3)
        case (Some err)
        with run c Inr l None cl
        have "task' = fst (notifyError world svc task
                             (Wrap ''failed to clean the target table'' err) s3)"
          by (simp add: replicate_def B_def)
        with ok show thesis by (simp add: Status_notifyError)
      next
        case r3: None
        with run c Inr l None cl have fin: "complete world svc task s3 = (task', s')"
          by (simp add: replicate_def B_def)
        note g4 = grewBy_trans[OF g3 grewBy_complete[OF fin]]
        have e: "newEvents s s' = newEvents s s1 @ newEvents s1 s2 @ newEvents s2 s'"
          using newEvents_trans[OF g1 grewBy_trans[OF grewBy_mono[OF g2] grewBy_mono[OF g4]],
              of "\<lambda>a. True"] newEvents_trans[OF g2 g4]
          by simp
        from Status_complete[of world svc task s3] fin
        have t: "task' = task\<lparr>SyncTask.Status := ''completed''\<rparr>" by simp
        show thesis
          by (rule that[OF c[unfolded asNumber_Inr[OF Inr]] l[unfolded None B_def] _ t e
                grewBy_list_all[OF g1] grewBy_list_all[OF g4]])
            (simp add: cl r3)
      qed
    qed
  qed
qed

subsection \<open>The pages of a pass\<close>

lemma totalPagesOf_zero: "0 < B \<Longrightarrow> B < 2 ^ 63 \<Longrightarrow> totalPagesOf 0 B = 0"
  using totalPagesOf_ceiling[of 0 B] by simp

text \<open>
  Claim C7, as amended.  Let the source count be \<open>N\<close> with \<open>0 \<le> N \<le> 2\<^sup>5\<^sup>3\<close> and the batch
  size of the task be \<open>B\<close> with \<open>0 < B < 2\<^sup>6\<^sup>3\<close>.  In a pass that ends with the status
  \<^verbatim>\<open>completed\<close> the progress lines are those of the pages \<open>1, \<dots>, \<lceil>N / B\<rceil>\<close>, in this order
  and each once, and in full mode the page reads are the queries with limit \<open>B\<close> at the
  offsets \<open>0, B, \<dots>, (\<lceil>N / B\<rceil> - 1) * B\<close>.  With \<open>N = 0\<close> the loop body never runs, the pass
  goes on to the cleanup, and it ends with the status \<^verbatim>\<open>completed\<close> when the cleanup
  returns no error.  The bound \<open>2\<^sup>5\<^sup>3\<close> is needed: the page count is computed in
  \<^verbatim>\<open>float64\<close>.
\<close>

theorem pages_issued:
  assumes N: "0 \<le> N" "N \<le> 2 ^ 53" and B: "0 < B" "B < 2 ^ 63"
    and size: "SyncTask.BatchSize task = B"
    and count: "perform world (Query sourceDB (CountRows (SourceTable task))) s = (Number N, s1)"
    and run: "replicate world svc task columns s = (task', s')"
  shows "(SyncTask.Status task' = ''completed'' \<longrightarrow>
            pageLogs (newEvents s s')
              = map (\<lambda>page. LogPageSynced (SourceTable task) (page + 1)
                                \<lceil>of_int N / (of_int B :: rat)\<rceil>)
                    [0..\<lceil>of_int N / (of_int B :: rat)\<rceil> - 1]
          \<and> (SyncMode (config svc) = ''full'' \<longrightarrow>
               sourceReads (newEvents s s')
                 = map (\<lambda>page. Query sourceDB (FindPage (SourceTable task) (page * B) B))
                       [0..\<lceil>of_int N / (of_int B :: rat)\<rceil> - 1]))
       \<and> (N = 0 \<longrightarrow>
            syncPages world svc task B (totalPagesOf N B) 0 s1 = (None, s1)
          \<and> (fst (cleanupTargetTable world (SourceTable task) (TargetTable task) columns s1) = None
               \<longrightarrow> task' = task\<lparr>SyncTask.Status := ''completed''\<rparr>
                 \<and> pageLogs (newEvents s s') = [] \<and> sourceReads (newEvents s s') = []))"
proof (intro conjI impI)
  define T where "T = totalPagesOf N B"
  have T: "T = \<lceil>of_int N / (of_int B :: rat)\<rceil>"
    unfolding T_def by (rule totalPagesOf_ceiling[OF N B])
  {
    assume ok: "SyncTask.Status task' = ''completed''"
    from run ok obtain totalCount t1 s2 where
      c: "perform world (Query sourceDB (CountRows (SourceTable task))) s = (Number totalCount, t1)"
      and l: "syncPages world svc task (SyncTask.BatchSize task)
                (totalPagesOf totalCount (SyncTask.BatchSize task)) 0 t1 = (None, s2)"
      and e: "newEvents s s' = newEvents s t1 @ newEvents t1 s2 @ newEvents s2 s'"
      and o1: "list_all (\<lambda>e. \<not> isLoopAction (fst e)) (newEvents s t1)"
      and o2: "list_all (\<lambda>e. \<not> isLoopAction (fst e)) (newEvents s2 s')"
      by (rule replicate_completed)
    from c count have "totalCount = N" "t1 = s1" by simp_all
    with l size have l: "syncPages world svc task B T 0 s1 = (None, s2)" by (simp add: T_def)
    have "pageLogs (newEvents s s') = pageLogs (newEvents s1 s2)"
      unfolding e \<open>t1 = s1\<close>[symmetric]
      by (simp add: loop_events_elsewhere[OF o1] loop_events_elsewhere[OF o2])
    also have "\<dots> = map (\<lambda>page. LogPageSynced (SourceTable task) (page + 1) T) [0..T - 1]"
      by (rule syncPages_None_events[OF l]) (simp_all add: syncPage_None_pageLogs)
    finally show "pageLogs (newEvents s s')
              = map (\<lambda>page. LogPageSynced (SourceTable task) (page + 1)
                                \<lceil>of_int N / (of_int B :: rat)\<rceil>)
                    [0..\<lceil>of_int N / (of_int B :: rat)\<rceil> - 1]"
      unfolding T .
    {
      assume full: "SyncMode (config svc) = ''full''"
      have "sourceReads (newEvents s s') = sourceReads (newEvents s1 s2)"
        unfolding e \<open>t1 = s1\<close>[symmetric]
        by (simp add: loop_events_elsewhere[OF o1] loop_events_elsewhere[OF o2])
      also have "\<dots> = map (\<lambda>page. Query sourceDB (FindPage (SourceTable task) (page * B) B))
                           [0..T - 1]"
        by (rule syncPages_None_events[OF l]) (simp_all add: syncPage_None_full[OF _ full])
      finally show "sourceReads (newEvents s s')
                 = map (\<lambda>page. Query sourceDB (FindPage (SourceTable task) (page * B) B))
                       [0..\<lceil>of_int N / (of_int B :: rat)\<rceil> - 1]"
        unfolding T .
    }
  }
  {
    assume zero: "N = 0"
    then have T0: "totalPagesOf N B = 0" by (simp add: totalPagesOf_zero[OF B])
    show l0: "syncPages world svc task B (totalPagesOf N B) 0 s1 = (None, s1)"
      unfolding T0 by (rule syncPages_done) simp
    assume cl: "fst (cleanupTargetTable world (SourceTable task) (TargetTable task) columns s1)
                  = None"
    obtain s3 where
      cl': "cleanupTargetTable world (SourceTable task) (TargetTable task) columns s1 = (None, s3)"
      using cl by (metis prod.collapse)
    from run count size l0 cl' zero have fin: "complete world svc task s1a = (task', s')"
      if "s1a = s3" for s1a
      using that by (simp add: replicate_def)
    from fin[OF refl] Status_complete[of world svc task s3]
    show t: "task' = task\<lparr>SyncTask.Status := ''completed''\<rparr>" by simp
    then have ok: "SyncTask.Status task' = ''completed''" by simp
    from run ok obtain totalCount t1 s2 where
      c: "perform world (Query sourceDB (CountRows (SourceTable task))) s = (Number totalCount, t1)"
      and l: "syncPages world svc task (SyncTask.BatchSize task)
                (totalPagesOf totalCount (SyncTask.BatchSize task)) 0 t1 = (None, s2)"
      and e: "newEvents s s' = newEvents s t1 @ newEvents t1 s2 @ newEvents s2 s'"
      and o1: "list_all (\<lambda>e. \<not> isLoopAction (fst e)) (newEvents s t1)"
      and o2: "list_all (\<lambda>e. \<not> isLoopAction (fst e)) (newEvents s2 s')"
      by (rule replicate_completed)
    from c count have "totalCount = N" "t1 = s1" by simp_all
    with l size l0 have "s2 = s1" by simp
    note o1' = o1[unfolded \<open>t1 = s1\<close>] and o2' = o2[unfolded \<open>s2 = s1\<close>]
    show "pageLogs (newEvents s s') = []" "sourceReads (newEvents s s') = []"
      unfolding e \<open>t1 = s1\<close> \<open>s2 = s1\<close>
      by (simp_all add: loop_events_elsewhere[OF o1'] loop_events_elsewhere[OF o2'])
  }
qed

lemma exCount:
  "perform exWorld (Query sourceDB (CountRows table)) (exStart source target refused)
     = (Number (int (length source)),
        snd (perform exWorld (Query sourceDB (CountRows table)) (exStart source target refused)))"
  by (simp add: perform_def exWorld_def exStatement_def exStart_def rowsOn_def)

lemma exPair:
  "getTableConfig (exService syncMode checkMethod updateField) ''orders''
     = \<lparr>Source = ''orders'', Target = ''orders_copy'',
        CheckMethod = checkMethod, UpdateField = updateField\<rparr>"
  by (simp add: getTableConfig_def exService_def)

text \<open>
  Claim C7 as stated fails for counts that \<^verbatim>\<open>float64\<close> cannot represent: for
  \<open>N = 2\<^sup>5\<^sup>3 + 1\<close> and \<open>B = 1\<close> the conversion rounds \<open>N\<close> to \<open>2\<^sup>5\<^sup>3\<close>, and the loop bound
  is \<open>2\<^sup>5\<^sup>3\<close>, one page less than \<open>\<lceil>N / B\<rceil>\<close>.
\<close>

theorem pages_lost_above_2_53_counterexample:
  "totalPagesOf (2 ^ 53 + 1) 1 = 2 ^ 53
   \<and> \<lceil>of_int (2 ^ 53 + 1) / (of_int 1 :: rat)\<rceil> = 2 ^ 53 + 1"
  using totalPagesOf_pow53_plus_1 by simp

theorem pages_issued_witness:
  "SyncTask.Status (fst (replicate exWorld (exService ''full'' ''checksum'' []) (exTask 2)
       exColumns (exStart [(1, 10), (2, 20), (3, 30)] [] 0))) = ''completed''
   \<and> pageLogs (newEvents (exStart [(1, 10), (2, 20), (3, 30)] [] 0)
        (snd (replicate exWorld (exService ''full'' ''checksum'' []) (exTask 2)
                exColumns (exStart [(1, 10), (2, 20), (3, 30)] [] 0))))
     = [LogPageSynced ''orders'' 1 2, LogPageSynced ''orders'' 2 2]
   \<and> sourceReads (newEvents (exStart [(1, 10), (2, 20), (3, 30)] [] 0)
        (snd (replicate exWorld (exService ''full'' ''checksum'' []) (exTask 2)
                exColumns (exStart [(1, 10), (2, 20), (3, 30)] [] 0))))
     = [Query sourceDB (FindPage ''orders'' 0 2), Query sourceDB (FindPage ''orders'' 2 2)]
   \<and> fst (replicate exWorld (exService ''full'' ''checksum'' []) (exTask 2)
       exColumns (exStart [] [(3, 5)] 0)) = (exTask 2)\<lparr>SyncTask.Status := ''completed''\<rparr>
   \<and> pageLogs (newEvents (exStart [] [(3, 5)] 0)
        (snd (replicate exWorld (exService ''full'' ''checksum'' []) (exTask 2)
                exColumns (exStart [] [(3, 5)] 0)))) = []"
proof -
  let ?svc = "exService ''full'' ''checksum'' []"
  let ?s = "exStart [(1, 10), (2, 20), (3, 30)] [] 0"
  let ?run = "replicate exWorld ?svc (exTask 2) exColumns ?s"
  let ?empty = "exStart [] [(3, 5)] 0"
  let ?runEmpty = "replicate exWorld ?svc (exTask 2) exColumns ?empty"
  have ok: "SyncTask.Status (fst ?run) = ''completed''" by code_simp
  have src: "SourceTable (exTask 2) = ''orders''" and size: "SyncTask.BatchSize (exTask 2) = 2"
    by (simp_all add: exTask_def)
  have mode: "SyncMode (config ?svc) = ''full''" by (simp add: exService_def)
  have count: "perform exWorld (Query sourceDB (CountRows (SourceTable (exTask 2)))) ?s
                 = (Number 3, snd (perform exWorld
                      (Query sourceDB (CountRows (SourceTable (exTask 2)))) ?s))"
    using exCount[of "SourceTable (exTask 2)" "[(1, 10), (2, 20), (3, 30)]" "[]" 0] by simp
  have count0: "perform exWorld (Query sourceDB (CountRows (SourceTable (exTask 2)))) ?empty
                 = (Number 0, snd (perform exWorld
                      (Query sourceDB (CountRows (SourceTable (exTask 2)))) ?empty))"
    using exCount[of "SourceTable (exTask 2)" "[]" "[(3, 5)]" 0] by simp
  have clean: "fst (cleanupTargetTable exWorld (SourceTable (exTask 2)) (TargetTable (exTask 2))
                 exColumns (snd (perform exWorld
                      (Query sourceDB (CountRows (SourceTable (exTask 2)))) ?empty))) = None"
    by code_simp
  have c: "\<lceil>3 / (2 :: rat)\<rceil> = 2" by (rule ceiling_unique) simp_all
  from pages_issued[OF _ _ _ _ size count surjective_pairing, of ?svc exColumns]
    pages_issued[OF _ _ _ _ size count0 surjective_pairing, of ?svc exColumns]
    ok mode clean
  show ?thesis by (simp add: src c upto_rec1)
qed

subsection \<open>The floor of the filtered page reads\<close>

lemma replicate_completed_events:
  assumes count: "perform world (Query sourceDB (CountRows (SourceTable task))) s = (Number N, s1)"
    and run: "replicate world svc task columns s = (task', s')"
    and ok: "SyncTask.Status task' = ''completed''"
  obtains s2 where
    "syncPages world svc task (SyncTask.BatchSize task)
       (totalPagesOf N (SyncTask.BatchSize task)) 0 s1 = (None, s2)"
    "pageLogs (newEvents s s') = pageLogs (newEvents s1 s2)"
    "sourceReads (newEvents s s') = sourceReads (newEvents s1 s2)"
    "floorsAnswered (newEvents s s') = floorsAnswered (newEvents s1 s2)"
    "filteredReads (newEvents s s') = filteredReads (newEvents s1 s2)"
proof -
  from run ok obtain totalCount t1 s2 where
    c: "perform world (Query sourceDB (CountRows (SourceTable task))) s = (Number totalCount, t1)"
    and l: "syncPages world svc task (SyncTask.BatchSize task)
              (totalPagesOf totalCount (SyncTask.BatchSize task)) 0 t1 = (None, s2)"
    and e: "newEvents s s' = newEvents s t1 @ newEvents t1 s2 @ newEvents s2 s'"
    and o1: "list_all (\<lambda>e. \<not> isLoopAction (fst e)) (newEvents s t1)"
    and o2: "list_all (\<lambda>e. \<not> isLoopAction (fst e)) (newEvents s2 s')"
    by (rule replicate_completed)
  from c count have eq: "totalCount = N" "t1 = s1" by simp_all
  show thesis
    by (rule that[OF l[unfolded eq]]; unfold e eq[symmetric])
      (simp_all add: loop_events_elsewhere[OF o1] loop_events_elsewhere[OF o2])
qed

text \<open>
  In a mode other than \<^verbatim>\<open>full\<close> with the method \<^verbatim>\<open>update_time\<close> and an update field,
  a pass that ends with the status \<^verbatim>\<open>completed\<close> has asked the target for the floor once
  for every page, inside the loop body: the floors that the filtered page reads use are,
  read by read, the floors the target answered, one for each page, and the reads are at
  the offsets \<open>0, B, 2 * B, \<dots>\<close>.
\<close>

lemma floor_asked_for_every_page:
  assumes mode: "SyncMode (config svc) \<noteq> ''full''"
    and meth: "CheckMethod (getTableConfig svc (SourceTable task)) = ''update_time''"
    and field: "UpdateField (getTableConfig svc (SourceTable task)) \<noteq> []"
    and count: "perform world (Query sourceDB (CountRows (SourceTable task))) s = (Number N, s1)"
    and run: "replicate world svc task columns s = (task', s')"
    and ok: "SyncTask.Status task' = ''completed''"
  shows "map fst (filteredReads (newEvents s s')) = floorsAnswered (newEvents s s')
       \<and> map snd (filteredReads (newEvents s s'))
           = map (\<lambda>page. page * SyncTask.BatchSize task)
                 [0..totalPagesOf N (SyncTask.BatchSize task) - 1]"
proof -
  from count run ok obtain s2 where
    l: "syncPages world svc task (SyncTask.BatchSize task)
          (totalPagesOf N (SyncTask.BatchSize task)) 0 s1 = (None, s2)" and
    fl: "floorsAnswered (newEvents s s') = floorsAnswered (newEvents s1 s2)" and
    rd: "filteredReads (newEvents s s') = filteredReads (newEvents s1 s2)"
    by (rule replicate_completed_events)
  note page = syncPage_None_filtered[OF _ mode meth refl field]
  have "(map fst \<circ> filteredReads) (newEvents s1 s2) = floorsAnswered (newEvents s1 s2)"
  proof (rule syncPages_None_agree[OF l])
    fix q t t'
    assume "syncPage world svc task (SyncTask.BatchSize task)
              (totalPagesOf N (SyncTask.BatchSize task)) q t = (None, t')"
    from page[OF this]
    show "(map fst \<circ> filteredReads) (newEvents t t') = floorsAnswered (newEvents t t')"
      by auto
  qed simp_all
  moreover
  have "(map snd \<circ> filteredReads) (newEvents s1 s2)
          = map (\<lambda>page. page * SyncTask.BatchSize task)
                [0..totalPagesOf N (SyncTask.BatchSize task) - 1]"
  proof (rule syncPages_None_events[OF l])
    fix q t t'
    assume "syncPage world svc task (SyncTask.BatchSize task)
              (totalPagesOf N (SyncTask.BatchSize task)) q t = (None, t')"
    from page[OF this]
    show "(map snd \<circ> filteredReads) (newEvents t t') = [q * SyncTask.BatchSize task]"
      by auto
  qed simp_all
  ultimately show ?thesis by (simp add: fl rd)
qed

text \<open>
  Claim C2 states that the floor of the filtered reads is computed once for a run, before
  the page loop.  \<^verbatim>\<open>syncTable\<close> asks the target for it inside the loop body, before
  every page read, while the offset of the reads advances by the batch size.  Once a page
  has been written the floor has moved, and the next read skips, above the new floor, as
  many rows as were already copied.  With six rows in the source, a stale copy of the first
  in the target and pages of two rows, the floors are 5, 20 and 60; the pass ends with the
  status \<^verbatim>\<open>completed\<close>, the rows 3 and 4 are never copied, and the change detector then
  finds nothing to do.
\<close>

theorem moving_floor_skips_rows:
  "SyncTask.Status (fst (replicate exWorld (exService ''incremental'' ''update_time'' ''updated_at'')
      (exTask 2) exColumns
      (exStart [(1, 10), (2, 20), (3, 30), (4, 40), (5, 50), (6, 60)] [(1, 5)] 0))) = ''completed''
   \<and> floorsAnswered (newEvents
        (exStart [(1, 10), (2, 20), (3, 30), (4, 40), (5, 50), (6, 60)] [(1, 5)] 0)
        (snd (replicate exWorld (exService ''incremental'' ''update_time'' ''updated_at'')
                (exTask 2) exColumns
                (exStart [(1, 10), (2, 20), (3, 30), (4, 40), (5, 50), (6, 60)] [(1, 5)] 0))))
     = [5, 20, 60]
   \<and> sourceReads (newEvents
        (exStart [(1, 10), (2, 20), (3, 30), (4, 40), (5, 50), (6, 60)] [(1, 5)] 0)
        (snd (replicate exWorld (exService ''incremental'' ''update_time'' ''updated_at'')
                (exTask 2) exColumns
                (exStart [(1, 10), (2, 20), (3, 30), (4, 40), (5, 50), (6, 60)] [(1, 5)] 0))))
     = [Query sourceDB (FindPageAfter ''orders'' ''updated_at'' 5 0 2),
        Query sourceDB (FindPageAfter ''orders'' ''updated_at'' 20 2 2),
        Query sourceDB (FindPageAfter ''orders'' ''updated_at'' 60 4 2)]
   \<and> targetRows (state
        (snd (replicate exWorld (exService ''incremental'' ''update_time'' ''updated_at'')
                (exTask 2) exColumns
                (exStart [(1, 10), (2, 20), (3, 30), (4, 40), (5, 50), (6, 60)] [(1, 5)] 0))))
     = [(1, 10), (2, 20), (5, 50), (6, 60)]
   \<and> fst (needSync exWorld (exService ''incremental'' ''update_time'' ''updated_at'')
        (exTask 2) exColumns
        (snd (replicate exWorld (exService ''incremental'' ''update_time'' ''updated_at'')
                (exTask 2) exColumns
                (exStart [(1, 10), (2, 20), (3, 30), (4, 40), (5, 50), (6, 60)] [(1, 5)] 0))))
     = (False, None)"
  by code_simp

subsection \<open>A pass with no page read\<close>

lemma perform_fst: "fst (perform world a s) = fst (world a (state s))"
  by (simp add: perform_def split: prod.splits)

lemma transaction_None:
  assumes tx: "acceptsTransactions world" and body: "\<And>tx. fst (fc tx) = None"
  shows "fst (transaction world fc s) = None"
proof -
  obtain r0 s0 where b: "perform world (Query targetDB BeginTx) s = (r0, s0)"
    by (cases "perform world (Query targetDB BeginTx) s")
  from tx perform_fst[of world "Query targetDB BeginTx" s] b have r0: "asExec r0 = None"
    by (simp add: acceptsTransactions_def)
  obtain r1 s1 where f: "fc s0 = (r1, s1)" by (cases "fc s0")
  with body[of s0] have r1: "r1 = None" by simp
  obtain r2 s2 where c: "perform world (Query targetDB CommitTx) s1 = (r2, s2)"
    by (cases "perform world (Query targetDB CommitTx) s1")
  from tx perform_fst[of world "Query targetDB CommitTx" s1] c have r2: "asExec r2 = None"
    by (simp add: acceptsTransactions_def)
  from b r0 f r1 c r2 show ?thesis by (simp add: transaction_def)
qed

lemma syncBatchData_empty_None:
  assumes "acceptsTransactions world"
  shows "fst (syncBatchData world table [] s) = None"
  unfolding syncBatchData_def by (rule transaction_None[OF assms]) simp

lemma syncPage_empty:
  assumes mode: "SyncMode (config svc) \<noteq> ''full''"
    and nofloor: "\<not> (CheckMethod (getTableConfig svc (SourceTable task)) = ''update_time''
                     \<and> UpdateField (getTableConfig svc (SourceTable task)) \<noteq> [])"
  shows "syncPage world svc task batchSize totalPages page s =
           (case syncBatchData world (TargetTable task) [] s of
              (Some err, s2) \<Rightarrow> (Some err, s2)
            | (None, s2) \<Rightarrow>
                (None, snd (perform world
                              (LogPageSynced (SourceTable task) (page + 1) totalPages) s2)))"
  by (simp add: syncPage_def readPage_empty[OF mode nofloor])

lemma grewBy_syncPage_empty:
  assumes mode: "SyncMode (config svc) \<noteq> ''full''"
    and nofloor: "\<not> (CheckMethod (getTableConfig svc (SourceTable task)) = ''update_time''
                     \<and> UpdateField (getTableConfig svc (SourceTable task)) \<noteq> [])"
    and run: "syncPage world svc task batchSize totalPages page s = (r, s')"
  shows "grewBy (\<lambda>a. isEmptyTxAction a \<or> isPageLog a) s s'"
proof -
  obtain r2 s2 where b: "syncBatchData world (TargetTable task) [] s = (r2, s2)"
    by (cases "syncBatchData world (TargetTable task) [] s")
  have g: "grewBy (\<lambda>a. isEmptyTxAction a \<or> isPageLog a) s s2"
    by (rule grewBy_mono[OF grewBy_syncBatchData_empty[OF b]]) simp
  show ?thesis
  proof (cases r2)
    case (Some err)
    with run b have "s' = s2" by (simp add: syncPage_empty[OF mode nofloor])
    with g show ?thesis by simp
  next
    case None
    with run b
    have "s' = snd (perform world (LogPageSynced (SourceTable task) (page + 1) totalPages) s2)"
      by (simp add: syncPage_empty[OF mode nofloor])
    then have "grewBy (\<lambda>a. isEmptyTxAction a \<or> isPageLog a) s2 s'"
      by (simp add: grewBy_perform_snd)
    with g show ?thesis by (blast intro: grewBy_trans)
  qed
qed

lemma syncPage_empty_None:
  assumes mode: "SyncMode (config svc) \<noteq> ''full''"
    and nofloor: "\<not> (CheckMethod (getTableConfig svc (SourceTable task)) = ''update_time''
                     \<and> UpdateField (getTableConfig svc (SourceTable task)) \<noteq> [])"
    and tx: "acceptsTransactions world"
  shows "fst (syncPage world svc task batchSize totalPages page s) = None"
  using syncBatchData_empty_None[OF tx, of "TargetTable task" s]
  by (cases "syncBatchData world (TargetTable task) [] s")
    (simp add: syncPage_empty[OF mode nofloor])

lemma grewBy_syncPages_empty:
  assumes mode: "SyncMode (config svc) \<noteq> ''full''"
    and nofloor: "\<not> (CheckMethod (getTableConfig svc (SourceTable task)) = ''update_time''
                     \<and> UpdateField (getTableConfig svc (SourceTable task)) \<noteq> [])"
  shows "grewBy (\<lambda>a. isEmptyTxAction a \<or> isPageLog a) s
           (snd (syncPages world svc task batchSize totalPages page s))"
  using assms
proof (induction world svc task batchSize totalPages page s rule: syncPages.induct)
  case (1 world svc task batchSize totalPages page s)
  note mode = "1.prems"(1) and nofloor = "1.prems"(2)
  obtain r1 s1 where p: "syncPage world svc task batchSize totalPages page s = (r1, s1)"
    by (cases "syncPage world svc task batchSize totalPages page s")
  note g1 = grewBy_syncPage_empty[OF mode nofloor p]
  show ?case
  proof (cases "page < totalPages")
    case False
    then show ?thesis by (simp add: syncPages_done)
  next
    case True
    show ?thesis
    proof (cases r1)
      case (Some err)
      with True p g1 show ?thesis by (subst syncPages.simps) simp
    next
      case None
      from grewBy_trans[OF g1 "1.IH"[OF True p[symmetric, unfolded None] refl mode nofloor]]
        True p None
      show ?thesis by (subst syncPages.simps) simp
    qed
  qed
qed

lemma syncPages_empty_None:
  assumes mode: "SyncMode (config svc) \<noteq> ''full''"
    and nofloor: "\<not> (CheckMethod (getTableConfig svc (SourceTable task)) = ''update_time''
                     \<and> UpdateField (getTableConfig svc (SourceTable task)) \<noteq> [])"
    and tx: "acceptsTransactions world"
  shows "fst (syncPages world svc task batchSize totalPages page s) = None"
  using assms
proof (induction world svc task batchSize totalPages page s rule: syncPages.induct)
  case (1 world svc task batchSize totalPages page s)
  note mode = "1.prems"(1) and nofloor = "1.prems"(2) and tx = "1.prems"(3)
  obtain r1 s1 where p: "syncPage world svc task batchSize totalPages page s = (r1, s1)"
    by (cases "syncPage world svc task batchSize totalPages page s")
  show ?case
  proof (cases "page < totalPages")
    case False
    then show ?thesis by (simp add: syncPages_done)
  next
    case True
    from syncPage_empty_None[OF mode nofloor tx, of batchSize totalPages page s] p
    have None: "r1 = None" by simp
    from "1.IH"[OF True p[symmetric, unfolded None] refl mode nofloor tx] True p None
    show ?thesis by (subst syncPages.simps) simp
  qed
qed

text \<open>The events of a pass are those of its page loop and of what runs around the loop.\<close>

lemma grewBy_replicate:
  assumes loop: "\<And>totalPages s1. grewBy K s1
                   (snd (syncPages world svc task (SyncTask.BatchSize task) totalPages 0 s1))"
    and clean: "\<And>s2. grewBy K s2
                   (snd (cleanupTargetTable world (SourceTable task) (TargetTable task) columns s2))"
    and K: "K (Query sourceDB (CountRows (SourceTable task)))"
      "\<And>observer. K (OnSyncComplete observer)" "\<And>observer err. K (OnSyncError observer err)"
  shows "grewBy K s (snd (replicate world svc task columns s))"
proof -
  obtain task' s' where run: "replicate world svc task columns s = (task', s')"
    by (cases "replicate world svc task columns s")
  obtain r s1 where c: "perform world (Query sourceDB (CountRows (SourceTable task))) s = (r, s1)"
    by (cases "perform world (Query sourceDB (CountRows (SourceTable task))) s")
  have g1: "grewBy K s s1"
    by (rule grewBy_perform[OF c]) (rule K(1))
  have ne: "grewBy K t t'" if "notifyError world svc task err t = (task', t')" for err t t'
    using that grewBy_notifyEach[of K "\<lambda>observer. OnSyncError observer err" t world "observers svc"]
    by (auto simp: notifyError_def K(3))
  have nc: "grewBy K t t'" if "complete world svc task t = (task', t')" for t t'
    using that grewBy_notifyEach[of K OnSyncComplete t world "observers svc"]
    by (auto simp: complete_def notifyComplete_def Let_def K(2))
  have "grewBy K s s'"
  proof (cases "asNumber r")
    case (Inl err)
    with run c have "notifyError world svc task err s1 = (task', s')"
      by (simp add: replicate_def)
    from g1 ne[OF this] show ?thesis by (blast intro: grewBy_trans)
  next
    case (Inr totalCount)
    define B where "B = SyncTask.BatchSize task"
    obtain r2 s2 where l: "syncPages world svc task B (totalPagesOf totalCount B) 0 s1 = (r2, s2)"
      by (cases "syncPages world svc task B (totalPagesOf totalCount B) 0 s1")
    from loop[of s1 "totalPagesOf totalCount B"] l have g2: "grewBy K s1 s2"
      by (simp add: B_def)
    show ?thesis
    proof (cases r2)
      case (Some err)
      with run c Inr l have "notifyError world svc task err s2 = (task', s')"
        by (simp add: replicate_def B_def)
      from g1 g2 ne[OF this] show ?thesis by (blast intro: grewBy_trans)
    next
      case None
      obtain r3 s3 where
        cl: "cleanupTargetTable world (SourceTable task) (TargetTable task) columns s2 = (r3, s3)"
        by (cases "cleanupTargetTable world (SourceTable task) (TargetTable task) columns s2")
      from clean[of s2] cl have g3: "grewBy K s2 s3" by simp
      show ?thesis
      proof (cases r3)
        case (Some err)
        with run c Inr l None cl
        have "notifyError world svc task (Wrap ''failed to clean the target table'' err) s3
                = (task', s')"
          by (simp add: replicate_def B_def)
        from g1 g2 g3 ne[OF this] show ?thesis by (blast intro: grewBy_trans)
      next
        case r3: None
        with run c Inr l None cl have "complete world svc task s3 = (task', s')"
          by (simp add: replicate_def B_def)
        from g1 g2 g3 nc[OF this] show ?thesis by (blast intro: grewBy_trans)
      qed
    qed
  qed
  with run show ?thesis by simp
qed

text \<open>The statements of the cleanup.\<close>

lemma addsNothing_cleanupWithTemp:
  "grewBy (addsNothing targetTable) tx
     (snd (cleanupWithTemp world sourceTable targetTable primaryKey
             (''temp_'' @ targetTable @ ''_'' @ stamp) tx))"
  by (auto simp: cleanupWithTemp_def grewBy_def perform_def Let_def isCleanupStatement_def
      bquote_def split: prod.splits option.splits)

lemma addsNothing_cleanupInTx:
  "grewBy (addsNothing targetTable) tx
     (snd (cleanupInTx world sourceTable targetTable primaryKey tx))"
proof -
  let ?tx1 = "snd (perform world (Query targetDB (Exec ''SET FOREIGN_KEY_CHECKS = 0'')) tx)"
  have g1: "grewBy (addsNothing targetTable) tx ?tx1"
    by (rule grewBy_perform_snd) (simp add: isCleanupStatement_def)
  obtain r2 tx2 where c: "perform world (Query targetDB (CountRows targetTable)) ?tx1 = (r2, tx2)"
    by (cases "perform world (Query targetDB (CountRows targetTable)) ?tx1")
  have g2: "grewBy (addsNothing targetTable) ?tx1 tx2"
    by (rule grewBy_perform[OF c]) simp
  show ?thesis
  proof (cases "asNumber r2")
    case (Inl err)
    with c grewBy_trans[OF g1 g2] show ?thesis by (simp add: cleanupInTx_def Let_def)
  next
    case (Inr targetCount)
    show ?thesis
    proof (cases "targetCount = 0")
      case True
      with Inr c grewBy_trans[OF g1 g2] show ?thesis by (simp add: cleanupInTx_def Let_def)
    next
      case False
      obtain r3 tx3 where n: "perform world UnixNano tx2 = (r3, tx3)"
        by (cases "perform world UnixNano tx2")
      have g3: "grewBy (addsNothing targetTable) tx2 tx3"
        by (rule grewBy_perform[OF n]) simp
      from grewBy_trans[OF grewBy_trans[OF g1 g2] grewBy_trans[OF g3 addsNothing_cleanupWithTemp]]
        Inr c False n
      show ?thesis by (simp add: cleanupInTx_def Let_def)
    qed
  qed
qed

lemma addsNothing_cleanupTargetTable:
  "grewBy (addsNothing targetTable) s
     (snd (cleanupTargetTable world sourceTable targetTable columns s))"
proof -
  obtain k s1 where pk: "getPrimaryKey world targetDB targetTable s = (k, s1)"
    by (cases "getPrimaryKey world targetDB targetTable s")
  then have g1: "grewBy (addsNothing targetTable) s s1"
    by (auto simp: getPrimaryKey_def grewBy_def perform_def
        split: prod.splits sum.splits if_splits)
  show ?thesis
  proof (cases k)
    case (Inl err)
    with pk g1 show ?thesis by (simp add: cleanupTargetTable_def)
  next
    case (Inr primaryKey)
    obtain r s' where
      t: "transaction world (cleanupInTx world sourceTable targetTable primaryKey) s1 = (r, s')"
      by (cases "transaction world (cleanupInTx world sourceTable targetTable primaryKey) s1")
    have "grewBy (addsNothing targetTable) s1 s'"
    proof (rule grewBy_transaction[OF _ _ _ _ t])
      fix tx r tx'
      assume "cleanupInTx world sourceTable targetTable primaryKey tx = (r, tx')"
      with addsNothing_cleanupInTx[of targetTable tx world sourceTable primaryKey]
      show "grewBy (addsNothing targetTable) tx tx'" by simp
    qed simp_all
    with pk Inr t g1 show ?thesis by (auto simp: cleanupTargetTable_def intro: grewBy_trans)
  qed
qed

lemma replicate_after_count:
  assumes "perform world (Query sourceDB (CountRows (SourceTable task))) s = (Number N, s1)"
    and "syncPages world svc task (SyncTask.BatchSize task)
           (totalPagesOf N (SyncTask.BatchSize task)) 0 s1 = (None, s2)"
  shows "replicate world svc task columns s =
           (case cleanupTargetTable world (SourceTable task) (TargetTable task) columns s2 of
              (Some err, s3) \<Rightarrow>
                notifyError world svc task (Wrap ''failed to clean the target table'' err) s3
            | (None, s3) \<Rightarrow> complete world svc task s3)"
  using assms by (simp add: replicate_def)

text \<open>
  Claim C10.  In a mode other than \<^verbatim>\<open>full\<close> (the configuration admits
  \<^verbatim>\<open>incremental\<close> only besides), for a table pair whose method is not \<^verbatim>\<open>update_time\<close> or
  whose update field is empty: the slice of every page is empty, and nothing is read for
  it; the whole pass, from the count of the source rows to its end, sends no write of a
  record and no page read, and the only statements it executes are the switch of the
  foreign-key checks and those of the cleanup, which fill a temporary table and delete
  from the target; and when the target database accepts the begin and the commit of the
  empty transactions, no page fails, so that after the loop the pass runs the cleanup.
\<close>

theorem incremental_without_floor_only_removes:
  assumes mode: "SyncMode (config svc) \<noteq> ''full''"
    and nofloor: "\<not> (CheckMethod (getTableConfig svc (SourceTable task)) = ''update_time''
                     \<and> UpdateField (getTableConfig svc (SourceTable task)) \<noteq> [])"
  shows "readPage world svc task offset batchSize s = (Inr [], s)
       \<and> filter isUpsert (map fst (newEvents s (snd (replicate world svc task columns s)))) = []
       \<and> sourceReads (newEvents s (snd (replicate world svc task columns s))) = []
       \<and> list_all (\<lambda>e. addsNothing (TargetTable task) (fst e))
            (newEvents s (snd (replicate world svc task columns s)))
       \<and> (acceptsTransactions world \<longrightarrow>
            (\<forall>N s1. perform world (Query sourceDB (CountRows (SourceTable task))) s = (Number N, s1)
               \<longrightarrow> replicate world svc task columns s =
                     (case cleanupTargetTable world (SourceTable task) (TargetTable task) columns
                             (snd (syncPages world svc task (SyncTask.BatchSize task)
                                     (totalPagesOf N (SyncTask.BatchSize task)) 0 s1)) of
                        (Some err, s3) \<Rightarrow>
                          notifyError world svc task
                            (Wrap ''failed to clean the target table'' err) s3
                      | (None, s3) \<Rightarrow> complete world svc task s3)))"
proof (intro conjI impI allI)
  show "readPage world svc task offset batchSize s = (Inr [], s)"
    by (rule readPage_empty[OF mode nofloor])
  let ?K = "\<lambda>a. \<not> isUpsert a \<and> \<not> isSourceRead a"
  have "grewBy ?K s (snd (replicate world svc task columns s))"
  proof (rule grewBy_replicate)
    fix totalPages s1
    show "grewBy ?K s1 (snd (syncPages world svc task (SyncTask.BatchSize task) totalPages 0 s1))"
      by (rule grewBy_mono[OF grewBy_syncPages_empty[OF mode nofloor]])
        (auto elim: isEmptyTxAction.elims isPageLog.elims)
  next
    fix s2
    obtain r s3 where
      cl: "cleanupTargetTable world (SourceTable task) (TargetTable task) columns s2 = (r, s3)"
      by (cases "cleanupTargetTable world (SourceTable task) (TargetTable task) columns s2")
    from grewBy_mono[OF grewBy_cleanupTargetTable[OF cl], of ?K] cl
    show "grewBy ?K s2
            (snd (cleanupTargetTable world (SourceTable task) (TargetTable task) columns s2))"
      by (simp add: isLoopAction_def)
  qed simp_all
  from grewBy_list_all[OF this]
  show "filter isUpsert (map fst (newEvents s (snd (replicate world svc task columns s)))) = []"
    and "sourceReads (newEvents s (snd (replicate world svc task columns s))) = []"
    unfolding sourceReads_def by (rule filter_kind_Nil, simp)+
  have "grewBy (addsNothing (TargetTable task)) s (snd (replicate world svc task columns s))"
  proof (rule grewBy_replicate)
    fix totalPages s1
    show "grewBy (addsNothing (TargetTable task)) s1
            (snd (syncPages world svc task (SyncTask.BatchSize task) totalPages 0 s1))"
      by (rule grewBy_mono[OF grewBy_syncPages_empty[OF mode nofloor]])
        (auto simp: isCleanupStatement_def elim!: isEmptyTxAction.elims isPageLog.elims)
  qed (simp_all add: addsNothing_cleanupTargetTable)
  then show "list_all (\<lambda>e. addsNothing (TargetTable task) (fst e))
               (newEvents s (snd (replicate world svc task columns s)))"
    by (rule grewBy_list_all)
next
  fix N s1
  assume tx: "acceptsTransactions world"
    and count: "perform world (Query sourceDB (CountRows (SourceTable task))) s = (Number N, s1)"
  from syncPages_empty_None[OF mode nofloor tx]
  have "syncPages world svc task (SyncTask.BatchSize task)
          (totalPagesOf N (SyncTask.BatchSize task)) 0 s1
        = (None, snd (syncPages world svc task (SyncTask.BatchSize task)
                        (totalPagesOf N (SyncTask.BatchSize task)) 0 s1))"
    by (metis prod.collapse)
  from replicate_after_count[OF count this]
  show "replicate world svc task columns s =
          (case cleanupTargetTable world (SourceTable task) (TargetTable task) columns
                  (snd (syncPages world svc task (SyncTask.BatchSize task)
                          (totalPagesOf N (SyncTask.BatchSize task)) 0 s1)) of
             (Some err, s3) \<Rightarrow>
               notifyError world svc task (Wrap ''failed to clean the target table'' err) s3
           | (None, s3) \<Rightarrow> complete world svc task s3)" .
qed

lemma exWorld_accepts: "acceptsTransactions exWorld"
  by (simp add: acceptsTransactions_def exWorld_def exStatement_def)

theorem incremental_without_floor_only_removes_witness:
  "SyncMode (config (exService ''incremental'' ''checksum'' [])) \<noteq> ''full''
   \<and> CheckMethod (getTableConfig (exService ''incremental'' ''checksum'' [])
                     (SourceTable (exTask 2))) \<noteq> ''update_time''
   \<and> acceptsTransactions exWorld
   \<and> targetRows (state (exStart [(1, 10), (2, 20)] [(3, 5)] 0)) = [(3, 5)]
   \<and> filter isUpsert (map fst (newEvents (exStart [(1, 10), (2, 20)] [(3, 5)] 0)
        (snd (replicate exWorld (exService ''incremental'' ''checksum'' []) (exTask 2)
                exColumns (exStart [(1, 10), (2, 20)] [(3, 5)] 0))))) = []
   \<and> sourceReads (newEvents (exStart [(1, 10), (2, 20)] [(3, 5)] 0)
        (snd (replicate exWorld (exService ''incremental'' ''checksum'' []) (exTask 2)
                exColumns (exStart [(1, 10), (2, 20)] [(3, 5)] 0)))) = []
   \<and> list_all (\<lambda>e. addsNothing (TargetTable (exTask 2)) (fst e))
        (newEvents (exStart [(1, 10), (2, 20)] [(3, 5)] 0)
           (snd (replicate exWorld (exService ''incremental'' ''checksum'' []) (exTask 2)
                   exColumns (exStart [(1, 10), (2, 20)] [(3, 5)] 0))))
   \<and> targetRows (state (snd (replicate exWorld (exService ''incremental'' ''checksum'' [])
        (exTask 2) exColumns (exStart [(1, 10), (2, 20)] [(3, 5)] 0)))) = []
   \<and> SyncTask.Status (fst (replicate exWorld (exService ''incremental'' ''checksum'' [])
        (exTask 2) exColumns (exStart [(1, 10), (2, 20)] [(3, 5)] 0))) = ''completed''"
proof -
  let ?svc = "exService ''incremental'' ''checksum'' []"
  let ?s = "exStart [(1, 10), (2, 20)] [(3, 5)] 0"
  have src: "SourceTable (exTask 2) = ''orders''" by (simp add: exTask_def)
  have mode: "SyncMode (config ?svc) \<noteq> ''full''" by (simp add: exService_def)
  have meth: "CheckMethod (getTableConfig ?svc (SourceTable (exTask 2))) \<noteq> ''update_time''"
    by (simp add: src exPair)
  then have nofloor:
    "\<not> (CheckMethod (getTableConfig ?svc (SourceTable (exTask 2))) = ''update_time''
        \<and> UpdateField (getTableConfig ?svc (SourceTable (exTask 2))) \<noteq> [])" by simp
  have gone: "targetRows (state (snd (replicate exWorld ?svc (exTask 2) exColumns ?s))) = []"
    by code_simp
  have ok: "SyncTask.Status (fst (replicate exWorld ?svc (exTask 2) exColumns ?s)) = ''completed''"
    by code_simp
  have start: "targetRows (state ?s) = [(3, 5)]" by (simp add: exStart_def)
  from incremental_without_floor_only_removes[OF mode nofloor, of exWorld 0 2 ?s exColumns]
    mode meth exWorld_accepts gone ok start
  show ?thesis by simp
qed

subsection \<open>Change detection\<close>











subsection \<open>The retry loop\<close>

lemma attemptRecords_keeps_error:
  "lastErr \<noteq> None \<Longrightarrow> fst (attemptRecords world table records attempt lastErr s) \<noteq> None"
  by (induction records arbitrary: s) (auto split: prod.splits option.splits)

lemma retryAttempts_after_failure:
  "lastErr \<noteq> None \<Longrightarrow> fst (retryAttempts world table records attempt lastErr s) \<noteq> None"
proof (induction world table records attempt lastErr s rule: retryAttempts.induct)
  case (1 world table records attempt lastErr s)
  show ?case
  proof (cases "attempt < retryCount")
    case True
    obtain lastErr1 s1 where a: "attemptRecords world table records attempt lastErr s = (lastErr1, s1)"
      by (cases "attemptRecords world table records attempt lastErr s")
    with attemptRecords_keeps_error[OF "1.prems", of world table records attempt s]
    have ne: "lastErr1 \<noteq> None" by simp
    from "1.IH"[OF True a[symmetric] ne ne] True a ne show ?thesis
      by (subst retryAttempts.simps) simp
  next
    case False
    with "1.prems" show ?thesis
      by (subst retryAttempts.simps) (auto split: option.splits)
  qed
qed

text \<open>Once a record failed in the first attempt, the loop fails, whatever the later attempts do.\<close>

lemma first_failure_is_final:
  assumes "fst (attemptRecords world table records 0 None s) \<noteq> None"
  shows "fst (retryAttempts world table records 0 None s) \<noteq> None"
proof -
  obtain lastErr1 s1 where a: "attemptRecords world table records 0 None s = (lastErr1, s1)"
    by (cases "attemptRecords world table records 0 None s")
  with assms have ne: "lastErr1 \<noteq> None" by simp
  from retryAttempts_after_failure[OF ne, of world table records 1 s1] a ne show ?thesis
    by (subst retryAttempts.simps) (simp add: retryCount_def)
qed

text \<open>
  Claim C1 states that a page which fails on some attempt and succeeds on a later one is
  applied, and does not fail the task.  \<^verbatim>\<open>syncBatchData\<close> declares \<^verbatim>\<open>lastErr\<close> before
  the loop over the attempts and never resets it: after an attempt in which every record
  succeeded \<^verbatim>\<open>lastErr\<close> still holds the error of an earlier attempt, the loop goes on, and
  after the last attempt the error is returned and the transaction is rolled back.  In
  the example the database refuses the first two writes: the third attempt writes the
  record, and yet the page fails and the pass ends with the status \<^verbatim>\<open>error\<close>.  The
  delays between the attempts are as claimed, 100 ms and 200 ms.
\<close>

theorem third_attempt_success_fails_the_page:
  "syncBatchData exWorld ''orders_copy'' [(1, 10)] (exStart [(1, 10)] [] 2) =
     (Some (Wrap ''batch sync failed after 3 retries''
        (Wrap ''failed to update the record''
           (Err ''Error 1213: Deadlock found when trying to get lock''))),
      \<lparr>state = \<lparr>sourceRows = [(1, 10)], targetRows = [(1, 10)], tempRows = [],
                 refusedWrites = 0\<rparr>,
       trace =
         [(Query targetDB BeginTx, Done 0),
          (Query targetDB (Exec ''SET FOREIGN_KEY_CHECKS = 0''), Done 0),
          (Query targetDB (Upsert ''orders_copy'' (1, 10)),
           Failed (Err ''Error 1213: Deadlock found when trying to get lock'')),
          (Sleep 100000000, Done 0),
          (Query targetDB (Upsert ''orders_copy'' (1, 10)),
           Failed (Err ''Error 1213: Deadlock found when trying to get lock'')),
          (Sleep 200000000, Done 0),
          (Query targetDB (Upsert ''orders_copy'' (1, 10)), Done 1),
          (Query targetDB RollbackTx, Done 0)]\<rparr>)
   \<and> SyncTask.Status (fst (replicate exWorld (exService ''full'' ''checksum'' []) (exTask 2)
        exColumns (exStart [(1, 10)] [] 2))) = ''error''"
  by code_simp

end
